(* ===== verification/Prelude.thy ===== *)
theory Prelude
  imports Main "HOL-Library.AList" "HOL-Library.Sublist"
    "HOL-Library.Char_ord" "HOL-Library.List_Lexorder"
begin

text \<open>
  What every component shares: the outcome of a call that may panic or block, the Go standard
  library's string functions the program calls, Go maps as association lists, and the generic
  lemmas on them.

  A Go \<^verbatim>\<open>map[K]V\<close> is an association list with distinct keys. The order of the list stands for
  the order in which the runtime ranges over the map: Go leaves it open, so the theorems of the
  development read a map through \<^const>\<open>map_of\<close> or hold for every order of the list.
\<close>

section \<open>Outcomes\<close>

text \<open>
  A call that returns normally, that panics (a failed type assertion, a nil dereference), or that
  never returns because its goroutine waits for a lock it already holds or for a full channel.
\<close>

datatype 'a outcome = Return 'a | Panic string | Blocked

fun bind_outcome :: "'a outcome \<Rightarrow> ('a \<Rightarrow> 'b outcome) \<Rightarrow> 'b outcome" where
  "bind_outcome (Return a) f = f a"
| "bind_outcome (Panic m) f = Panic m"
| "bind_outcome Blocked f = Blocked"

lemma bind_outcome_Return_iff [simp]:
  "bind_outcome x f = Return b \<longleftrightarrow> (\<exists>a. x = Return a \<and> f a = Return b)"
  by (cases x) auto

lemma bind_outcome_cong [fundef_cong]:
  "x = y \<Longrightarrow> (\<And>a. y = Return a \<Longrightarrow> f a = g a) \<Longrightarrow> bind_outcome x f = bind_outcome y g"
  by (cases y) auto

lemma bind_outcome_assoc:
  "bind_outcome (bind_outcome x f) g = bind_outcome x (\<lambda>a. bind_outcome (f a) g)"
  by (cases x) auto

section \<open>Theorem collections\<close>

named_theorems go_simps \<open>the Go library's string and map functions in terms of HOL's\<close>
named_theorems rbac_simps \<open>the RBAC matchers in terms of membership\<close>
named_theorems cache_simps \<open>the subject and review stores seen through their abstraction\<close>

section \<open>Strings of the Go standard library\<close>

definition HasPrefix :: "string \<Rightarrow> string \<Rightarrow> bool" where
  "HasPrefix s p \<longleftrightarrow> length s \<ge> length p \<and> take (length p) s = p"

definition HasSuffix :: "string \<Rightarrow> string \<Rightarrow> bool" where
  "HasSuffix s p \<longleftrightarrow> length s \<ge> length p \<and> drop (length s - length p) s = p"

definition TrimRight :: "string \<Rightarrow> string \<Rightarrow> string" where
  "TrimRight s cutset = rev (dropWhile (\<lambda>c. c \<in> set cutset) (rev s))"

fun Contains :: "string \<Rightarrow> string \<Rightarrow> bool" where
  "Contains [] sub \<longleftrightarrow> HasPrefix [] sub"
| "Contains (c # s) sub \<longleftrightarrow> HasPrefix (c # s) sub \<or> Contains s sub"

fun Join :: "string list \<Rightarrow> string \<Rightarrow> string" where
  "Join [] sep = ''''"
| "Join [s] sep = s"
| "Join (s # t # ss) sep = s @ sep @ Join (t # ss) sep"

lemma HasPrefix_iff [go_simps]: "HasPrefix s p \<longleftrightarrow> prefix p s"
  by (auto simp: HasPrefix_def prefix_def) (metis append_take_drop_id)

lemma HasSuffix_iff [go_simps]: "HasSuffix s p \<longleftrightarrow> suffix p s"
  by (auto simp: HasSuffix_def suffix_def) (metis append_take_drop_id)

lemma Contains_iff: "Contains s sub \<longleftrightarrow> (\<exists>u v. s = u @ sub @ v)"
proof (induction s)
  case Nil
  then show ?case by (auto simp: HasPrefix_def)
next
  case (Cons c s)
  have "(\<exists>u v. c # s = u @ sub @ v) \<longleftrightarrow> prefix sub (c # s) \<or> (\<exists>u v. s = u @ sub @ v)"
    by (auto simp: prefix_def Cons_eq_append_conv)
  with Cons show ?case by (simp add: go_simps)
qed

lemma Contains_single [go_simps]: "Contains s [c] \<longleftrightarrow> c \<in> set s"
  by (auto simp: Contains_iff in_set_conv_decomp)

text \<open>
  Trimming a cutset of one character removes the longest run of it at the end.
\<close>

lemma TrimRight_decomp: "\<exists>n. s = TrimRight s [c] @ replicate n c"
proof -
  let ?t = "takeWhile (\<lambda>x. x = c) (rev s)"
  have "?t = replicate (length ?t) c"
    by (rule replicate_length_same [symmetric]) (auto dest: set_takeWhileD)
  then have "rev ?t = replicate (length ?t) c"
    by (metis rev_replicate)
  moreover have "s = rev (dropWhile (\<lambda>x. x = c) (rev s)) @ rev ?t"
    by (metis rev_append rev_rev_ident takeWhile_dropWhile_id)
  ultimately show ?thesis
    by (auto simp: TrimRight_def)
qed

lemma TrimRight_last: "TrimRight s [c] = [] \<or> last (TrimRight s [c]) \<noteq> c"
proof (cases "dropWhile (\<lambda>x. x = c) (rev s) = []")
  case False
  then have "hd (dropWhile (\<lambda>x. x = c) (rev s)) \<noteq> c"
    by (rule hd_dropWhile)
  with False show ?thesis
    by (simp add: TrimRight_def last_rev)
qed (simp add: TrimRight_def)

lemma Join_append_single:
  "ss \<noteq> [] \<Longrightarrow> Join (ss @ [t]) sep = Join ss sep @ sep @ t"
  by (induction ss sep rule: Join.induct) auto

section \<open>Go maps as association lists\<close>

type_synonym strmap = "(string \<times> string) list"

text \<open>
  \<^verbatim>\<open>for k, v := range src { dst[k] = v }\<close>
\<close>

fun map_copy :: "('k \<times> 'v) list \<Rightarrow> ('k \<times> 'v) list \<Rightarrow> ('k \<times> 'v) list" where
  "map_copy dst [] = dst"
| "map_copy dst ((k, v) # src) = map_copy (AList.update k v dst) src"

lemma map_of_map_copy:
  "distinct (map fst src) \<Longrightarrow> map_of (map_copy dst src) = map_of dst ++ map_of src"
proof (induction dst src rule: map_copy.induct)
  case (2 dst k v src)
  then have "k \<notin> dom (map_of src)"
    by (simp add: dom_map_of_conv_image_fst)
  with 2 show ?case
    by (auto simp: update_conv' fun_eq_iff map_add_def domIff split: option.splits)
qed simp

lemma distinct_map_copy:
  "distinct (map fst dst) \<Longrightarrow> distinct (map fst (map_copy dst src))"
  by (induction dst src rule: map_copy.induct) (auto simp: distinct_update)

lemma map_of_delete: "map_of (AList.delete k al) = (map_of al)(k := None)"
  by (rule AList.delete_conv')

lemma map_of_Some_iff_mem:
  "distinct (map fst al) \<Longrightarrow> map_of al k = Some v \<longleftrightarrow> (k, v) \<in> set al"
  by (rule map_of_eq_Some_iff)

end
