(* ===== verification/ApiTypes.thy ===== *)
theory ApiTypes
  imports Prelude
begin

text \<open>
  The API objects the server works on: object metadata, namespaces and the \<^verbatim>\<open>Project\<close>,
  \<^verbatim>\<open>ProjectList\<close> and \<^verbatim>\<open>ProjectRequest\<close> types of \<^verbatim>\<open>pkg/apis/project/types.go\<close>, the RBAC objects
  and the request attributes the authorizer packages pass around, and the errors of the program.

  A nil slice or map is \<^const>\<open>None\<close> where the program can tell it from an empty one (annotations,
  labels, the finalizers that \<^verbatim>\<open>reflect.DeepEqual\<close> compares); elsewhere a slice is a list.
\<close>

section \<open>Groups, kinds and resources (register.go)\<close>

record group_kind =
  gk_Group :: string
  gk_Kind :: string

record group_resource =
  gr_Group :: string
  gr_Resource :: string

definition GroupName :: string where
  "GroupName = ''project.openshift.io''"

definition SchemeKind :: "string \<Rightarrow> group_kind" where
  "SchemeKind kind = \<lparr>gk_Group = GroupName, gk_Kind = kind\<rparr>"

definition SchemeResource :: "string \<Rightarrow> group_resource" where
  "SchemeResource resource = \<lparr>gr_Group = GroupName, gr_Resource = resource\<rparr>"

section \<open>Nilable maps and slices\<close>

type_synonym gomap = "strmap option"

definition gomap_items :: "gomap \<Rightarrow> strmap" where
  "gomap_items m = (case m of None \<Rightarrow> [] | Some al \<Rightarrow> al)"

text \<open>\<^verbatim>\<open>v, ok := m[k]\<close>, and \<^verbatim>\<open>m[k]\<close> with the zero value for a missing key.\<close>

definition gomap_lookup :: "gomap \<Rightarrow> string \<Rightarrow> string option" where
  "gomap_lookup m k = map_of (gomap_items m) k"

definition gomap_index :: "gomap \<Rightarrow> string \<Rightarrow> string" where
  "gomap_index m k = (case gomap_lookup m k of None \<Rightarrow> '''' | Some v \<Rightarrow> v)"

definition slice_items :: "'a list option \<Rightarrow> 'a list" where
  "slice_items s = (case s of None \<Rightarrow> [] | Some xs \<Rightarrow> xs)"

lemma gomap_items_simps [simp]: "gomap_items None = []" "gomap_items (Some al) = al"
  by (simp_all add: gomap_items_def)

lemma gomap_lookup_simps [simp]:
  "gomap_lookup None k = None" "gomap_lookup (Some al) k = map_of al k"
  by (simp_all add: gomap_lookup_def)

lemma slice_items_simps [simp]: "slice_items None = []" "slice_items (Some xs) = xs"
  by (simp_all add: slice_items_def)

section \<open>Object metadata\<close>

record owner_reference =
  or_APIVersion :: string
  or_Kind :: string
  or_Name :: string
  or_UID :: string
  or_Controller :: "bool option"

text \<open>
  Initializers: the names still pending, and the result when there is one, as its \<^verbatim>\<open>Status\<close> field and,
  in one value, all its other fields.
\<close>

record initializers =
  in_Pending :: "string list"
  in_Result :: "(string \<times> string) option"

type_synonym go_time = int

record object_meta =
  om_Name :: string
  om_GenerateName :: string
  om_Namespace :: string
  om_SelfLink :: string
  om_UID :: string
  om_ResourceVersion :: string
  om_Generation :: int
  om_CreationTimestamp :: go_time
  om_DeletionTimestamp :: "go_time option"
  om_DeletionGracePeriodSeconds :: "int option"
  om_Labels :: gomap
  om_Annotations :: gomap
  om_OwnerReferences :: "owner_reference list"
  om_Initializers :: "initializers option"
  om_Finalizers :: "string list"
  om_ClusterName :: string

text \<open>The zero value \<^verbatim>\<open>metav1.ObjectMeta{}\<close>.\<close>

definition empty_meta :: object_meta where
  "empty_meta = \<lparr>om_Name = '''', om_GenerateName = '''', om_Namespace = '''', om_SelfLink = '''',
     om_UID = '''', om_ResourceVersion = '''', om_Generation = 0, om_CreationTimestamp = 0,
     om_DeletionTimestamp = None, om_DeletionGracePeriodSeconds = None, om_Labels = None,
     om_Annotations = None, om_OwnerReferences = [], om_Initializers = None, om_Finalizers = [],
     om_ClusterName = ''''\<rparr>"

lemma empty_meta_simps [simp]:
  "om_Name empty_meta = ''''" "om_GenerateName empty_meta = ''''" "om_Namespace empty_meta = ''''"
  "om_UID empty_meta = ''''" "om_ResourceVersion empty_meta = ''''"
  "om_Labels empty_meta = None" "om_Annotations empty_meta = None"
  "om_Initializers empty_meta = None" "om_ClusterName empty_meta = ''''"
  by (simp_all add: empty_meta_def)

section \<open>Namespaces and projects\<close>

record namespace =
  ns_ObjectMeta :: object_meta
  ns_Finalizers :: "string list option"
  ns_Phase :: string

record project_spec =
  ps_Finalizers :: "string list option"

record project_status =
  pst_Phase :: string

record project =
  pr_ObjectMeta :: object_meta
  pr_Spec :: project_spec
  pr_Status :: project_status

record project_request =
  prq_ObjectMeta :: object_meta
  prq_DisplayName :: string
  prq_Description :: string

definition FinalizerOrigin :: string where
  "FinalizerOrigin = ''openshift.io/origin''"

definition ProjectDisplayName :: string where
  "ProjectDisplayName = ''openshift.io/display-name''"

definition ProjectDescription :: string where
  "ProjectDescription = ''openshift.io/description''"

definition ProjectNodeSelector :: string where
  "ProjectNodeSelector = ''openshift.io/node-selector''"

definition ProjectRequester :: string where
  "ProjectRequester = ''openshift.io/requester''"

abbreviation ns_Name :: "namespace \<Rightarrow> string" where
  "ns_Name n \<equiv> om_Name (ns_ObjectMeta n)"

abbreviation ns_ResourceVersion :: "namespace \<Rightarrow> string" where
  "ns_ResourceVersion n \<equiv> om_ResourceVersion (ns_ObjectMeta n)"

text \<open>The zero value \<^verbatim>\<open>v1.Namespace{}\<close> with a name and a resource version set.\<close>

definition named_namespace :: "string \<Rightarrow> string \<Rightarrow> namespace" where
  "named_namespace n rv = \<lparr>ns_ObjectMeta = empty_meta\<lparr>om_Name := n, om_ResourceVersion := rv\<rparr>,
     ns_Finalizers = None, ns_Phase = ''''\<rparr>"

lemma named_namespace_simps [simp]:
  "ns_Name (named_namespace n rv) = n" "ns_ResourceVersion (named_namespace n rv) = rv"
  by (simp_all add: named_namespace_def)

section \<open>RBAC objects\<close>

record subject =
  subj_Kind :: string
  subj_APIGroup :: string
  subj_Name :: string
  subj_Namespace :: string

record role_ref =
  ref_APIGroup :: string
  ref_Kind :: string
  ref_Name :: string

record policy_rule =
  Verbs :: "string list"
  APIGroups :: "string list"
  Resources :: "string list"
  ResourceNames :: "string list"
  NonResourceURLs :: "string list"

record role =
  role_ObjectMeta :: object_meta
  role_Rules :: "policy_rule list"

record role_binding =
  rb_ObjectMeta :: object_meta
  rb_Subjects :: "subject list"
  rb_RoleRef :: role_ref

record cluster_role =
  cr_ObjectMeta :: object_meta
  cr_Rules :: "policy_rule list"

record cluster_role_binding =
  crb_ObjectMeta :: object_meta
  crb_Subjects :: "subject list"
  crb_RoleRef :: role_ref

definition UserKind :: string where "UserKind = ''User''"

definition GroupKind :: string where "GroupKind = ''Group''"

definition ServiceAccountKind :: string where "ServiceAccountKind = ''ServiceAccount''"

definition RbacGroupName :: string where "RbacGroupName = ''rbac.authorization.k8s.io''"

lemma subject_kinds_distinct [simp]:
  "UserKind \<noteq> GroupKind" "GroupKind \<noteq> UserKind"
  "UserKind \<noteq> ServiceAccountKind" "ServiceAccountKind \<noteq> UserKind"
  "GroupKind \<noteq> ServiceAccountKind" "ServiceAccountKind \<noteq> GroupKind"
  by (simp_all add: UserKind_def GroupKind_def ServiceAccountKind_def)

text \<open>\<^verbatim>\<open>serviceaccount.MakeUsername\<close>.\<close>

definition MakeUsername :: "string \<Rightarrow> string \<Rightarrow> string" where
  "MakeUsername ns name = ''system:serviceaccount:'' @ ns @ '':'' @ name"

section \<open>Users, attributes and request contexts\<close>

record user_info =
  ui_Name :: string
  ui_Groups :: "string list"

record attributes =
  attr_User :: "user_info option"
  attr_Verb :: string
  attr_Namespace :: string
  attr_APIGroup :: string
  attr_Resource :: string
  attr_Subresource :: string
  attr_Name :: string
  attr_ResourceRequest :: bool
  attr_Path :: string

section \<open>Errors\<close>

datatype field_error_type = ErrorTypeRequired | ErrorTypeInvalid | ErrorTypeForbidden | ErrorTypeTooLong

datatype bad_value = BadString string | BadStrings "string list option" | BadInt int | BadTime "go_time option"
  | BadOwner owner_reference | BadOwners "owner_reference list" | BadResult "(string \<times> string) option" | BadNil

record field_error =
  fe_Type :: field_error_type
  fe_Field :: string
  fe_BadValue :: bad_value
  fe_Detail :: string

text \<open>
  One constructor per way the program makes an error. The text of a formatted error is kept as its
  format, the arguments and the errors wrapped in it. \<open>ForbiddenWith\<close> is a forbidden error whose
  message and details the code has overwritten: its message, the group and kind of the details and
  the message of the single cause.
\<close>

datatype go_error =
    ErrorString string
  | Errorf string "string list" "go_error list"
  | Aggregate "go_error list"
  | NotFound group_resource string
  | AlreadyExists group_resource string
  | Forbidden group_resource string go_error
  | ForbiddenMessage group_resource string string
  | ForbiddenWith string string string string
  | Invalid group_kind string "field_error list"
  | InternalError go_error
  | BadRequest string

fun IsNotFound :: "go_error \<Rightarrow> bool" where
  "IsNotFound (NotFound gr name) = True"
| "IsNotFound _ = False"

text \<open>\<^verbatim>\<open>utilerrors.NewAggregate\<close>: no error for an empty list.\<close>

definition NewAggregate :: "go_error list \<Rightarrow> go_error option" where
  "NewAggregate errlist = (if errlist = [] then None else Some (Aggregate errlist))"

lemma NewAggregate_None_iff [simp]: "NewAggregate es = None \<longleftrightarrow> es = []"
  by (simp add: NewAggregate_def)

end
