(* ===== verification/Stores.thy ===== *)
theory Stores
  imports ApiTypes
begin

text \<open>
  The two containers of the authorization cache: \<^verbatim>\<open>sets.String\<close> of the apimachinery library, a set of
  strings over a Go map, and \<^verbatim>\<open>cache.Store\<close> of client-go, objects under a key. A set is a distinct
  list and a store an association list with distinct keys; the order stands for the order of the
  runtime's map. The contract of a store is the locale \<open>keyed_store\<close>.
\<close>

section \<open>sets.String\<close>

type_synonym strset = "string list"

fun set_Has :: "strset \<Rightarrow> string \<Rightarrow> bool" where
  "set_Has [] item = False"
| "set_Has (x # s) item = (x = item \<or> set_Has s item)"

fun set_Insert :: "strset \<Rightarrow> string list \<Rightarrow> strset" where
  "set_Insert s [] = s"
| "set_Insert s (item # items) = set_Insert (if set_Has s item then s else s @ [item]) items"

fun set_Delete :: "strset \<Rightarrow> string list \<Rightarrow> strset" where
  "set_Delete s [] = s"
| "set_Delete s (item # items) = set_Delete (filter (\<lambda>x. x \<noteq> item) s) items"

fun set_HasAll :: "strset \<Rightarrow> string list \<Rightarrow> bool" where
  "set_HasAll s [] = True"
| "set_HasAll s (item # items) = (if \<not> set_Has s item then False else set_HasAll s items)"

fun set_HasAny :: "strset \<Rightarrow> string list \<Rightarrow> bool" where
  "set_HasAny s [] = False"
| "set_HasAny s (item # items) = (if set_Has s item then True else set_HasAny s items)"

definition set_Difference :: "strset \<Rightarrow> strset \<Rightarrow> strset" where
  "set_Difference s s2 = filter (\<lambda>key. \<not> set_Has s2 key) s"

text \<open>The members in sorted order; strings are compared by their bytes.\<close>

definition set_List :: "strset \<Rightarrow> string list" where
  "set_List s = sort s"

definition NewString :: "string list \<Rightarrow> strset" where
  "NewString items = set_Insert [] items"

lemma set_Has_iff [cache_simps]: "set_Has s item \<longleftrightarrow> item \<in> set s"
  by (induction s) auto

lemma set_Insert_set [cache_simps]: "set (set_Insert s items) = set s \<union> set items"
  by (induction s items rule: set_Insert.induct) (auto simp: cache_simps)

lemma set_Insert_distinct [intro]: "distinct s \<Longrightarrow> distinct (set_Insert s items)"
  by (induction s items rule: set_Insert.induct) (auto simp: cache_simps)

lemma set_Delete_set [cache_simps]: "set (set_Delete s items) = set s - set items"
  by (induction s items rule: set_Delete.induct) auto

lemma set_Delete_distinct [intro]: "distinct s \<Longrightarrow> distinct (set_Delete s items)"
  by (induction s items rule: set_Delete.induct) auto

lemma set_HasAll_iff [cache_simps]: "set_HasAll s items \<longleftrightarrow> set items \<subseteq> set s"
  by (induction s items rule: set_HasAll.induct) (auto simp: cache_simps)

lemma set_HasAny_iff [cache_simps]: "set_HasAny s items \<longleftrightarrow> (\<exists>x \<in> set items. x \<in> set s)"
  by (induction s items rule: set_HasAny.induct) (auto simp: cache_simps)

lemma set_Difference_set [cache_simps]: "set (set_Difference s s2) = set s - set s2"
  by (auto simp: set_Difference_def cache_simps)

lemma set_List_set [cache_simps]: "set (set_List s) = set s"
  by (simp add: set_List_def)

lemma set_List_distinct [intro]: "distinct s \<Longrightarrow> distinct (set_List s)"
  by (simp add: set_List_def)

lemma NewString_set [cache_simps]: "set (NewString items) = set items"
  by (simp add: NewString_def cache_simps)

lemma NewString_distinct [simp]: "distinct (NewString items)"
  by (auto simp: NewString_def)

lemma NewString_Nil [simp]: "NewString [] = []"
  by (simp add: NewString_def)

lemma set_Delete_all: "set s \<subseteq> set items \<Longrightarrow> set_Delete s items = []"
  using set_Delete_set [of s items] by (metis Diff_eq_empty_iff set_empty)

text \<open>Equal length and containment decide equality of two sets.\<close>

lemma set_same_iff:
  "distinct s \<Longrightarrow> distinct t \<Longrightarrow> (length s = length t \<and> set_HasAll s (set_List t)) \<longleftrightarrow> set s = set t"
  using card_subset_eq [of "set s" "set t"]
  by (auto simp: cache_simps distinct_card [symmetric])

section \<open>cache.Store\<close>

type_synonym 'v store = "(string \<times> 'v) list"

definition NewStore :: "'v store" where
  "NewStore = []"

definition store_Add :: "('v \<Rightarrow> string) \<Rightarrow> 'v \<Rightarrow> 'v store \<Rightarrow> 'v store" where
  "store_Add keyFn obj s = AList.update (keyFn obj) obj s"

definition store_Delete :: "('v \<Rightarrow> string) \<Rightarrow> 'v \<Rightarrow> 'v store \<Rightarrow> 'v store" where
  "store_Delete keyFn obj s = AList.delete (keyFn obj) s"

definition store_GetByKey :: "'v store \<Rightarrow> string \<Rightarrow> 'v option" where
  "store_GetByKey s key = map_of s key"

definition store_List :: "'v store \<Rightarrow> 'v list" where
  "store_List s = map snd s"

text \<open>Every object is held under its own key, once.\<close>

definition store_wf :: "('v \<Rightarrow> string) \<Rightarrow> 'v store \<Rightarrow> bool" where
  "store_wf keyFn s \<longleftrightarrow> distinct (map fst s) \<and> list_all (\<lambda>(k, v). keyFn v = k) s"

locale keyed_store =
  fixes keyFn :: "'v \<Rightarrow> string"
    and empty :: 's
    and add :: "'v \<Rightarrow> 's \<Rightarrow> 's"
    and del :: "'v \<Rightarrow> 's \<Rightarrow> 's"
    and get :: "'s \<Rightarrow> string \<Rightarrow> 'v option"
    and items :: "'s \<Rightarrow> 'v list"
    and wf :: "'s \<Rightarrow> bool"
  assumes wf_empty: "wf empty"
    and wf_add: "wf s \<Longrightarrow> wf (add v s)"
    and wf_del: "wf s \<Longrightarrow> wf (del v s)"
    and get_empty: "get empty k = None"
    and get_add: "get (add v s) k = (if k = keyFn v then Some v else get s k)"
    and get_del: "get (del v s) k = (if k = keyFn v then None else get s k)"
    and get_key: "wf s \<Longrightarrow> get s k = Some v \<Longrightarrow> keyFn v = k"
    and items_get: "wf s \<Longrightarrow> v \<in> set (items s) \<longleftrightarrow> get s (keyFn v) = Some v"
    and items_distinct: "wf s \<Longrightarrow> distinct (map keyFn (items s))"
begin

lemma items_iff: "wf s \<Longrightarrow> v \<in> set (items s) \<longleftrightarrow> (\<exists>k. get s k = Some v)"
  using get_key items_get by metis

lemma items_add:
  "wf s \<Longrightarrow> set (items (add v s)) = insert v {w \<in> set (items s). keyFn w \<noteq> keyFn v}"
  by (auto simp: items_get wf_add get_add split: if_splits)

lemma items_del:
  "wf s \<Longrightarrow> set (items (del v s)) = {w \<in> set (items s). keyFn w \<noteq> keyFn v}"
  by (auto simp: items_get wf_del get_del split: if_splits)

lemma del_absent: "wf s \<Longrightarrow> get s (keyFn v) = None \<Longrightarrow> set (items (del v s)) = set (items s)"
  by (auto simp: items_get wf_del get_del split: if_splits)

lemma add_same_key: "keyFn v = keyFn w \<Longrightarrow> get (add v (add w s)) = get (add v s)"
  by (auto simp: get_add)

end

lemma store_GetByKey_Add:
  "store_GetByKey (store_Add keyFn v s) k = (if k = keyFn v then Some v else store_GetByKey s k)"
  by (simp add: store_GetByKey_def store_Add_def update_conv')

lemma store_GetByKey_Delete:
  "store_GetByKey (store_Delete keyFn v s) k = (if k = keyFn v then None else store_GetByKey s k)"
  by (simp add: store_GetByKey_def store_Delete_def delete_conv')

lemma set_update_mem: "(k', v') \<in> set (AList.update k v s) \<Longrightarrow> (k', v') = (k, v) \<or> (k', v') \<in> set s"
  by (induction s) (auto split: if_splits)

lemma set_delete_mem: "(k', v') \<in> set (AList.delete k s) \<Longrightarrow> (k', v') \<in> set s"
  by (induction s) (auto split: if_splits)

lemma store_wf_Add: "store_wf keyFn s \<Longrightarrow> store_wf keyFn (store_Add keyFn v s)"
  by (auto simp: store_wf_def store_Add_def list_all_iff distinct_update dest!: set_update_mem)

lemma store_wf_Delete: "store_wf keyFn s \<Longrightarrow> store_wf keyFn (store_Delete keyFn v s)"
  by (auto simp: store_wf_def store_Delete_def list_all_iff distinct_delete dest!: set_delete_mem)

interpretation st: keyed_store keyFn NewStore "store_Add keyFn" "store_Delete keyFn" store_GetByKey
  store_List "store_wf keyFn" for keyFn :: "'v \<Rightarrow> string"
proof unfold_locales
  show "store_wf keyFn NewStore"
    by (simp add: store_wf_def NewStore_def)
  show "store_GetByKey NewStore k = None" for k
    by (simp add: store_GetByKey_def NewStore_def)
  fix s :: "'v store" and v k
  assume wf: "store_wf keyFn s"
  then show "store_GetByKey s k = Some v \<Longrightarrow> keyFn v = k"
    by (auto simp: store_wf_def store_GetByKey_def list_all_iff dest!: map_of_SomeD)
  from wf show "v \<in> set (store_List s) \<longleftrightarrow> store_GetByKey s (keyFn v) = Some v"
    by (auto simp: store_wf_def store_GetByKey_def store_List_def list_all_iff map_of_eq_Some_iff
        intro: rev_image_eqI)
  have "map keyFn (store_List s) = map fst s"
    using wf by (auto simp: store_wf_def store_List_def list_all_iff)
  with wf show "distinct (map keyFn (store_List s))"
    by (simp add: store_wf_def)
qed (auto simp: store_wf_Add store_wf_Delete store_GetByKey_Add store_GetByKey_Delete)

section \<open>The namespace lister\<close>

text \<open>
  A namespace has no namespace of its own, so its key in the informer's indexer is its name.
\<close>

definition CoreResource :: "string \<Rightarrow> group_resource" where
  "CoreResource resource = \<lparr>gr_Group = '''', gr_Resource = resource\<rparr>"

definition namespace_Get :: "namespace list \<Rightarrow> string \<Rightarrow> go_error + namespace" where
  "namespace_Get items name =
     (case find (\<lambda>n. ns_Name n = name) items of
        None \<Rightarrow> Inl (NotFound (CoreResource ''namespace'') name)
      | Some n \<Rightarrow> Inr n)"

lemma namespace_Get_Inr:
  "namespace_Get items name = Inr n \<Longrightarrow> ns_Name n = name \<and> n \<in> set items"
  by (auto simp: namespace_Get_def find_Some_iff split: option.splits)

lemma namespace_Get_Inl:
  "namespace_Get items name = Inl e \<Longrightarrow>
     e = NotFound (CoreResource ''namespace'') name \<and> name \<notin> ns_Name ` set items"
  by (auto simp: namespace_Get_def find_None_iff split: option.splits)

lemma namespace_Get_mem:
  "n \<in> set items \<Longrightarrow> \<exists>m. namespace_Get items (ns_Name n) = Inr m"
  using namespace_Get_Inl [of items "ns_Name n"] by (cases "namespace_Get items (ns_Name n)") auto

end
