(* ===== verification/SubjectStores.thy ===== *)
theory SubjectStores
  imports Stores
begin

text \<open>
  The records of \<^verbatim>\<open>pkg/project/auth/cache.go\<close> and the functions that do not need the cache itself: which
  namespaces each subject may see, the review of each namespace, and when a review can be skipped.

  A subject record is changed in place in the store that holds it; no two stores share a record and
  the program keeps no other reference to one, so the change is an update of the store's entry.
\<close>

section \<open>Records\<close>

record subject_record =
  sr_subject :: string
  sr_namespaces :: strset

record review_request =
  rq_namespace :: string
  rq_namespaceResourceVersion :: string
  rq_roleUIDToResourceVersion :: strmap
  rq_roleBindingUIDToResourceVersion :: strmap

record review_record = review_request +
  rr_users :: "string list"
  rr_groups :: "string list"

definition reviewRecordKeyFn :: "review_record \<Rightarrow> string" where
  "reviewRecordKeyFn r = rq_namespace r"

definition subjectRecordKeyFn :: "subject_record \<Rightarrow> string" where
  "subjectRecordKeyFn r = sr_subject r"

type_synonym subject_store = "subject_record store"

type_synonym review_store = "review_record store"

section \<open>Subject stores\<close>

definition store_mutate :: "string \<Rightarrow> subject_record \<Rightarrow> subject_store \<Rightarrow> subject_store" where
  "store_mutate key r s = AList.update key r s"

fun deleteNamespaceFromSubjects :: "subject_store \<Rightarrow> string list \<Rightarrow> string \<Rightarrow> subject_store" where
  "deleteNamespaceFromSubjects st [] ns = st"
| "deleteNamespaceFromSubjects st (subj # subjs) ns =
     (case store_GetByKey st subj of
        None \<Rightarrow> deleteNamespaceFromSubjects st subjs ns
      | Some r \<Rightarrow>
          let r' = r\<lparr>sr_namespaces := set_Delete (sr_namespaces r) [ns]\<rparr>;
              st' = store_mutate subj r' st
          in deleteNamespaceFromSubjects
               (if length (sr_namespaces r') = 0 then store_Delete subjectRecordKeyFn r' st' else st') subjs ns)"

fun addSubjectsToNamespace :: "subject_store \<Rightarrow> string list \<Rightarrow> string \<Rightarrow> subject_store" where
  "addSubjectsToNamespace st [] ns = st"
| "addSubjectsToNamespace st (subj # subjs) ns =
     (let (item, st') = (case store_GetByKey st subj of
            Some r \<Rightarrow> (r, st)
          | None \<Rightarrow> let r = \<lparr>sr_subject = subj, sr_namespaces = NewString []\<rparr>
                    in (r, store_Add subjectRecordKeyFn r st))
      in addSubjectsToNamespace
           (store_mutate subj (item\<lparr>sr_namespaces := set_Insert (sr_namespaces item) [ns]\<rparr>) st') subjs ns)"

section \<open>Review records\<close>

definition lastKnown :: "review_store \<Rightarrow> string \<Rightarrow> review_record option" where
  "lastKnown st ns = store_GetByKey st ns"

fun versions_known :: "strmap \<Rightarrow> strmap \<Rightarrow> bool" where
  "versions_known [] known = True"
| "versions_known ((k, v) # request) known =
     (case map_of known k of
        None \<Rightarrow> False
      | Some oldValue \<Rightarrow> if v \<noteq> oldValue then False else versions_known request known)"

definition skipReview :: "review_request option \<Rightarrow> review_record option \<Rightarrow> bool" where
  "skipReview request lastKnownValue =
     (case request of
        None \<Rightarrow> True
      | Some rq \<Rightarrow>
          (case lastKnownValue of
             None \<Rightarrow> False
           | Some r \<Rightarrow>
               if rq_namespace rq \<noteq> rq_namespace r then False
               else if length (rq_namespaceResourceVersion rq) > 0 \<and>
                       rq_namespaceResourceVersion rq \<noteq> rq_namespaceResourceVersion r then False
               else if \<not> versions_known (rq_roleBindingUIDToResourceVersion rq)
                          (rq_roleBindingUIDToResourceVersion r) then False
               else if \<not> versions_known (rq_roleUIDToResourceVersion rq)
                          (rq_roleUIDToResourceVersion r) then False
               else True))"

definition cacheReviewRecord :: "review_request \<Rightarrow> review_record option \<Rightarrow> string list \<Rightarrow> string list
    \<Rightarrow> review_store \<Rightarrow> review_store" where
  "cacheReviewRecord request lastKnownValue users groups st =
     (let (version, roles, bindings) = (case lastKnownValue of
            None \<Rightarrow> ('''', [], [])
          | Some r \<Rightarrow> (rq_namespaceResourceVersion r,
              map_copy [] (rq_roleUIDToResourceVersion r),
              map_copy [] (rq_roleBindingUIDToResourceVersion r)))
      in store_Add reviewRecordKeyFn
           \<lparr>rq_namespace = rq_namespace request,
            rq_namespaceResourceVersion =
              (if length (rq_namespaceResourceVersion request) > 0
               then rq_namespaceResourceVersion request else version),
            rq_roleUIDToResourceVersion = map_copy roles (rq_roleUIDToResourceVersion request),
            rq_roleBindingUIDToResourceVersion = map_copy bindings (rq_roleBindingUIDToResourceVersion request),
            rr_users = users, rr_groups = groups\<rparr> st)"

text \<open>The subjects of a review, sorted into user names and group names.\<close>

fun review_subjects :: "string \<Rightarrow> subject list \<Rightarrow> string list \<times> string list \<Rightarrow> string list \<times> string list" where
  "review_subjects ns [] acc = acc"
| "review_subjects ns (s # ss) (users, groups) =
     review_subjects ns ss
       (if subj_Kind s = UserKind then (users @ [subj_Name s], groups)
        else if subj_Kind s = GroupKind then (users, groups @ [subj_Name s])
        else if subj_Kind s = ServiceAccountKind then
          (let saNamespace = (if length (subj_Namespace s) > 0 then subj_Namespace s else ns)
           in if length saNamespace = 0 then (users, groups)
              else (users @ [MakeUsername saNamespace (subj_Name s)], groups))
        else (users, groups))"

section \<open>The namespaces of a subject\<close>

definition granted :: "subject_store \<Rightarrow> string \<Rightarrow> string set" where
  "granted st u = (case store_GetByKey st u of None \<Rightarrow> {} | Some r \<Rightarrow> set (sr_namespaces r))"

text \<open>Every record is held under its subject, and none is empty.\<close>

definition subject_store_wf :: "subject_store \<Rightarrow> bool" where
  "subject_store_wf st \<longleftrightarrow> store_wf subjectRecordKeyFn st \<and>
     (\<forall>r \<in> set (store_List st). distinct (sr_namespaces r) \<and> sr_namespaces r \<noteq> [])"

lemma subject_store_wf_get:
  "subject_store_wf st \<longleftrightarrow> store_wf subjectRecordKeyFn st \<and>
     (\<forall>k r. store_GetByKey st k = Some r \<longrightarrow> sr_subject r = k \<and> distinct (sr_namespaces r) \<and> sr_namespaces r \<noteq> [])"
  using st.items_iff [of subjectRecordKeyFn st] st.get_key [of subjectRecordKeyFn st]
  by (auto simp: subject_store_wf_def subjectRecordKeyFn_def)

lemma subject_store_wf_D:
  assumes "subject_store_wf st" and "store_GetByKey st k = Some r"
  shows "sr_subject r = k" "distinct (sr_namespaces r)" "sr_namespaces r \<noteq> []"
  using assms by (auto simp: subject_store_wf_get)

lemma subject_store_wf_store: "subject_store_wf st \<Longrightarrow> store_wf subjectRecordKeyFn st"
  by (simp add: subject_store_wf_def)

lemma subject_store_wf_I:
  assumes "store_wf subjectRecordKeyFn st"
    and "\<And>k r. store_GetByKey st k = Some r \<Longrightarrow> sr_subject r = k \<and> distinct (sr_namespaces r) \<and> sr_namespaces r \<noteq> []"
  shows "subject_store_wf st"
  using assms by (auto simp: subject_store_wf_get)

text \<open>A change in place is a write under the subject's own key.\<close>

lemma store_mutate_Add: "sr_subject r = k \<Longrightarrow> store_mutate k r s = store_Add subjectRecordKeyFn r s"
  by (simp add: store_mutate_def store_Add_def subjectRecordKeyFn_def)

lemma delete_step:
  fixes ns :: string
  assumes "subject_store_wf st" and "store_GetByKey st subj = Some r"
  defines "r' \<equiv> r\<lparr>sr_namespaces := set_Delete (sr_namespaces r) [ns]\<rparr>"
  defines "st' \<equiv> (if length (sr_namespaces r') = 0
    then store_Delete subjectRecordKeyFn r' (store_mutate subj r' st) else store_mutate subj r' st)"
  shows "subject_store_wf st'"
    and "granted st' u = granted st u - (if u = subj then {ns} else {})"
proof -
  have r: "sr_subject r' = subj" "set (sr_namespaces r') = set (sr_namespaces r) - {ns}" "distinct (sr_namespaces r')"
    using subject_store_wf_D [OF assms(1,2)] by (auto simp: r'_def cache_simps)
  have wf: "store_wf subjectRecordKeyFn st"
    using assms(1) by (simp add: subject_store_wf_def)
  have get: "store_GetByKey st' k =
      (if k = subj then (if sr_namespaces r' = [] then None else Some r') else store_GetByKey st k)" for k
    using r(1) by (simp add: st'_def store_mutate_Add store_GetByKey_Add store_GetByKey_Delete subjectRecordKeyFn_def)
  have "store_wf subjectRecordKeyFn st'"
    using wf r(1) by (simp add: st'_def store_mutate_Add store_wf_Add store_wf_Delete)
  then show "subject_store_wf st'"
  proof (rule subject_store_wf_I)
    fix k x
    assume "store_GetByKey st' k = Some x"
    with r subject_store_wf_D [OF assms(1), of k x]
    show "sr_subject x = k \<and> distinct (sr_namespaces x) \<and> sr_namespaces x \<noteq> []"
      by (cases "k = subj") (auto simp: get split: if_splits)
  qed
  show "granted st' u = granted st u - (if u = subj then {ns} else {})"
  proof (cases "u = subj")
    case True
    have "granted st' subj = set (sr_namespaces r')"
      by (simp add: granted_def get)
    with True r(2) assms(2) show ?thesis by (simp add: granted_def)
  qed (simp add: granted_def get)
qed

lemma add_step:
  fixes ns subj :: string
  assumes "subject_store_wf st"
  defines "p \<equiv> (case store_GetByKey st subj of
      Some r \<Rightarrow> (r, st)
    | None \<Rightarrow> let r = \<lparr>sr_subject = subj, sr_namespaces = NewString []\<rparr>
              in (r, store_Add subjectRecordKeyFn r st))"
  defines "st' \<equiv> store_mutate subj ((fst p)\<lparr>sr_namespaces := set_Insert (sr_namespaces (fst p)) [ns]\<rparr>) (snd p)"
  shows "subject_store_wf st'"
    and "granted st' u = granted st u \<union> (if u = subj then {ns} else {})"
proof -
  let ?r = "(fst p)\<lparr>sr_namespaces := set_Insert (sr_namespaces (fst p)) [ns]\<rparr>"
  have wf: "store_wf subjectRecordKeyFn st"
    using assms(1) by (simp add: subject_store_wf_def)
  have r: "sr_subject ?r = subj" "set (sr_namespaces ?r) = granted st subj \<union> {ns}" "distinct (sr_namespaces ?r)"
    using subject_store_wf_D [OF assms(1), of subj]
    by (auto simp: p_def granted_def cache_simps Let_def split: option.splits)
  then have ne: "sr_namespaces ?r \<noteq> []" by auto
  have get: "store_GetByKey st' k = (if k = subj then Some ?r else store_GetByKey st k)" for k
    using r(1) by (simp add: st'_def p_def store_mutate_Add store_GetByKey_Add subjectRecordKeyFn_def Let_def
        split: option.splits)
  have "store_wf subjectRecordKeyFn (snd p)"
    using wf by (simp add: p_def store_wf_Add Let_def split: option.splits)
  then have "store_wf subjectRecordKeyFn st'"
    using r(1) by (simp add: st'_def store_mutate_Add store_wf_Add)
  then show "subject_store_wf st'"
  proof (rule subject_store_wf_I)
    fix k x
    assume "store_GetByKey st' k = Some x"
    with r ne subject_store_wf_D [OF assms(1), of k x]
    show "sr_subject x = k \<and> distinct (sr_namespaces x) \<and> sr_namespaces x \<noteq> []"
      by (cases "k = subj") (auto simp: get split: if_splits)
  qed
  show "granted st' u = granted st u \<union> (if u = subj then {ns} else {})"
  proof (cases "u = subj")
    case True
    have "granted st' subj = set (sr_namespaces ?r)"
      by (simp add: granted_def get)
    with True r(2) show ?thesis by simp
  qed (simp add: granted_def get)
qed

lemma deleteNamespaceFromSubjects_wf:
  "subject_store_wf st \<Longrightarrow> subject_store_wf (deleteNamespaceFromSubjects st subjs ns)"
proof (induction st subjs ns rule: deleteNamespaceFromSubjects.induct)
  case (2 st subj subjs ns)
  show ?case
  proof (cases "store_GetByKey st subj")
    case None
    with 2 show ?thesis by simp
  next
    case (Some r)
    show ?thesis
      using 2(2) [OF Some refl refl delete_step(1) [OF 2(3) Some]]
      by (simp add: Some Let_def del: set_Delete.simps)
  qed
qed simp

lemma deleteNamespaceFromSubjects_granted:
  "subject_store_wf st \<Longrightarrow> granted (deleteNamespaceFromSubjects st subjs ns) u =
     granted st u - (if u \<in> set subjs then {ns} else {})"
proof (induction st subjs ns rule: deleteNamespaceFromSubjects.induct)
  case (2 st subj subjs ns)
  show ?case
  proof (cases "store_GetByKey st subj")
    case None
    then have "granted st subj = {}" by (simp add: granted_def)
    with 2 None show ?thesis by auto
  next
    case (Some r)
    show ?thesis
      using 2(2) [OF Some refl refl delete_step(1) [OF 2(3) Some]] delete_step(2) [OF 2(3) Some, of ns u]
      by (auto simp: Some Let_def simp del: set_Delete.simps)
  qed
qed simp

lemma addSubjectsToNamespace_wf:
  "subject_store_wf st \<Longrightarrow> subject_store_wf (addSubjectsToNamespace st subjs ns)"
proof (induction subjs arbitrary: st)
  case (Cons subj subjs)
  show ?case
    using Cons(1) [OF add_step(1) [OF Cons(2), of subj ns]] by (simp add: split_def Let_def)
qed simp

lemma addSubjectsToNamespace_granted:
  "subject_store_wf st \<Longrightarrow> granted (addSubjectsToNamespace st subjs ns) u =
     granted st u \<union> (if u \<in> set subjs then {ns} else {})"
proof (induction subjs arbitrary: st)
  case (Cons subj subjs)
  show ?case
    using Cons(1) [OF add_step(1) [OF Cons(2), of subj ns]] add_step(2) [OF Cons(2), of subj ns u]
    by (simp add: split_def Let_def)
qed simp

section \<open>The contract of a subject index\<close>

text \<open>
  What the cache needs of the store of a kind of subject: adding and deleting change the namespaces
  of the named subjects by one namespace. The cache replaces the subjects of a namespace by deleting
  it from the old ones that are not new and adding it to the new ones.
\<close>

locale subject_index =
  fixes add :: "'s \<Rightarrow> string list \<Rightarrow> string \<Rightarrow> 's"
    and del :: "'s \<Rightarrow> string list \<Rightarrow> string \<Rightarrow> 's"
    and access :: "'s \<Rightarrow> string \<Rightarrow> string set"
    and wf :: "'s \<Rightarrow> bool"
  assumes wf_add: "wf s \<Longrightarrow> wf (add s us ns)"
    and wf_del: "wf s \<Longrightarrow> wf (del s us ns)"
    and access_add: "wf s \<Longrightarrow> access (add s us ns) u = access s u \<union> (if u \<in> set us then {ns} else {})"
    and access_del: "wf s \<Longrightarrow> access (del s us ns) u = access s u - (if u \<in> set us then {ns} else {})"
begin

lemma replace_wf: "wf s \<Longrightarrow> wf (add (del s removed ns) new ns)"
  by (simp add: wf_add wf_del)

lemma replace_access:
  assumes "wf s" and "\<And>u. ns \<in> access s u \<longleftrightarrow> u \<in> set old" and "set removed = set old - set new"
  shows "ns' \<in> access (add (del s removed ns) new ns) u \<longleftrightarrow>
    (if ns' = ns then u \<in> set new else ns' \<in> access s u)"
  using assms by (auto simp: access_add access_del wf_del)

lemma clear_access:
  assumes "wf s" and "\<And>u. ns \<in> access s u \<longleftrightarrow> u \<in> set old"
  shows "ns' \<in> access (del s old ns) u \<longleftrightarrow> ns' \<noteq> ns \<and> ns' \<in> access s u"
  using assms by (auto simp: access_del)

end

interpretation subj: subject_index addSubjectsToNamespace deleteNamespaceFromSubjects granted subject_store_wf
  by unfold_locales
    (simp_all add: addSubjectsToNamespace_wf deleteNamespaceFromSubjects_wf addSubjectsToNamespace_granted
      deleteNamespaceFromSubjects_granted)

section \<open>Reviews\<close>

lemma versions_known_iff:
  "versions_known request known \<longleftrightarrow> (\<forall>(k, v) \<in> set request. map_of known k = Some v)"
  by (induction request known rule: versions_known.induct) (auto split: option.splits)

lemma versions_known_map_copy:
  "distinct (map fst request) \<Longrightarrow> versions_known request (map_copy known request)"
  by (auto simp: versions_known_iff map_of_map_copy map_add_def)

text \<open>The review subject that puts a user name or a group name on the list.\<close>

definition subject_user :: "string \<Rightarrow> subject \<Rightarrow> string option" where
  "subject_user ns s =
     (if subj_Kind s = UserKind then Some (subj_Name s)
      else if subj_Kind s = ServiceAccountKind then
        (if subj_Namespace s \<noteq> '''' then Some (MakeUsername (subj_Namespace s) (subj_Name s))
         else if ns \<noteq> '''' then Some (MakeUsername ns (subj_Name s)) else None)
      else None)"

definition subject_group :: "subject \<Rightarrow> string option" where
  "subject_group s = (if subj_Kind s = GroupKind then Some (subj_Name s) else None)"

lemma review_subjects_split:
  "review_subjects ns ss (us, gs) = (us @ List.map_filter (subject_user ns) ss, gs @ List.map_filter subject_group ss)"
  by (induction ss arbitrary: us gs)
    (auto simp: subject_user_def subject_group_def List.map_filter_def Let_def)

section \<open>Properties\<close>

definition sample_subjects :: subject_store where
  "sample_subjects = addSubjectsToNamespace (addSubjectsToNamespace NewStore [''ann'', ''bob''] ''p'') [''ann''] ''q''"

lemma subject_store_wf_NewStore: "subject_store_wf NewStore"
  by (simp add: subject_store_wf_def store_wf_def NewStore_def store_List_def)

lemma sample_subjects_wf: "subject_store_wf sample_subjects"
  unfolding sample_subjects_def by (intro subj.wf_add subject_store_wf_NewStore)

text \<open>
  Adding a namespace to some subjects and deleting it from some change exactly those subjects'
  namespaces by exactly that namespace, whatever repetitions the lists have, and keep the store free
  of records without a namespace and of records under a foreign key.
\<close>

theorem subject_store_operations:
  assumes "subject_store_wf st"
  shows "subject_store_wf (addSubjectsToNamespace st us ns) \<and>
    subject_store_wf (deleteNamespaceFromSubjects st us ns) \<and>
    granted (addSubjectsToNamespace st us ns) u = granted st u \<union> (if u \<in> set us then {ns} else {}) \<and>
    granted (deleteNamespaceFromSubjects st us ns) u = granted st u - (if u \<in> set us then {ns} else {}) \<and>
    (store_GetByKey (deleteNamespaceFromSubjects st us ns) u = None \<longleftrightarrow>
       granted (deleteNamespaceFromSubjects st us ns) u = {})"
proof -
  have none: "store_GetByKey s u = None \<longleftrightarrow> granted s u = {}" if "subject_store_wf s" for s
    using subject_store_wf_D(3) [OF that, of u] by (auto simp: granted_def split: option.splits)
  show ?thesis
    using assms none [OF subj.wf_del [OF assms]]
    by (simp add: subj.wf_add subj.wf_del subj.access_add subj.access_del)
qed

theorem subject_store_operations_witness:
  "store_GetByKey (deleteNamespaceFromSubjects sample_subjects [''bob'', ''carl''] ''p'') ''bob'' = None"
proof -
  have "granted sample_subjects ''bob'' = {''p''}"
    by (simp add: sample_subjects_def subj.wf_add subj.access_add subject_store_wf_NewStore
        del: addSubjectsToNamespace.simps)
      (simp add: granted_def NewStore_def store_GetByKey_def)
  then show ?thesis
    using subject_store_operations [OF sample_subjects_wf, of "[''bob'', ''carl'']" "''p''" "''bob''"]
    by (simp del: deleteNamespaceFromSubjects.simps addSubjectsToNamespace.simps)
qed

text \<open>
  A review is skipped exactly when there is nothing to review, or the last review was of the
  same namespace and knows the request's namespace version, when it has one, and every role and role
  binding version of the request.
\<close>

theorem skipReview_iff:
  "skipReview request lastKnownValue \<longleftrightarrow>
     (case request of None \<Rightarrow> True | Some rq \<Rightarrow>
        (case lastKnownValue of None \<Rightarrow> False | Some r \<Rightarrow>
           rq_namespace rq = rq_namespace r \<and>
           rq_namespaceResourceVersion rq \<in> {'''', rq_namespaceResourceVersion r} \<and>
           set (rq_roleBindingUIDToResourceVersion rq) \<subseteq> {(k, v). map_of (rq_roleBindingUIDToResourceVersion r) k = Some v} \<and>
           set (rq_roleUIDToResourceVersion rq) \<subseteq> {(k, v). map_of (rq_roleUIDToResourceVersion r) k = Some v}))"
  by (auto simp: skipReview_def versions_known_iff split: option.splits)

text \<open>
  Once a request has been reviewed and its record cached, the same request is skipped; the
  record keeps what was known of other roles and bindings, and no other namespace's record changes.
\<close>

theorem cacheReviewRecord_skips:
  assumes "distinct (map fst (rq_roleUIDToResourceVersion rq))"
    and "distinct (map fst (rq_roleBindingUIDToResourceVersion rq))"
    and "lastKnown st (rq_namespace rq) = Some r"
    and "distinct (map fst (rq_roleUIDToResourceVersion r))"
    and "distinct (map fst (rq_roleBindingUIDToResourceVersion r))"
  shows "skipReview (Some rq) (lastKnown (cacheReviewRecord rq (Some r) users groups st) (rq_namespace rq)) \<and>
    (\<exists>r'. lastKnown (cacheReviewRecord rq (Some r) users groups st) (rq_namespace rq) = Some r' \<and>
       rr_users r' = users \<and> rr_groups r' = groups \<and>
       map_of (rq_roleUIDToResourceVersion r') =
         map_of (rq_roleUIDToResourceVersion r) ++ map_of (rq_roleUIDToResourceVersion rq) \<and>
       map_of (rq_roleBindingUIDToResourceVersion r') =
         map_of (rq_roleBindingUIDToResourceVersion r) ++ map_of (rq_roleBindingUIDToResourceVersion rq)) \<and>
    (ns = rq_namespace rq \<or> lastKnown (cacheReviewRecord rq (Some r) users groups st) ns = lastKnown st ns)"
  using assms
  by (simp add: cacheReviewRecord_def lastKnown_def skipReview_def store_GetByKey_Add reviewRecordKeyFn_def
      versions_known_map_copy map_of_map_copy)

definition sample_review :: review_record where
  "sample_review = \<lparr>rq_namespace = ''p'', rq_namespaceResourceVersion = ''7'',
     rq_roleUIDToResourceVersion = [(''r1'', ''3'')], rq_roleBindingUIDToResourceVersion = [],
     rr_users = [''ann''], rr_groups = []\<rparr>"

definition sample_request :: review_request where
  "sample_request = \<lparr>rq_namespace = ''p'', rq_namespaceResourceVersion = '''',
     rq_roleUIDToResourceVersion = [], rq_roleBindingUIDToResourceVersion = [(''b1'', ''9'')]\<rparr>"

theorem cacheReviewRecord_skips_witness:
  "\<not> skipReview (Some sample_request) (Some sample_review) \<and>
   skipReview (Some sample_request)
     (lastKnown (cacheReviewRecord sample_request (Some sample_review) [''bob''] [] [(''p'', sample_review)]) ''p'')"
  using cacheReviewRecord_skips [of sample_request "[(''p'', sample_review)]" sample_review "[''bob'']" "[]"]
  by (simp add: sample_request_def sample_review_def lastKnown_def store_GetByKey_def skipReview_def)

end
