(* ===== verification/Convert.thy ===== *)
theory Convert
  imports ApiTypes
begin

text \<open>
  \<^verbatim>\<open>pkg/project/util/util.go\<close> and \<^verbatim>\<open>pkg/apis/project/helpers.go\<close>: a namespace seen as a project and back, and
  the display string of a project. \<^verbatim>\<open>ConvertProject\<close> writes into the annotation map it shares with
  the project it is given, so the model returns the project as the call leaves it as well.
\<close>

section \<open>util.go\<close>

definition ConvertNamespace :: "namespace \<Rightarrow> project" where
  "ConvertNamespace n =
     \<lparr>pr_ObjectMeta = ns_ObjectMeta n,
      pr_Spec = \<lparr>ps_Finalizers = ns_Finalizers n\<rparr>,
      pr_Status = \<lparr>pst_Phase = ns_Phase n\<rparr>\<rparr>"

text \<open>
  The struct copy of the metadata shares the annotation map when there is one: then the write is
  seen through the project too. A nil map is replaced in the namespace alone.
\<close>

definition ConvertProject :: "project \<Rightarrow> namespace \<times> project" where
  "ConvertProject p =
     (let md = pr_ObjectMeta p;
          displayName = gomap_index (om_Annotations md) ProjectDisplayName;
          annotations = AList.update ProjectDisplayName displayName
            (case om_Annotations md of None \<Rightarrow> [] | Some al \<Rightarrow> al);
          n = \<lparr>ns_ObjectMeta = md\<lparr>om_Annotations := Some annotations\<rparr>,
               ns_Finalizers = ps_Finalizers (pr_Spec p),
               ns_Phase = pst_Phase (pr_Status p)\<rparr>
      in (n, case om_Annotations md of
               None \<Rightarrow> p
             | Some al \<Rightarrow> p\<lparr>pr_ObjectMeta := md\<lparr>om_Annotations := Some annotations\<rparr>\<rparr>))"

fun convert_loop :: "namespace list \<Rightarrow> project list \<Rightarrow> project list" where
  "convert_loop [] items = items"
| "convert_loop (n # ns) items = convert_loop ns (items @ [ConvertNamespace n])"

definition ConvertNamespaceList :: "namespace list \<Rightarrow> project list" where
  "ConvertNamespaceList items = convert_loop items []"

section \<open>helpers.go\<close>

definition displayNameOldAnnotation :: string where
  "displayNameOldAnnotation = ''displayName''"

definition displayNameAnnotation :: string where
  "displayNameAnnotation = ''openshift.io/display-name''"

definition DisplayNameAndNameForProject :: "project \<Rightarrow> string" where
  "DisplayNameAndNameForProject p =
     (let annotations = om_Annotations (pr_ObjectMeta p);
          name = om_Name (pr_ObjectMeta p);
          displayName = gomap_index annotations displayNameAnnotation;
          displayName = (if length displayName = 0
                         then gomap_index annotations displayNameOldAnnotation else displayName)
      in if length displayName > 0 \<and> displayName \<noteq> name
         then displayName @ '' ('' @ name @ '')'' else name)"

section \<open>Lemmas\<close>

lemma convert_loop_map: "convert_loop ns items = items @ map ConvertNamespace ns"
  by (induction ns items rule: convert_loop.induct) auto

lemma ConvertNamespaceList_map: "ConvertNamespaceList items = map ConvertNamespace items"
  by (simp add: ConvertNamespaceList_def convert_loop_map)

lemma ConvertNamespace_Name [simp]: "om_Name (pr_ObjectMeta (ConvertNamespace n)) = ns_Name n"
  by (simp add: ConvertNamespace_def)

lemma ConvertNamespace_ResourceVersion [simp]:
  "om_ResourceVersion (pr_ObjectMeta (ConvertNamespace n)) = ns_ResourceVersion n"
  by (simp add: ConvertNamespace_def)

text \<open>Writing the display name a map already has changes nothing that a lookup can see.\<close>

lemma update_present: "map_of al k = Some v \<Longrightarrow> AList.update k v al = al"
proof (induction al)
  case (Cons p al)
  then show ?case by (cases p) (auto split: if_splits)
qed simp

lemma gomap_index_update:
  "gomap_index (Some (AList.update k (gomap_index (Some al) k) al)) k' = gomap_index (Some al) k'"
  by (auto simp: gomap_index_def update_conv' split: option.splits)

lemma meta_annotations_self: "om_Annotations m = a \<Longrightarrow> m\<lparr>om_Annotations := a\<rparr> = m"
  by (cases m) simp

lemma project_parts_eta:
  "\<lparr>ps_Finalizers = ps_Finalizers s\<rparr> = s" "\<lparr>pst_Phase = pst_Phase st\<rparr> = st"
  "\<lparr>ns_ObjectMeta = ns_ObjectMeta n, ns_Finalizers = ns_Finalizers n, ns_Phase = ns_Phase n\<rparr> = n"
  "p\<lparr>pr_ObjectMeta := m\<rparr> = \<lparr>pr_ObjectMeta = m, pr_Spec = pr_Spec p, pr_Status = pr_Status p\<rparr>"
  by (cases s, simp, cases st, simp, cases n, simp, cases p, simp)

section \<open>Properties\<close>


definition sample_annotated :: namespace where
  "sample_annotated = \<lparr>ns_ObjectMeta = empty_meta\<lparr>om_Name := ''p'',
     om_Annotations := Some [(ProjectDisplayName, ''My project'')]\<rparr>, ns_Finalizers = Some [''kubernetes''],
     ns_Phase = ''Active''\<rparr>"


text \<open>
  A project converted to a namespace and back keeps everything but its annotations; every
  annotation reads as before, and the display name annotation is present even when it was not. The
  project itself is changed in the same way when it has an annotation map at all.
\<close>

theorem ConvertProject_project:
  "(let (n, p') = ConvertProject p; q = ConvertNamespace n in
      pr_Spec q = pr_Spec p \<and> pr_Status q = pr_Status p \<and>
      (pr_ObjectMeta q)\<lparr>om_Annotations := None\<rparr> = (pr_ObjectMeta p)\<lparr>om_Annotations := None\<rparr> \<and>
      (\<forall>k. gomap_index (om_Annotations (pr_ObjectMeta q)) k = gomap_index (om_Annotations (pr_ObjectMeta p)) k) \<and>
      gomap_lookup (om_Annotations (pr_ObjectMeta q)) ProjectDisplayName =
        Some (gomap_index (om_Annotations (pr_ObjectMeta p)) ProjectDisplayName) \<and>
      p' = (if om_Annotations (pr_ObjectMeta p) = None then p else q))"
proof (cases "om_Annotations (pr_ObjectMeta p)")
  case None
  then show ?thesis
    by (simp add: ConvertProject_def ConvertNamespace_def gomap_index_def Let_def project_parts_eta)
next
  case (Some al)
  then have "gomap_index (Some (AList.update ProjectDisplayName (gomap_index (Some al) ProjectDisplayName) al)) k
      = gomap_index (Some al) k" for k
    by (simp add: gomap_index_update)
  with Some show ?thesis
    by (simp add: ConvertProject_def ConvertNamespace_def update_conv' Let_def project_parts_eta)
qed

text \<open>
  The display string of a project ends in its name in parentheses exactly when a nonempty display
  name other than the name is set, under the current annotation or, when that is empty, the old one;
  otherwise it is the name.
\<close>

theorem DisplayName_cases:
  "DisplayNameAndNameForProject p =
     (let name = om_Name (pr_ObjectMeta p);
          shown = (if gomap_index (om_Annotations (pr_ObjectMeta p)) ''openshift.io/display-name'' = ''''
                   then gomap_index (om_Annotations (pr_ObjectMeta p)) ''displayName''
                   else gomap_index (om_Annotations (pr_ObjectMeta p)) ''openshift.io/display-name'')
      in if shown \<in> {'''', name} then name else shown @ '' ('' @ name @ '')'')"
  by (simp add: DisplayNameAndNameForProject_def displayNameAnnotation_def displayNameOldAnnotation_def Let_def)

end
