(* ===== verification/Watcher.thy ===== *)
theory Watcher
  imports Convert Stores
begin

text \<open>
  \<^verbatim>\<open>pkg/project/auth/watch.go\<close>: the watch of one user. The authorization cache calls
  \<^verbatim>\<open>GroupMembershipChanged\<close>, which decides on an event and puts it on a buffered channel; the
  goroutine \<^verbatim>\<open>Watch\<close> moves the events to the client. Channels are lists with a capacity, the
  goroutine is a step relation over its program points, interleaved with the notifications of the
  cache and with the client's stop.
\<close>

section \<open>Events\<close>

datatype event_type = Added | Modified | Deleted | ErrorType

datatype event_object = ProjectObject project | StatusObject string string

record watch_event =
  ev_Type :: event_type
  ev_Object :: event_object

definition makeErrorEvent :: "string \<Rightarrow> watch_event" where
  "makeErrorEvent err = \<lparr>ev_Type = ErrorType, ev_Object = StatusObject ''Failure'' err\<rparr>"

text \<open>\<^verbatim>\<open>HighWaterMark.Update\<close>: the answer and the new mark.\<close>

definition HighWaterMark_Update :: "int \<Rightarrow> int \<Rightarrow> bool \<times> int" where
  "HighWaterMark_Update hwm current = (if current \<le> hwm then (False, hwm) else (True, current))"

section \<open>The watcher\<close>

record user_project_watcher =
  w_user :: user_info
  w_visibleNamespaces :: strset
  w_cacheIncoming :: "watch_event list"
  w_cacheError :: "string list"
  w_outgoingClosed :: bool
  w_userStop :: bool
  w_initialProjects :: "namespace list"
  w_knownProjects :: strmap

definition cacheIncoming_cap :: nat where "cacheIncoming_cap = 1000"

definition cacheError_cap :: nat where "cacheError_cap = 1"

fun known_loop :: "namespace list \<Rightarrow> strmap \<Rightarrow> strmap" where
  "known_loop [] known = known"
| "known_loop (n # ns) known = known_loop ns (AList.update (ns_Name n) (ns_ResourceVersion n) known)"

text \<open>
  The error of the cache's \<^verbatim>\<open>List\<close> is dropped; with an error there is no list, and reading its items
  dereferences nil.
\<close>

definition NewUserProjectWatcher ::
  "user_info \<Rightarrow> strset \<Rightarrow> go_error + namespace list \<Rightarrow> bool \<Rightarrow> user_project_watcher outcome" where
  "NewUserProjectWatcher user visible listed includeAllExistingProjects =
     (case listed of
        Inl err \<Rightarrow> Panic ''invalid memory address or nil pointer dereference''
      | Inr items \<Rightarrow> Return
          \<lparr>w_user = user, w_visibleNamespaces = visible, w_cacheIncoming = [], w_cacheError = [],
           w_outgoingClosed = False, w_userStop = False,
           w_initialProjects = (if includeAllExistingProjects then items else []),
           w_knownProjects = known_loop items []\<rparr>)"

text \<open>\<^verbatim>\<open>w.cacheError <- err\<close>: blocks when the channel is full.\<close>

definition send_error :: "string \<Rightarrow> user_project_watcher \<Rightarrow> user_project_watcher outcome" where
  "send_error err w =
     (if length (w_cacheError w) < cacheError_cap
      then Return (w\<lparr>w_cacheError := w_cacheError w @ [err]\<rparr>) else Blocked)"

text \<open>
  The send on \<^verbatim>\<open>cacheIncoming\<close> with its default branch: when the buffer is full the watcher asks the
  cache to remove it and leaves an error for the goroutine. \<open>removeWatcher\<close> is the cache's
  \<^verbatim>\<open>RemoveWatcher\<close> for this watcher, on the cache's state \<open>c\<close>.
\<close>

definition send_incoming :: "('c \<Rightarrow> 'c outcome) \<Rightarrow> watch_event \<Rightarrow> string \<Rightarrow> 'c \<Rightarrow> user_project_watcher
    \<Rightarrow> ('c \<times> user_project_watcher) outcome" where
  "send_incoming removeWatcher event err c w =
     (if length (w_cacheIncoming w) < cacheIncoming_cap
      then Return (c, w\<lparr>w_cacheIncoming := w_cacheIncoming w @ [event]\<rparr>)
      else bind_outcome (removeWatcher c) (\<lambda>c'.
             bind_outcome (send_error err w) (\<lambda>w'. Return (c', w'))))"

definition GroupMembershipChanged :: "('c \<Rightarrow> 'c outcome) \<Rightarrow> (string \<Rightarrow> go_error + namespace)
    \<Rightarrow> string \<Rightarrow> strset \<Rightarrow> strset \<Rightarrow> 'c \<Rightarrow> user_project_watcher \<Rightarrow> ('c \<times> user_project_watcher) outcome" where
  "GroupMembershipChanged removeWatcher nsGet namespaceName users groups c w =
     (if \<not> set_Has (w_visibleNamespaces w) ''*'' \<and> \<not> set_Has (w_visibleNamespaces w) namespaceName
      then Return (c, w)
      else
        let hasAccess = set_Has users (ui_Name (w_user w)) \<or> set_HasAny groups (ui_Groups (w_user w));
            known = (map_of (w_knownProjects w) namespaceName \<noteq> None)
        in
        if \<not> hasAccess \<and> known then
          send_incoming removeWatcher
            \<lparr>ev_Type = Deleted, ev_Object = ProjectObject (ConvertNamespace (named_namespace namespaceName ''''))\<rparr>
            ''delete notification timeout'' c
            (w\<lparr>w_knownProjects := AList.delete namespaceName (w_knownProjects w)\<rparr>)
        else if hasAccess then
          (case nsGet namespaceName of
             Inl err \<Rightarrow> Return (c, w)
           | Inr n \<Rightarrow>
               let lastResourceVersion = map_of (w_knownProjects w) namespaceName;
                   event = \<lparr>ev_Type = (if lastResourceVersion = None then Added else Modified),
                            ev_Object = ProjectObject (ConvertNamespace n)\<rparr>
               in if lastResourceVersion = Some (ns_ResourceVersion n) then Return (c, w)
                  else send_incoming removeWatcher event ''add notification timeout'' c
                    (w\<lparr>w_knownProjects :=
                        AList.update namespaceName (ns_ResourceVersion n) (w_knownProjects w)\<rparr>))
        else Return (c, w))"

definition Stop :: "user_project_watcher \<Rightarrow> user_project_watcher" where
  "Stop w = (if w_userStop w then w else w\<lparr>w_userStop := True\<rparr>)"

section \<open>The goroutine\<close>

text \<open>
  The program points of \<^verbatim>\<open>Watch\<close>: the loop over the initial projects, the loop over the channels, the
  call of \<open>emit\<close> with the point it returns to, and the deferred calls in the order they run.
\<close>

datatype watch_pc =
    AtInitial nat
  | AtLoop
  | Emitting watch_event watch_pc
  | Removing
  | Closing
  | Finished

text \<open>
  Beside the watcher and its program point: whether the cache still notifies the watcher, the high
  water mark, the events the client has received, and, as history, every event the cache has put on
  the buffer.
\<close>

record watch_state =
  ws_pc :: watch_pc
  ws_watcher :: user_project_watcher
  ws_registered :: bool
  ws_hwm :: int
  ws_received :: "watch_event list"
  ws_sent :: "watch_event list"

definition initial_event :: "namespace \<Rightarrow> watch_event" where
  "initial_event n = \<lparr>ev_Type = Added, ev_Object = ProjectObject (ConvertNamespace n)\<rparr>"

inductive watch_step :: "watch_state \<Rightarrow> watch_state \<Rightarrow> bool" where
  initial_error:
  "ws_pc s = AtInitial i \<Longrightarrow> i < length (w_initialProjects (ws_watcher s)) \<Longrightarrow>
   w_cacheError (ws_watcher s) = err # errs \<Longrightarrow>
   watch_step s (s\<lparr>ws_pc := Emitting (makeErrorEvent err) Removing,
     ws_watcher := (ws_watcher s)\<lparr>w_cacheError := errs\<rparr>\<rparr>)"
| initial_emit:
  "ws_pc s = AtInitial i \<Longrightarrow> i < length (w_initialProjects (ws_watcher s)) \<Longrightarrow>
   w_cacheError (ws_watcher s) = [] \<Longrightarrow>
   watch_step s (s\<lparr>ws_pc := Emitting (initial_event (w_initialProjects (ws_watcher s) ! i)) (AtInitial (Suc i))\<rparr>)"
| initial_done:
  "ws_pc s = AtInitial i \<Longrightarrow> \<not> i < length (w_initialProjects (ws_watcher s)) \<Longrightarrow>
   watch_step s (s\<lparr>ws_pc := AtLoop\<rparr>)"
| loop_error:
  "ws_pc s = AtLoop \<Longrightarrow> w_cacheError (ws_watcher s) = err # errs \<Longrightarrow>
   watch_step s (s\<lparr>ws_pc := Emitting (makeErrorEvent err) Removing,
     ws_watcher := (ws_watcher s)\<lparr>w_cacheError := errs\<rparr>\<rparr>)"
| loop_stop:
  "ws_pc s = AtLoop \<Longrightarrow> w_userStop (ws_watcher s) \<Longrightarrow> watch_step s (s\<lparr>ws_pc := Removing\<rparr>)"
| loop_event:
  "ws_pc s = AtLoop \<Longrightarrow> w_cacheIncoming (ws_watcher s) = event # rest \<Longrightarrow>
   watch_step s (s\<lparr>ws_pc := Emitting event AtLoop,
     ws_watcher := (ws_watcher s)\<lparr>w_cacheIncoming := rest\<rparr>,
     ws_hwm := snd (HighWaterMark_Update (ws_hwm s) (int (length rest)))\<rparr>)"
| emit_send:
  "ws_pc s = Emitting event next \<Longrightarrow>
   watch_step s (s\<lparr>ws_pc := next, ws_received := ws_received s @ [event]\<rparr>)"
| emit_stop:
  "ws_pc s = Emitting event next \<Longrightarrow> w_userStop (ws_watcher s) \<Longrightarrow> watch_step s (s\<lparr>ws_pc := next\<rparr>)"
| remove:
  "ws_pc s = Removing \<Longrightarrow> watch_step s (s\<lparr>ws_pc := Closing, ws_registered := False\<rparr>)"
| close:
  "ws_pc s = Closing \<Longrightarrow>
   watch_step s (s\<lparr>ws_pc := Finished, ws_watcher := (ws_watcher s)\<lparr>w_outgoingClosed := True\<rparr>\<rparr>)"
| user_stop:
  "watch_step s (s\<lparr>ws_watcher := Stop (ws_watcher s)\<rparr>)"
| notify:
  "ws_registered s \<Longrightarrow>
   GroupMembershipChanged (\<lambda>_. Return False) (namespace_Get items) namespaceName users groups True (ws_watcher s)
     = Return (registered, w') \<Longrightarrow>
   watch_step s (s\<lparr>ws_watcher := w', ws_registered := registered,
     ws_sent := ws_sent s @ drop (length (w_cacheIncoming (ws_watcher s))) (w_cacheIncoming w')\<rparr>)"

definition watch_start :: "user_project_watcher \<Rightarrow> int \<Rightarrow> watch_state" where
  "watch_start w hwm = \<lparr>ws_pc = AtInitial 0, ws_watcher = w, ws_registered = True, ws_hwm = hwm,
     ws_received = [], ws_sent = []\<rparr>"

inductive watch_reachable :: "user_project_watcher \<Rightarrow> watch_state \<Rightarrow> bool" for w where
  start: "watch_reachable w (watch_start w hwm)"
| step: "watch_reachable w s \<Longrightarrow> watch_step s t \<Longrightarrow> watch_reachable w t"

section \<open>What a notification means\<close>

text \<open>
  The event a notification calls for, with the namespaces known after it and the message of the
  timeout: nothing for a namespace outside the scope, for one whose state the client has, or for one
  the lister does not know.
\<close>

definition has_access :: "user_project_watcher \<Rightarrow> strset \<Rightarrow> strset \<Rightarrow> bool" where
  "has_access w users groups \<longleftrightarrow>
     ui_Name (w_user w) \<in> set users \<or> set (ui_Groups (w_user w)) \<inter> set groups \<noteq> {}"

definition in_scope :: "user_project_watcher \<Rightarrow> string \<Rightarrow> bool" where
  "in_scope w ns \<longleftrightarrow> ''*'' \<in> set (w_visibleNamespaces w) \<or> ns \<in> set (w_visibleNamespaces w)"

definition membership_event :: "(string \<Rightarrow> go_error + namespace) \<Rightarrow> string \<Rightarrow> strset \<Rightarrow> strset
    \<Rightarrow> user_project_watcher \<Rightarrow> (watch_event \<times> strmap \<times> string) option" where
  "membership_event nsGet ns users groups w =
     (if \<not> in_scope w ns then None
      else if \<not> has_access w users groups then
        (case map_of (w_knownProjects w) ns of
           None \<Rightarrow> None
         | Some rv \<Rightarrow> Some (\<lparr>ev_Type = Deleted,
             ev_Object = ProjectObject (ConvertNamespace (named_namespace ns ''''))\<rparr>,
             AList.delete ns (w_knownProjects w), ''delete notification timeout''))
      else
        (case nsGet ns of
           Inl err \<Rightarrow> None
         | Inr n \<Rightarrow>
             (if map_of (w_knownProjects w) ns = Some (ns_ResourceVersion n) then None
              else Some (\<lparr>ev_Type = (if map_of (w_knownProjects w) ns = None then Added else Modified),
                          ev_Object = ProjectObject (ConvertNamespace n)\<rparr>,
                AList.update ns (ns_ResourceVersion n) (w_knownProjects w), ''add notification timeout''))))"

lemma GroupMembershipChanged_event:
  "GroupMembershipChanged removeWatcher nsGet ns users groups c w =
     (case membership_event nsGet ns users groups w of
        None \<Rightarrow> Return (c, w)
      | Some (ev, known, err) \<Rightarrow>
          send_incoming removeWatcher ev err c (w\<lparr>w_knownProjects := known\<rparr>))"
proof -
  have a: "(set_Has users (ui_Name (w_user w)) \<or> set_HasAny groups (ui_Groups (w_user w))) =
      has_access w users groups"
    by (auto simp: has_access_def cache_simps)
  have s: "(\<not> set_Has (w_visibleNamespaces w) ''*'' \<and> \<not> set_Has (w_visibleNamespaces w) ns) = (\<not> in_scope w ns)"
    by (auto simp: in_scope_def cache_simps)
  show ?thesis
    unfolding GroupMembershipChanged_def membership_event_def a s
    by (auto simp: Let_def split: option.splits sum.splits)
qed

text \<open>
  A client that keeps a map of project names to resource versions: what an event does to it, and the
  events that make sense to it.
\<close>

definition apply_event :: "(string \<rightharpoonup> string) \<Rightarrow> watch_event \<Rightarrow> (string \<rightharpoonup> string)" where
  "apply_event m ev =
     (case ev_Object ev of
        StatusObject st msg \<Rightarrow> m
      | ProjectObject p \<Rightarrow>
          (case ev_Type ev of
             Added \<Rightarrow> m(om_Name (pr_ObjectMeta p) \<mapsto> om_ResourceVersion (pr_ObjectMeta p))
           | Modified \<Rightarrow> m(om_Name (pr_ObjectMeta p) \<mapsto> om_ResourceVersion (pr_ObjectMeta p))
           | Deleted \<Rightarrow> m(om_Name (pr_ObjectMeta p) := None)
           | ErrorType \<Rightarrow> m))"

definition valid_event :: "(string \<rightharpoonup> string) \<Rightarrow> watch_event \<Rightarrow> bool" where
  "valid_event m ev \<longleftrightarrow>
     (case ev_Object ev of
        StatusObject st msg \<Rightarrow> False
      | ProjectObject p \<Rightarrow>
          (case ev_Type ev of
             Added \<Rightarrow> m (om_Name (pr_ObjectMeta p)) = None
           | Modified \<Rightarrow> (case m (om_Name (pr_ObjectMeta p)) of
               None \<Rightarrow> False | Some rv \<Rightarrow> rv \<noteq> om_ResourceVersion (pr_ObjectMeta p))
           | Deleted \<Rightarrow> m (om_Name (pr_ObjectMeta p)) \<noteq> None
           | ErrorType \<Rightarrow> False))"

definition replay :: "(string \<rightharpoonup> string) \<Rightarrow> watch_event list \<Rightarrow> (string \<rightharpoonup> string)" where
  "replay m evs = foldl apply_event m evs"

fun valid_stream :: "(string \<rightharpoonup> string) \<Rightarrow> watch_event list \<Rightarrow> bool" where
  "valid_stream m [] = True"
| "valid_stream m (ev # evs) \<longleftrightarrow> valid_event m ev \<and> valid_stream (apply_event m ev) evs"

lemma replay_append [simp]: "replay m (evs @ evs') = replay (replay m evs) evs'"
  by (simp add: replay_def)

lemma replay_simps [simp]: "replay m [] = m" "replay m (ev # evs) = replay (apply_event m ev) evs"
  by (simp_all add: replay_def)

lemma valid_stream_append [simp]:
  "valid_stream m (evs @ evs') \<longleftrightarrow> valid_stream m evs \<and> valid_stream (replay m evs) evs'"
  by (induction m evs rule: valid_stream.induct) auto

lemma membership_event_valid:
  assumes "membership_event (namespace_Get items) ns users groups w = Some (ev, known, err)"
  shows "valid_event (map_of (w_knownProjects w)) ev \<and>
    apply_event (map_of (w_knownProjects w)) ev = map_of known"
proof (cases "has_access w users groups")
  case False
  with assms show ?thesis
    by (auto simp: membership_event_def valid_event_def apply_event_def delete_conv'
        split: if_splits option.splits)
next
  case True
  with assms obtain n where n: "namespace_Get items ns = Inr n"
    and new: "map_of (w_knownProjects w) ns \<noteq> Some (ns_ResourceVersion n)"
    and ev: "ev = \<lparr>ev_Type = (if map_of (w_knownProjects w) ns = None then Added else Modified),
          ev_Object = ProjectObject (ConvertNamespace n)\<rparr>"
    and known: "known = AList.update ns (ns_ResourceVersion n) (w_knownProjects w)"
    by (auto simp: membership_event_def split: if_splits sum.splits)
  then show ?thesis
    using namespace_Get_Inr [OF n]
    by (auto simp: valid_event_def apply_event_def update_conv' split: option.splits)
qed

lemma known_loop_map_of: "map_of (known_loop ns known) = map_of known ++ map_of (rev (map (\<lambda>n. (ns_Name n, ns_ResourceVersion n)) ns))"
  by (induction ns known rule: known_loop.induct) (auto simp: update_conv' fun_eq_iff map_add_def split: option.splits)

lemma replay_initial:
  "replay m (map initial_event ns) = m ++ map_of (rev (map (\<lambda>n. (ns_Name n, ns_ResourceVersion n)) ns))"
  by (induction ns arbitrary: m)
    (auto simp: initial_event_def apply_event_def fun_eq_iff map_add_def split: option.splits)

section \<open>Invariants of the watch\<close>

text \<open>
  What one notification can do to a watcher, with a cache whose \<^verbatim>\<open>RemoveWatcher\<close> clears a flag.
\<close>

lemma notify_cases:
  assumes "GroupMembershipChanged (\<lambda>_. Return False) (namespace_Get items) ns users groups True w = Return (r, w')"
  obtains (none) "r" "w' = w"
    | (sent) ev known where "r" "w' = w\<lparr>w_knownProjects := known, w_cacheIncoming := w_cacheIncoming w @ [ev]\<rparr>"
        "length (w_cacheIncoming w) < cacheIncoming_cap"
        "valid_event (map_of (w_knownProjects w)) ev" "apply_event (map_of (w_knownProjects w)) ev = map_of known"
    | (full) known err where "\<not> r" "w' = w\<lparr>w_knownProjects := known, w_cacheError := w_cacheError w @ [err]\<rparr>"
        "length (w_cacheIncoming w) \<ge> cacheIncoming_cap" "length (w_cacheError w) < cacheError_cap"
proof (cases "membership_event (namespace_Get items) ns users groups w")
  case None
  with assms none show ?thesis by (simp add: GroupMembershipChanged_event)
next
  case (Some t)
  obtain ev known err where t: "t = (ev, known, err)" by (cases t)
  show ?thesis
  proof (cases "length (w_cacheIncoming w) < cacheIncoming_cap")
    case True
    with assms Some t have "r" "w' = w\<lparr>w_knownProjects := known, w_cacheIncoming := w_cacheIncoming w @ [ev]\<rparr>"
      by (auto simp: GroupMembershipChanged_event send_incoming_def)
    with True Some t membership_event_valid [of items ns users groups w ev known err] show ?thesis
      by (intro sent) auto
  next
    case False
    with assms Some t have "send_error err (w\<lparr>w_knownProjects := known\<rparr>) = Return w'" "\<not> r"
      by (auto simp: GroupMembershipChanged_event send_incoming_def)
    with False full show ?thesis
      by (auto simp: send_error_def split: if_splits)
  qed
qed

text \<open>The channels: their capacity, and the fixed parts of the watcher.\<close>

definition channel_inv :: "user_project_watcher \<Rightarrow> watch_state \<Rightarrow> bool" where
  "channel_inv w s \<longleftrightarrow>
     w_initialProjects (ws_watcher s) = w_initialProjects w \<and>
     length (w_cacheIncoming (ws_watcher s)) \<le> cacheIncoming_cap \<and>
     (ws_registered s \<longrightarrow> w_cacheError (ws_watcher s) = []) \<and>
     length (w_cacheError (ws_watcher s)) \<le> cacheError_cap \<and>
     (w_outgoingClosed (ws_watcher s) \<longleftrightarrow> ws_pc s = Finished) \<and>
     (ws_pc s \<in> {Closing, Finished} \<longrightarrow> \<not> ws_registered s)"

text \<open>The events sent and the namespaces the watcher knows.\<close>

definition stream_inv :: "user_project_watcher \<Rightarrow> watch_state \<Rightarrow> bool" where
  "stream_inv w s \<longleftrightarrow>
     valid_stream (map_of (w_knownProjects w)) (ws_sent s) \<and>
     (ws_registered s \<longrightarrow>
        replay (map_of (w_knownProjects w)) (ws_sent s) = map_of (w_knownProjects (ws_watcher s)))"

text \<open>
  The order of delivery. \<open>delivered\<close> relates what the client has received to what it should have:
  equal, or with gaps once the client has stopped the watch.
\<close>

definition delivered :: "bool \<Rightarrow> 'a list \<Rightarrow> 'a list \<Rightarrow> bool" where
  "delivered stopped received full \<longleftrightarrow> (if stopped then subseq received full else received = full)"

fun order_inv :: "bool \<Rightarrow> watch_event list \<Rightarrow> watch_event list \<Rightarrow> watch_event list \<Rightarrow> watch_event list
    \<Rightarrow> watch_pc \<Rightarrow> bool" where
  "order_inv st I received sent inc (AtInitial i) \<longleftrightarrow>
     i \<le> length I \<and> delivered st received (take i I) \<and> sent = inc"
| "order_inv st I received sent inc (Emitting e (AtInitial i)) \<longleftrightarrow>
     (\<exists>j. i = Suc j \<and> j < length I \<and> e = I ! j \<and> delivered st received (take j I)) \<and> sent = inc"
| "order_inv st I received sent inc AtLoop \<longleftrightarrow>
     (\<exists>q. sent = q @ inc \<and> delivered st received (I @ q))"
| "order_inv st I received sent inc (Emitting e AtLoop) \<longleftrightarrow>
     (\<exists>q. sent = q @ e # inc \<and> delivered st received (I @ q))"
| "order_inv st I received sent inc (Emitting e Removing) \<longleftrightarrow>
     (\<exists>p msg. e = makeErrorEvent msg \<and> prefix p (I @ sent) \<and> delivered st received p)"
| "order_inv st I received sent inc (Emitting e pc) \<longleftrightarrow> False"
| "order_inv st I received sent inc pc \<longleftrightarrow>
     (\<exists>p. prefix p (I @ sent) \<and>
        (delivered st received p \<or> (\<exists>msg. delivered st received (p @ [makeErrorEvent msg]))))"

definition delivery_inv :: "user_project_watcher \<Rightarrow> watch_state \<Rightarrow> bool" where
  "delivery_inv w s \<longleftrightarrow>
     order_inv (w_userStop (ws_watcher s)) (map initial_event (w_initialProjects w)) (ws_received s)
       (ws_sent s) (w_cacheIncoming (ws_watcher s)) (ws_pc s)"

lemma delivered_refl [simp]: "delivered st x x"
  by (simp add: delivered_def)

lemma delivered_snoc: "delivered st r x \<Longrightarrow> delivered st (r @ [e]) (x @ [e])"
  by (auto simp: delivered_def)

lemma delivered_skip: "delivered True r x \<Longrightarrow> delivered True r (x @ [e])"
  by (auto simp: delivered_def intro: list_emb_append2 subseq_order.trans)

lemma delivered_stop: "delivered st r x \<Longrightarrow> delivered True r x"
  by (auto simp: delivered_def split: if_splits)

lemma take_Suc_nth: "j < length I \<Longrightarrow> take (Suc j) I = take j I @ [I ! j]"
  by (rule take_Suc_conv_app_nth)

text \<open>A program point is left by emitting or by dropping the event.\<close>

lemma order_inv_emit:
  assumes "order_inv st I r sent inc (Emitting e pc)"
  shows "order_inv st I (r @ [e]) sent inc pc"
proof (cases pc)
  case (AtInitial i)
  with assms show ?thesis by (auto simp: take_Suc_nth delivered_snoc)
next
  case AtLoop
  with assms obtain q where "sent = q @ e # inc" "delivered st r (I @ q)" by auto
  then have "sent = (q @ [e]) @ inc" "delivered st (r @ [e]) (I @ (q @ [e]))"
    by (simp, metis append.assoc delivered_snoc)
  with AtLoop show ?thesis by auto
next
  case Removing
  with assms show ?thesis by (auto intro: delivered_snoc)
qed (use assms in auto)

lemma order_inv_drop:
  assumes "order_inv True I r sent inc (Emitting e pc)"
  shows "order_inv True I r sent inc pc"
proof (cases pc)
  case (AtInitial i)
  with assms show ?thesis by (auto simp: take_Suc_nth delivered_skip)
next
  case AtLoop
  with assms obtain q where "sent = q @ e # inc" "delivered True r (I @ q)" by auto
  then have "sent = (q @ [e]) @ inc" "delivered True r (I @ (q @ [e]))"
    by (simp, metis append.assoc delivered_skip)
  with AtLoop show ?thesis by auto
next
  case Removing
  with assms show ?thesis by auto
qed (use assms in auto)

lemma order_inv_stop: "order_inv st I r sent inc pc \<Longrightarrow> order_inv True I r sent inc pc"
  by (induction st I r sent inc pc rule: order_inv.induct) (simp_all, (blast dest: delivered_stop)+)

lemma order_inv_send:
  "order_inv st I r sent inc pc \<Longrightarrow> order_inv st I r (sent @ [e]) (inc @ [e]) pc"
  by (induction st I r sent inc pc rule: order_inv.induct) (auto simp: prefix_append simp flip: append_assoc)

lemma delivered_prefix: "delivered st r x \<Longrightarrow> \<exists>p. prefix p (x @ y) \<and> delivered st r p"
  by (rule exI [of _ x]) simp

lemma channel_inv_step:
  assumes "watch_step s t" and "channel_inv w s" and "delivery_inv w s"
  shows "channel_inv w t"
  using assms
proof (cases rule: watch_step.cases)
  case (notify items namespaceName users groups registered w')
  from notify(3) notify(2) assms(2) show ?thesis
    unfolding notify(1)
    by (cases rule: notify_cases) (auto simp: channel_inv_def cacheError_cap_def)
qed (auto simp: channel_inv_def delivery_inv_def Stop_def)

lemma stream_inv_step:
  assumes "watch_step s t" and "stream_inv w s"
  shows "stream_inv w t"
  using assms
proof (cases rule: watch_step.cases)
  case (notify items namespaceName users groups registered w')
  from notify(3) notify(2) assms(2) show ?thesis
    unfolding notify(1)
    by (cases rule: notify_cases) (auto simp: stream_inv_def)
qed (auto simp: stream_inv_def Stop_def)

lemma delivery_inv_step:
  assumes "watch_step s t" and "delivery_inv w s" and "channel_inv w s"
  shows "delivery_inv w t"
  using assms(1)
proof (cases rule: watch_step.cases)
  case (initial_error i err errs)
  with assms(2) show ?thesis
    by (auto simp: delivery_inv_def intro!: exI [of _ "take i (map initial_event (w_initialProjects w))"] take_is_prefix
        prefix_order.trans [OF take_is_prefix])
next
  case (initial_emit i)
  with assms(2,3) show ?thesis
    by (simp add: delivery_inv_def channel_inv_def)
next
  case (initial_done i)
  with assms(2,3) show ?thesis
    by (auto simp: delivery_inv_def channel_inv_def intro!: exI [of _ "[]"])
next
  case (loop_error err errs)
  with assms(2) show ?thesis
    by (auto simp: delivery_inv_def delivered_prefix simp flip: append_assoc)
next
  case loop_stop
  let ?I = "map initial_event (w_initialProjects w)"
  from loop_stop assms(2) obtain q where "ws_sent s = q @ w_cacheIncoming (ws_watcher s)"
    and "delivered True (ws_received s) (?I @ q)"
    by (auto simp: delivery_inv_def)
  then have "prefix (?I @ q) (?I @ ws_sent s) \<and> delivered True (ws_received s) (?I @ q)"
    by simp
  then have "order_inv True ?I (ws_received s) (ws_sent s) (w_cacheIncoming (ws_watcher s)) Removing"
    unfolding order_inv.simps by blast
  with loop_stop show ?thesis
    by (simp add: delivery_inv_def del: order_inv.simps)

next
  case (loop_event event rest)
  with assms(2) show ?thesis
    by (auto simp: delivery_inv_def)
next
  case (emit_send event "next")
  with assms(2) show ?thesis
    by (simp add: delivery_inv_def order_inv_emit)
next
  case (emit_stop event "next")
  with assms(2) show ?thesis
    by (simp add: delivery_inv_def order_inv_drop)
next
  case user_stop
  with assms(2) show ?thesis
    by (auto simp: delivery_inv_def Stop_def intro: order_inv_stop)
next
  case (notify items namespaceName users groups registered w')
  from notify(3) notify(2) assms(2) show ?thesis
    unfolding notify(1)
    by (cases rule: notify_cases) (auto simp: delivery_inv_def order_inv_send)
qed (use assms(2) in \<open>auto simp: delivery_inv_def\<close>)

text \<open>A new watcher, as \<^verbatim>\<open>NewUserProjectWatcher\<close> makes it.\<close>

definition fresh_watcher :: "user_project_watcher \<Rightarrow> bool" where
  "fresh_watcher w \<longleftrightarrow> w_cacheIncoming w = [] \<and> w_cacheError w = [] \<and> \<not> w_outgoingClosed w \<and> \<not> w_userStop w"

lemma NewUserProjectWatcher_fresh: "NewUserProjectWatcher u v l b = Return w \<Longrightarrow> fresh_watcher w"
  by (auto simp: NewUserProjectWatcher_def fresh_watcher_def split: sum.splits)

lemma watch_reachable_inv:
  assumes "watch_reachable w s" and "fresh_watcher w"
  shows "channel_inv w s \<and> stream_inv w s \<and> delivery_inv w s"
  using assms(1)
proof induction
  case (start hwm)
  then show ?case
    using assms(2)
    by (simp add: channel_inv_def stream_inv_def delivery_inv_def watch_start_def fresh_watcher_def)
next
  case (step s t)
  then show ?case
    by (blast intro: channel_inv_step stream_inv_step delivery_inv_step)
qed

lemma order_inv_prefix:
  "order_inv st I r sent inc pc \<Longrightarrow> \<exists>p. prefix p (I @ sent) \<and>
     (delivered st r p \<or> (\<exists>msg. delivered st r (p @ [makeErrorEvent msg])))"
proof (induction st I r sent inc pc rule: order_inv.induct)
  case (1 st I r sent inc i)
  then show ?case by (intro exI [of _ "take i I"]) (auto intro: prefix_order.trans [OF take_is_prefix])
next
  case (2 st I r sent inc e i)
  then obtain j where "delivered st r (take j I)" by auto
  then show ?case by (intro exI [of _ "take j I"]) (auto intro: prefix_order.trans [OF take_is_prefix])
next
  case (3 st I r sent inc)
  then obtain q where "sent = q @ inc" "delivered st r (I @ q)" by auto
  then show ?case by (intro exI [of _ "I @ q"]) simp
next
  case (4 st I r sent inc e)
  then obtain q where "sent = q @ e # inc" "delivered st r (I @ q)" by auto
  then show ?case by (intro exI [of _ "I @ q"]) simp
qed auto

section \<open>The cache the watcher relies on\<close>

text \<open>
  \<^verbatim>\<open>WatchableCache\<close>, as far as a notification needs it: \<open>RemoveWatcher\<close> for this watcher returns and
  leaves it unregistered, unless its caller holds what it waits for.
\<close>

locale watchable_cache =
  fixes remove :: "'c \<Rightarrow> 'c outcome"
    and registered :: "'c \<Rightarrow> bool"
    and ready :: "'c \<Rightarrow> bool"
  assumes remove_returns: "ready c \<Longrightarrow> \<exists>c'. remove c = Return c' \<and> \<not> registered c' \<and> ready c'"
begin

lemma send_returns:
  assumes "ready c" and "w_cacheError w = []"
  shows "\<exists>c' w'. send_incoming remove ev err c w = Return (c', w') \<and>
    (if length (w_cacheIncoming w) < cacheIncoming_cap
     then c' = c \<and> w_cacheError w' = [] else \<not> registered c' \<and> w_cacheError w' = [err])"
proof (cases "length (w_cacheIncoming w) < cacheIncoming_cap")
  case True
  then show ?thesis using assms by (simp add: send_incoming_def)
next
  case False
  obtain c' where "remove c = Return c'" "\<not> registered c'"
    using remove_returns [OF assms(1)] by blast
  with False assms(2) show ?thesis
    by (simp add: send_incoming_def send_error_def cacheError_cap_def)
qed

lemma notification_returns:
  assumes "ready c" and "w_cacheError w = []"
  shows "\<exists>c' w'. GroupMembershipChanged remove nsGet ns users groups c w = Return (c', w') \<and>
    (w_cacheError w' = [] \<or> \<not> registered c')"
proof (cases "membership_event nsGet ns users groups w")
  case (Some t)
  obtain ev known err where t: "t = (ev, known, err)" by (cases t)
  have "w_cacheError (w\<lparr>w_knownProjects := known\<rparr>) = []"
    using assms(2) by simp
  from send_returns [OF assms(1) this, of ev err] Some t show ?thesis
    by (fastforce simp: GroupMembershipChanged_event split: if_splits)
qed (use assms in \<open>simp add: GroupMembershipChanged_event\<close>)

end

interpretation flag: watchable_cache "\<lambda>_. Return False" "\<lambda>b. b" "\<lambda>_. True"
  by unfold_locales (rule exI [of _ False], simp)

section \<open>Properties\<close>

definition sample_watcher :: "bool \<Rightarrow> user_project_watcher" where
  "sample_watcher b =
     \<lparr>w_user = \<lparr>ui_Name = ''ann'', ui_Groups = []\<rparr>, w_visibleNamespaces = [''*''], w_cacheIncoming = [],
      w_cacheError = [], w_outgoingClosed = False, w_userStop = False,
      w_initialProjects = (if b then [named_namespace ''p'' ''7''] else []),
      w_knownProjects = [(''p'', ''7'')]\<rparr>"

lemma sample_watcher_new:
  "NewUserProjectWatcher \<lparr>ui_Name = ''ann'', ui_Groups = []\<rparr> [''*''] (Inr [named_namespace ''p'' ''7'']) b
     = Return (sample_watcher b)"
  by (simp add: NewUserProjectWatcher_def sample_watcher_def)

text \<open>
  A notification that returns does one of three things: nothing; puts one event on the buffer,
  for a namespace in the watch's scope, deleting it exactly when the user has lost access, an event
  that makes sense after the ones before it and takes the client's view to the namespaces now known;
  or, on a full buffer, has the cache remove the watcher and leaves one error for the client.
\<close>

theorem GroupMembershipChanged_effect:
  assumes "GroupMembershipChanged rem (namespace_Get items) ns users groups c w = Return (c', w')"
  shows "c' = c \<and> w' = w \<or>
    (\<exists>ev known. in_scope w ns \<and> (ev_Type ev = Deleted \<longleftrightarrow> \<not> has_access w users groups) \<and>
       valid_event (map_of (w_knownProjects w)) ev \<and> apply_event (map_of (w_knownProjects w)) ev = map_of known \<and>
       (if length (w_cacheIncoming w) < cacheIncoming_cap
        then c' = c \<and> w' = w\<lparr>w_knownProjects := known, w_cacheIncoming := w_cacheIncoming w @ [ev]\<rparr>
        else rem c = Return c' \<and> (\<exists>err. w' = w\<lparr>w_knownProjects := known, w_cacheError := w_cacheError w @ [err]\<rparr>)))"
proof (cases "membership_event (namespace_Get items) ns users groups w")
  case None
  with assms show ?thesis by (simp add: GroupMembershipChanged_event)
next
  case (Some t)
  obtain ev known err where t: "t = (ev, known, err)" by (cases t)
  have "in_scope w ns \<and> (ev_Type ev = Deleted \<longleftrightarrow> \<not> has_access w users groups)"
    using Some t by (auto simp: membership_event_def split: if_splits option.splits sum.splits)
  moreover have "if length (w_cacheIncoming w) < cacheIncoming_cap
      then c' = c \<and> w' = w\<lparr>w_knownProjects := known, w_cacheIncoming := w_cacheIncoming w @ [ev]\<rparr>
      else rem c = Return c' \<and> (\<exists>err. w' = w\<lparr>w_knownProjects := known, w_cacheError := w_cacheError w @ [err]\<rparr>)"
    using assms Some t by (auto simp: GroupMembershipChanged_event send_incoming_def send_error_def split: if_splits)
  ultimately show ?thesis
    using membership_event_valid [of items ns users groups w ev known err] Some t by blast
qed

theorem GroupMembershipChanged_effect_witness:
  "\<exists>ev known. valid_event (map_of [(''p'', ''7'')]) ev \<and> ev_Type ev = Deleted \<and>
     apply_event (map_of [(''p'', ''7'')]) ev = map_of known"
proof -
  let ?w = "sample_watcher False"
  obtain w' where r: "GroupMembershipChanged (\<lambda>_. Return False) (namespace_Get []) ''p'' [] [] True ?w = Return (True, w')"
    and "w' \<noteq> ?w"
    by (simp add: GroupMembershipChanged_def sample_watcher_def send_incoming_def cacheIncoming_cap_def)
  with GroupMembershipChanged_effect [OF r] show ?thesis
    by (auto simp: has_access_def sample_watcher_def)
qed

text \<open>
  C9: The client of a watch that it has not stopped has received, in order and without gaps, a
  beginning of the initial projects followed by the events the cache has sent, and at most one error
  after them; once the client has stopped the watch, events may be missing from that, none is
  repeated or reordered.
\<close>

theorem watch_delivery:
  assumes "NewUserProjectWatcher user visible listed b = Return w" and "watch_reachable w s"
  shows "\<exists>p. prefix p (map initial_event (w_initialProjects w) @ ws_sent s) \<and>
    (if w_userStop (ws_watcher s)
     then subseq (ws_received s) p \<or> (\<exists>msg. subseq (ws_received s) (p @ [makeErrorEvent msg]))
     else ws_received s = p \<or> (\<exists>msg. ws_received s = p @ [makeErrorEvent msg]))"
proof -
  let ?st = "w_userStop (ws_watcher s)" and ?I = "map initial_event (w_initialProjects w)"
  have "delivery_inv w s"
    using watch_reachable_inv [OF assms(2) NewUserProjectWatcher_fresh [OF assms(1)]] by blast
  then have "\<exists>p. prefix p (?I @ ws_sent s) \<and>
      (delivered ?st (ws_received s) p \<or> (\<exists>msg. delivered ?st (ws_received s) (p @ [makeErrorEvent msg])))"
    unfolding delivery_inv_def by (rule order_inv_prefix)
  then show ?thesis
    by (cases ?st) (simp_all add: delivered_def)
qed

lemma sample_reachable: "watch_reachable (sample_watcher True)
    \<lparr>ws_pc = AtLoop, ws_watcher = sample_watcher True, ws_registered = True, ws_hwm = 0,
     ws_received = [initial_event (named_namespace ''p'' ''7'')], ws_sent = []\<rparr>"
proof -
  let ?w = "sample_watcher True"
  let ?e = "initial_event (named_namespace ''p'' ''7'')"
  let ?s = "\<lambda>pc rec. \<lparr>ws_pc = pc, ws_watcher = ?w, ws_registered = True, ws_hwm = 0, ws_received = rec, ws_sent = []\<rparr>"
  have "watch_reachable ?w (?s (AtInitial 0) [])"
    using watch_reachable.start [of ?w 0] by (simp add: watch_start_def)
  moreover have "watch_step (?s (AtInitial 0) []) (?s (Emitting ?e (AtInitial 1)) [])"
    using initial_emit [of "?s (AtInitial 0) []" 0] by (simp add: sample_watcher_def)
  moreover have "watch_step (?s (Emitting ?e (AtInitial 1)) []) (?s (AtInitial 1) [?e])"
    using emit_send [of "?s (Emitting ?e (AtInitial 1)) []" ?e "AtInitial 1"] by simp
  moreover have "watch_step (?s (AtInitial 1) [?e]) (?s AtLoop [?e])"
    using initial_done [of "?s (AtInitial 1) [?e]" 1] by (simp add: sample_watcher_def)
  ultimately show ?thesis
    by (meson watch_reachable.step)
qed

theorem watch_delivery_witness:
  "\<exists>p. prefix p [initial_event (named_namespace ''p'' ''7'')] \<and>
     ([initial_event (named_namespace ''p'' ''7'')] = p \<or>
      (\<exists>msg. [initial_event (named_namespace ''p'' ''7'')] = p @ [makeErrorEvent msg]))"
  using watch_delivery [OF sample_watcher_new sample_reachable] by (simp add: sample_watcher_def)

lemma client_view:
  assumes "NewUserProjectWatcher user visible listed True = Return w" and "watch_reachable w s"
    and "ws_registered s" and "\<not> w_userStop (ws_watcher s)"
    and "ws_pc s = AtLoop" and "w_cacheIncoming (ws_watcher s) = []"
  shows "replay Map.empty (ws_received s) = map_of (w_knownProjects (ws_watcher s)) \<and>
    valid_stream (map_of (w_knownProjects w)) (ws_sent s)"
proof -
  obtain items where items: "w_initialProjects w = items" "w_knownProjects w = known_loop items []"
    using assms(1) by (auto simp: NewUserProjectWatcher_def split: sum.splits)
  have inv: "stream_inv w s" "delivery_inv w s"
    using watch_reachable_inv [OF assms(2) NewUserProjectWatcher_fresh [OF assms(1)]] by blast+
  have "ws_received s = map initial_event items @ ws_sent s"
    using inv(2) assms(4-6) items by (auto simp: delivery_inv_def delivered_def)
  moreover have "replay Map.empty (map initial_event items) = map_of (w_knownProjects w)"
    by (simp add: items replay_initial known_loop_map_of)
  ultimately show ?thesis
    using inv(1) assms(3) by (simp add: stream_inv_def)
qed

text \<open>
  C17: A client that asked for the existing projects, has not stopped the watch and has read all
  there is, knows exactly the projects and versions the watcher knows, as long as the cache still
  notifies the watcher; and every event it was sent made sense to it.
\<close>

theorem watch_client_view:
  assumes "NewUserProjectWatcher user visible listed True = Return w" and "watch_reachable w s"
    and "ws_registered s" and "\<not> w_userStop (ws_watcher s)"
    and "ws_pc s = AtLoop" and "w_cacheIncoming (ws_watcher s) = []"
  shows "replay Map.empty (ws_received s) = map_of (w_knownProjects (ws_watcher s)) \<and>
    valid_stream (map_of (w_knownProjects w)) (ws_sent s)"
  using assms by (rule client_view)

theorem watch_client_view_witness:
  "replay Map.empty [initial_event (named_namespace ''p'' ''7'')] = map_of [(''p'', ''7'')]"
  using watch_client_view [OF sample_watcher_new sample_reachable] by (simp add: sample_watcher_def)

text \<open>
  The channels never exceed their capacity, and a watcher that is still registered has no
  pending error, so the cache's notification of it returns whenever its \<^verbatim>\<open>RemoveWatcher\<close> does.
\<close>

theorem watch_channels:
  assumes "NewUserProjectWatcher user visible listed b = Return w" and "watch_reachable w s"
  shows "length (w_cacheIncoming (ws_watcher s)) \<le> cacheIncoming_cap \<and>
    length (w_cacheError (ws_watcher s)) \<le> cacheError_cap \<and>
    (if ws_registered s then
       w_cacheError (ws_watcher s) = [] \<and>
       (\<exists>r w'. GroupMembershipChanged (\<lambda>_. Return False) nsGet ns users groups True (ws_watcher s) = Return (r, w'))
     else True)"
proof -
  have inv: "channel_inv w s"
    using watch_reachable_inv [OF assms(2) NewUserProjectWatcher_fresh [OF assms(1)]] by blast
  show ?thesis
  proof (cases "ws_registered s")
    case True
    then have e: "w_cacheError (ws_watcher s) = []"
      using inv by (simp add: channel_inv_def)
    then have "\<exists>r w'. GroupMembershipChanged (\<lambda>_. Return False) nsGet ns users groups True (ws_watcher s) = Return (r, w')"
      using flag.notification_returns [where c = True and w = "ws_watcher s"] by blast
    with e inv True show ?thesis
      by (simp add: channel_inv_def)
  qed (use inv in \<open>simp add: channel_inv_def\<close>)
qed

theorem watch_channels_witness:
  "\<exists>r w'. GroupMembershipChanged (\<lambda>_. Return False) (namespace_Get []) ''p'' [] [] True (sample_watcher True) = Return (r, w')"
  using watch_channels [OF sample_watcher_new sample_reachable] by simp

text \<open>
  The outgoing channel is closed exactly when the goroutine has finished, so it never sends on a
  closed channel, and by then the watcher is no longer registered with the cache.
\<close>

theorem watch_cleanup:
  assumes "NewUserProjectWatcher user visible listed b = Return w" and "watch_reachable w s"
  shows "(w_outgoingClosed (ws_watcher s) \<longleftrightarrow> ws_pc s = Finished) \<and> \<not> (ws_pc s = Finished \<and> ws_registered s)"
  using watch_reachable_inv [OF assms(2) NewUserProjectWatcher_fresh [OF assms(1)]]
  by (auto simp: channel_inv_def)

theorem watch_cleanup_witness: "\<not> w_outgoingClosed (sample_watcher True)"
  using watch_cleanup [OF sample_watcher_new sample_reachable] by simp

lemma finish_Removing: "ws_pc s = Removing \<Longrightarrow> \<exists>t. watch_step\<^sup>*\<^sup>* s t \<and> ws_pc t = Finished"
proof -
  assume pc: "ws_pc s = Removing"
  let ?t = "s\<lparr>ws_pc := Closing, ws_registered := False\<rparr>"
  have "watch_step s ?t" using pc by (rule watch_step.remove)
  moreover have "watch_step ?t (?t\<lparr>ws_pc := Finished, ws_watcher := (ws_watcher ?t)\<lparr>w_outgoingClosed := True\<rparr>\<rparr>)"
    by (rule watch_step.close) simp
  ultimately show ?thesis
    by (intro exI [of _ "?t\<lparr>ws_pc := Finished, ws_watcher := (ws_watcher ?t)\<lparr>w_outgoingClosed := True\<rparr>\<rparr>"]) auto
qed

lemma finish_AtLoop:
  "ws_pc s = AtLoop \<Longrightarrow> w_userStop (ws_watcher s) \<Longrightarrow> \<exists>t. watch_step\<^sup>*\<^sup>* s t \<and> ws_pc t = Finished"
  using finish_Removing [of "s\<lparr>ws_pc := Removing\<rparr>"] watch_step.loop_stop [of s]
  by (auto intro: converse_rtranclp_into_rtranclp)

text \<open>A stopped watch drops what it would emit.\<close>

lemma finish_drop:
  assumes "ws_pc s = Emitting e pc" and "w_userStop (ws_watcher s)"
    and "\<exists>t. watch_step\<^sup>*\<^sup>* (s\<lparr>ws_pc := pc\<rparr>) t \<and> ws_pc t = Finished"
  shows "\<exists>t. watch_step\<^sup>*\<^sup>* s t \<and> ws_pc t = Finished"
  using assms watch_step.emit_stop [of s e pc] by (blast intro: converse_rtranclp_into_rtranclp)

lemma finish_AtInitial:
  "ws_pc s = AtInitial i \<Longrightarrow> w_userStop (ws_watcher s) \<Longrightarrow> \<exists>t. watch_step\<^sup>*\<^sup>* s t \<and> ws_pc t = Finished"
proof (induction "length (w_initialProjects (ws_watcher s)) - i" arbitrary: i s)
  case 0
  then have "watch_step s (s\<lparr>ws_pc := AtLoop\<rparr>)" by (intro watch_step.initial_done) auto
  with 0 finish_AtLoop [of "s\<lparr>ws_pc := AtLoop\<rparr>"] show ?case
    by (auto intro: converse_rtranclp_into_rtranclp)
next
  case (Suc d)
  show ?case
  proof (cases "w_cacheError (ws_watcher s)")
    case (Cons err errs)
    let ?t = "s\<lparr>ws_pc := Emitting (makeErrorEvent err) Removing, ws_watcher := (ws_watcher s)\<lparr>w_cacheError := errs\<rparr>\<rparr>"
    have "watch_step s ?t"
      using Suc Cons by (intro watch_step.initial_error) auto
    moreover have "\<exists>t. watch_step\<^sup>*\<^sup>* (?t\<lparr>ws_pc := Removing\<rparr>) t \<and> ws_pc t = Finished"
      by (rule finish_Removing) simp
    then have "\<exists>t. watch_step\<^sup>*\<^sup>* ?t t \<and> ws_pc t = Finished"
      using Suc by (intro finish_drop [of ?t]) auto
    ultimately show ?thesis by (blast intro: converse_rtranclp_into_rtranclp)
  next
    case Nil
    let ?e = "initial_event (w_initialProjects (ws_watcher s) ! i)"
    let ?t = "s\<lparr>ws_pc := Emitting ?e (AtInitial (Suc i))\<rparr>"
    have "watch_step s ?t"
      using Suc Nil by (intro watch_step.initial_emit) auto
    moreover have "\<exists>t. watch_step\<^sup>*\<^sup>* (?t\<lparr>ws_pc := AtInitial (Suc i)\<rparr>) t \<and> ws_pc t = Finished"
      using Suc by (intro Suc(1) [of _ "Suc i"]) auto
    then have "\<exists>t. watch_step\<^sup>*\<^sup>* ?t t \<and> ws_pc t = Finished"
      using Suc by (intro finish_drop [of ?t]) auto
    ultimately show ?thesis by (blast intro: converse_rtranclp_into_rtranclp)
  qed
qed



end
