(* ===== verification/AuthCache.thy ===== *)
theory AuthCache
  imports SubjectStores Watcher
begin

text \<open>
  \<^verbatim>\<open>pkg/project/auth/cache.go\<close>: the cache of which namespaces each user and group may see. A
  synchronization reads the listers, reviews the namespaces that changed, updates the subject stores
  and notifies the watchers.

  The two version sets the cache remembers are references: \<open>ac_sets\<close> is the memory the sets live in,
  and the fields hold addresses, because the program stores one set and goes on changing it. The
  watchers are references too: \<open>ac_watchers\<close> holds their addresses. The mutex is a flag, which a
  second acquisition by the goroutine that holds it finds set, and then blocks for ever.
\<close>

section \<open>The cache\<close>

record stores =
  userSubjectRecordStore :: subject_store
  groupSubjectRecordStore :: subject_store
  reviewRecordStore :: review_store

record auth_cache =
  allKnownNamespaces :: strset
  ac_stores :: stores
  clusterRoleBindingResourceVersions :: nat
  clusterRoleResourceVersions :: nat
  ac_sets :: "strset list"
  lastState :: string
  ac_watchers :: "nat list"
  watcherLock :: bool
  ac_watcherObjects :: "nat \<Rightarrow> user_project_watcher"

definition NewStores :: stores where
  "NewStores = \<lparr>userSubjectRecordStore = NewStore, groupSubjectRecordStore = NewStore,
     reviewRecordStore = NewStore\<rparr>"

text \<open>\<open>objects\<close> stands for the watchers that the program will create, at addresses it will choose.\<close>

definition NewAuthorizationCache :: "(nat \<Rightarrow> user_project_watcher) \<Rightarrow> auth_cache" where
  "NewAuthorizationCache objects =
     \<lparr>allKnownNamespaces = [], ac_stores = NewStores,
      clusterRoleBindingResourceVersions = 1, clusterRoleResourceVersions = 0,
      ac_sets = [NewString [], NewString []], lastState = '''', ac_watchers = [], watcherLock = False,
      ac_watcherObjects = objects\<rparr>"

text \<open>
  What one synchronization reads: the versions the informers last synchronized, the answer of each
  lister to the one call made of it, the reviewer and the watchers' namespace lister.
\<close>

record sync_view =
  v_namespaceVersion :: string
  v_policyVersions :: "string list"
  v_namespaces :: "go_error + namespace list"
  v_clusterRoles :: "go_error + cluster_role list"
  v_clusterRoleBindings :: "go_error + cluster_role_binding list"
  v_roles :: "go_error + role list"
  v_roleBindings :: "go_error + role_binding list"
  v_review :: "string \<Rightarrow> subject list \<times> go_error option"
  v_nsGet :: "string \<Rightarrow> go_error + namespace"

section \<open>Skipping a synchronization\<close>

definition union_LastSyncResourceVersion :: "string list \<Rightarrow> string" where
  "union_LastSyncResourceVersion versions = Join versions ''''"

definition stateless_SkipSynchronize :: "string \<Rightarrow> string list \<Rightarrow> bool \<times> string" where
  "stateless_SkipSynchronize prevState versions =
     (let currentState = Join versions '','' in (currentState = prevState, currentState))"

definition never_SkipSynchronize :: "string \<Rightarrow> string list \<Rightarrow> bool \<times> string" where
  "never_SkipSynchronize prevState versions = (False, '''')"

definition current_versions :: "sync_view \<Rightarrow> string list" where
  "current_versions v = [v_namespaceVersion v, union_LastSyncResourceVersion (v_policyVersions v)]"

section \<open>Watchers\<close>

fun remove_watcher :: "nat list \<Rightarrow> nat \<Rightarrow> nat list" where
  "remove_watcher [] watcher = []"
| "remove_watcher (x # xs) watcher = (if x = watcher then xs else x # remove_watcher xs watcher)"

definition AddWatcher :: "nat \<Rightarrow> auth_cache \<Rightarrow> auth_cache outcome" where
  "AddWatcher watcher ac =
     (if watcherLock ac then Blocked else Return (ac\<lparr>ac_watchers := ac_watchers ac @ [watcher]\<rparr>))"

definition RemoveWatcher :: "nat \<Rightarrow> auth_cache \<Rightarrow> auth_cache outcome" where
  "RemoveWatcher watcher ac =
     (if watcherLock ac then Blocked else Return (ac\<lparr>ac_watchers := remove_watcher (ac_watchers ac) watcher\<rparr>))"

fun notify_loop :: "(string \<Rightarrow> go_error + namespace) \<Rightarrow> string \<Rightarrow> strset \<Rightarrow> strset \<Rightarrow> nat list
    \<Rightarrow> auth_cache \<Rightarrow> auth_cache outcome" where
  "notify_loop nsGet ns users groups [] ac = Return ac"
| "notify_loop nsGet ns users groups (watcher # watchers) ac =
     bind_outcome
       (GroupMembershipChanged (RemoveWatcher watcher) nsGet ns users groups ac (ac_watcherObjects ac watcher))
       (\<lambda>(ac', w'). notify_loop nsGet ns users groups watchers
          (ac'\<lparr>ac_watcherObjects := (ac_watcherObjects ac')(watcher := w')\<rparr>))"

definition notifyWatchers :: "(string \<Rightarrow> go_error + namespace) \<Rightarrow> string \<Rightarrow> strset \<Rightarrow> strset
    \<Rightarrow> auth_cache \<Rightarrow> auth_cache outcome" where
  "notifyWatchers nsGet ns users groups ac =
     (if watcherLock ac then Blocked
      else bind_outcome (notify_loop nsGet ns users groups (ac_watchers ac) (ac\<lparr>watcherLock := True\<rparr>))
             (\<lambda>ac'. Return (ac'\<lparr>watcherLock := False\<rparr>)))"

section \<open>Synchronizing one request\<close>

text \<open>
  The part of \<^verbatim>\<open>syncRequest\<close> after a review that succeeded and before the notification: the stores it
  leaves.
\<close>

definition update_stores :: "review_request \<Rightarrow> review_record option \<Rightarrow> string list \<Rightarrow> string list
    \<Rightarrow> stores \<Rightarrow> stores" where
  "update_stores request lastKnownValue users groups st =
     (let ns = rq_namespace request;
          (usersToRemove, groupsToRemove) = (case lastKnownValue of
             None \<Rightarrow> (NewString [], NewString [])
           | Some r \<Rightarrow> (set_Delete (set_Insert (NewString []) (rr_users r)) users,
                        set_Delete (set_Insert (NewString []) (rr_groups r)) groups))
      in \<lparr>userSubjectRecordStore = addSubjectsToNamespace
            (deleteNamespaceFromSubjects (userSubjectRecordStore st) (set_List usersToRemove) ns) users ns,
          groupSubjectRecordStore = addSubjectsToNamespace
            (deleteNamespaceFromSubjects (groupSubjectRecordStore st) (set_List groupsToRemove) ns) groups ns,
          reviewRecordStore = cacheReviewRecord request lastKnownValue users groups (reviewRecordStore st)\<rparr>)"

definition syncRequest :: "sync_view \<Rightarrow> review_request \<Rightarrow> auth_cache \<times> stores
    \<Rightarrow> ((auth_cache \<times> stores) \<times> go_error option) outcome" where
  "syncRequest v request acst =
     (let (ac, st) = acst;
          lastKnownValue = lastKnown (reviewRecordStore st) (rq_namespace request)
      in if skipReview (Some request) lastKnownValue then Return ((ac, st), None)
         else
           let ns = rq_namespace request in
           case v_review v ns of
             (subjects, Some err) \<Rightarrow> Return ((ac, st), Some err)
           | (subjects, None) \<Rightarrow>
               let (users, groups) = review_subjects ns subjects ([], []);
                   st' = update_stores request lastKnownValue users groups st
               in bind_outcome (notifyWatchers (v_nsGet v) ns (NewString users) (NewString groups) ac)
                    (\<lambda>ac'. Return ((ac', st'), None)))"

text \<open>The errors of single requests are logged and the loop goes on.\<close>

fun sync_requests :: "sync_view \<Rightarrow> review_request list \<Rightarrow> auth_cache \<times> stores \<Rightarrow> (auth_cache \<times> stores) outcome" where
  "sync_requests v [] acst = Return acst"
| "sync_requests v (request # requests) acst =
     bind_outcome (syncRequest v request acst) (\<lambda>(acst', err). sync_requests v requests acst')"

definition namespace_request :: "namespace \<Rightarrow> review_request" where
  "namespace_request n = \<lparr>rq_namespace = ns_Name n, rq_namespaceResourceVersion = ns_ResourceVersion n,
     rq_roleUIDToResourceVersion = [], rq_roleBindingUIDToResourceVersion = []\<rparr>"

definition role_request :: "role \<Rightarrow> review_request" where
  "role_request r = \<lparr>rq_namespace = om_Namespace (role_ObjectMeta r), rq_namespaceResourceVersion = '''',
     rq_roleUIDToResourceVersion = [(om_UID (role_ObjectMeta r), om_ResourceVersion (role_ObjectMeta r))],
     rq_roleBindingUIDToResourceVersion = []\<rparr>"

definition binding_request :: "role_binding \<Rightarrow> review_request" where
  "binding_request b = \<lparr>rq_namespace = om_Namespace (rb_ObjectMeta b), rq_namespaceResourceVersion = '''',
     rq_roleUIDToResourceVersion = [],
     rq_roleBindingUIDToResourceVersion = [(om_UID (rb_ObjectMeta b), om_ResourceVersion (rb_ObjectMeta b))]\<rparr>"

text \<open>
  The set of the names seen is built beside the requests, and is nil when the lister fails.
\<close>

definition synchronizeNamespaces :: "sync_view \<Rightarrow> auth_cache \<times> stores \<Rightarrow> ((auth_cache \<times> stores) \<times> strset) outcome" where
  "synchronizeNamespaces v acst =
     (case v_namespaces v of
        Inl err \<Rightarrow> Return (acst, [])
      | Inr namespaces \<Rightarrow>
          bind_outcome (sync_requests v (map namespace_request namespaces) acst)
            (\<lambda>acst'. Return (acst', NewString (map ns_Name namespaces))))"

definition synchronizeRoles :: "sync_view \<Rightarrow> auth_cache \<times> stores \<Rightarrow> (auth_cache \<times> stores) outcome" where
  "synchronizeRoles v acst =
     (case v_roles v of
        Inl err \<Rightarrow> Return acst
      | Inr roles \<Rightarrow> sync_requests v (map role_request roles) acst)"

definition synchronizeRoleBindings :: "sync_view \<Rightarrow> auth_cache \<times> stores \<Rightarrow> (auth_cache \<times> stores) outcome" where
  "synchronizeRoleBindings v acst =
     (case v_roleBindings v of
        Inl err \<Rightarrow> Return acst
      | Inr roleBindings \<Rightarrow> sync_requests v (map binding_request roleBindings) acst)"

section \<open>Purging deleted namespaces\<close>

fun purge_loop :: "strset \<Rightarrow> review_record list \<Rightarrow> stores \<Rightarrow> stores" where
  "purge_loop newNamespaces [] st = st"
| "purge_loop newNamespaces (r # rs) st =
     purge_loop newNamespaces rs
       (if \<not> set_Has newNamespaces (rq_namespace r)
        then \<lparr>userSubjectRecordStore =
                deleteNamespaceFromSubjects (userSubjectRecordStore st) (rr_users r) (rq_namespace r),
              groupSubjectRecordStore =
                deleteNamespaceFromSubjects (groupSubjectRecordStore st) (rr_groups r) (rq_namespace r),
              reviewRecordStore = store_Delete reviewRecordKeyFn r (reviewRecordStore st)\<rparr>
        else st)"

fun notify_deleted :: "sync_view \<Rightarrow> string list \<Rightarrow> auth_cache \<Rightarrow> auth_cache outcome" where
  "notify_deleted v [] ac = Return ac"
| "notify_deleted v (ns # nss) ac =
     bind_outcome (notifyWatchers (v_nsGet v) ns [] [] ac) (notify_deleted v nss)"

definition purgeDeletedNamespaces :: "sync_view \<Rightarrow> strset \<Rightarrow> strset \<Rightarrow> auth_cache \<times> stores
    \<Rightarrow> (auth_cache \<times> stores) outcome" where
  "purgeDeletedNamespaces v oldNamespaces newNamespaces acst =
     (let (ac, st) = acst;
          st' = purge_loop newNamespaces (store_List (reviewRecordStore st)) st
      in bind_outcome (notify_deleted v (set_Difference oldNamespaces newNamespaces) ac)
           (\<lambda>ac'. Return (ac', st')))"

section \<open>Invalidating the cache\<close>

text \<open>
  \<open>temporaryVersions\<close> is one new set, at the next address: storing it in a field stores the address,
  and what is then deleted from it and inserted into it is seen through the field.
\<close>

definition versions_changed :: "strset \<Rightarrow> strset \<Rightarrow> bool" where
  "versions_changed stored temporary \<longleftrightarrow>
     length stored \<noteq> length temporary \<or> \<not> set_HasAll stored (set_List temporary)"

definition invalidateCache :: "sync_view \<Rightarrow> auth_cache \<Rightarrow> bool \<times> auth_cache" where
  "invalidateCache v ac =
     (case v_clusterRoles v of
        Inl err \<Rightarrow> (False, ac)
      | Inr clusterRoles \<Rightarrow>
          let temporaryVersions = length (ac_sets ac);
              sets = ac_sets ac @ [set_Insert (NewString []) (map (\<lambda>r. om_ResourceVersion (cr_ObjectMeta r)) clusterRoles)];
              (invalidate, ac) =
                (if versions_changed (sets ! clusterRoleResourceVersions ac) (sets ! temporaryVersions)
                 then (True, ac\<lparr>clusterRoleResourceVersions := temporaryVersions\<rparr>) else (False, ac))
          in case v_clusterRoleBindings v of
               Inl err \<Rightarrow> (invalidate, ac\<lparr>ac_sets := sets\<rparr>)
             | Inr clusterRoleBindings \<Rightarrow>
                 let sets = sets[temporaryVersions := set_Delete (sets ! temporaryVersions) (set_List (sets ! temporaryVersions))];
                     sets = sets[temporaryVersions := set_Insert (sets ! temporaryVersions)
                       (map (\<lambda>b. om_ResourceVersion (crb_ObjectMeta b)) clusterRoleBindings)];
                     (invalidate, ac) =
                       (if versions_changed (sets ! clusterRoleBindingResourceVersions ac) (sets ! temporaryVersions)
                        then (True, ac\<lparr>clusterRoleBindingResourceVersions := temporaryVersions\<rparr>)
                        else (invalidate, ac))
                 in (invalidate, ac\<lparr>ac_sets := sets\<rparr>))"

section \<open>A synchronization\<close>

text \<open>
  The stores worked on are the cache's own, or new ones that replace them at the end when the whole
  cache is invalidated. Whether to skip is decided by the cache's \<^verbatim>\<open>skipSynchronizer\<close>, which the constructor
  sets to the stateless one.
\<close>

definition synchronize_with :: "(string \<Rightarrow> string list \<Rightarrow> bool \<times> string) \<Rightarrow> sync_view \<Rightarrow> auth_cache \<Rightarrow> auth_cache outcome" where
  "synchronize_with SkipSynchronize v ac =
     (let (skip, currentState) = SkipSynchronize (lastState ac) (current_versions v)
      in if skip then Return ac
         else
           let (invalidate, ac1) = invalidateCache v ac;
               st = (if invalidate then NewStores else ac_stores ac1)
           in bind_outcome (synchronizeNamespaces v (ac1, st)) (\<lambda>(acst, newKnownNamespaces).
              bind_outcome (synchronizeRoles v acst) (\<lambda>acst.
              bind_outcome (synchronizeRoleBindings v acst) (\<lambda>acst.
              bind_outcome (purgeDeletedNamespaces v (allKnownNamespaces (fst acst)) newKnownNamespaces acst)
                (\<lambda>(ac2, st2). Return (ac2\<lparr>ac_stores := st2, allKnownNamespaces := newKnownNamespaces,
                   lastState := currentState\<rparr>))))))"

definition synchronize :: "sync_view \<Rightarrow> auth_cache \<Rightarrow> auth_cache outcome" where
  "synchronize = synchronize_with stateless_SkipSynchronize"

definition ReadyForAccess :: "auth_cache \<Rightarrow> bool" where
  "ReadyForAccess ac \<longleftrightarrow> length (lastState ac) > 0"

text \<open>
  \<^verbatim>\<open>skipSynchronizer\<close>: it says to skip only when the state it gives is the one it was given. Then the state
  the cache holds after every synchronization that returns is the one it gave, skipped or not.
\<close>

locale skip_synchronizer =
  fixes SkipSynchronize :: "string \<Rightarrow> string list \<Rightarrow> bool \<times> string"
  assumes skip_same: "SkipSynchronize prevState versions = (True, currentState) \<Longrightarrow> currentState = prevState"
begin

lemma records_state:
  assumes "synchronize_with SkipSynchronize v ac = Return ac'"
  shows "lastState ac' = snd (SkipSynchronize (lastState ac) (current_versions v))"
proof (cases "SkipSynchronize (lastState ac) (current_versions v)")
  case (Pair skip currentState)
  show ?thesis
  proof (cases skip)
    case True
    with assms Pair have "ac' = ac" by (simp add: synchronize_with_def)
    moreover have "currentState = lastState ac"
      using True Pair by (intro skip_same) simp
    ultimately show ?thesis using Pair by simp

  qed (use assms Pair in \<open>auto simp: synchronize_with_def Let_def split: prod.splits\<close>)
qed

lemma ready_iff:
  "synchronize_with SkipSynchronize v ac = Return ac' \<Longrightarrow>
   ReadyForAccess ac' \<longleftrightarrow> snd (SkipSynchronize (lastState ac) (current_versions v)) \<noteq> ''''"
  by (simp add: records_state ReadyForAccess_def)

end

interpretation stateless: skip_synchronizer stateless_SkipSynchronize
  by unfold_locales (simp add: stateless_SkipSynchronize_def Let_def)

interpretation never: skip_synchronizer never_SkipSynchronize
  by unfold_locales (simp add: never_SkipSynchronize_def)

text \<open>With the synchronizer that never skips, as tests use it, the cache is never ready.\<close>

lemma never_skipping_never_ready: "synchronize_with never_SkipSynchronize v ac = Return ac' \<Longrightarrow> \<not> ReadyForAccess ac'"
  using never.ready_iff by (simp add: never_SkipSynchronize_def)

lemma synchronize_lastState: "synchronize v ac = Return ac' \<Longrightarrow> lastState ac' = Join (current_versions v) '',''"
  using stateless.records_state by (simp add: synchronize_def stateless_SkipSynchronize_def Let_def)

section \<open>Listing\<close>

fun group_keys :: "subject_store \<Rightarrow> string list \<Rightarrow> strset \<Rightarrow> strset" where
  "group_keys st [] keys = keys"
| "group_keys st (gr # grs) keys =
     group_keys st grs
       (case store_GetByKey st gr of
          None \<Rightarrow> keys
        | Some r \<Rightarrow> set_Insert keys (set_List (sr_namespaces r)))"

fun list_namespaces :: "(string \<Rightarrow> go_error + namespace) \<Rightarrow> string list \<Rightarrow> namespace list
    \<Rightarrow> go_error + namespace list" where
  "list_namespaces nsGet [] items = Inr items"
| "list_namespaces nsGet (key # keys) items =
     (case nsGet key of
        Inl err \<Rightarrow> if IsNotFound err then list_namespaces nsGet keys items else Inl err
      | Inr n \<Rightarrow> list_namespaces nsGet keys (items @ [n]))"

definition visible_keys :: "stores \<Rightarrow> user_info \<Rightarrow> strset" where
  "visible_keys st user =
     group_keys (groupSubjectRecordStore st) (ui_Groups user)
       (case store_GetByKey (userSubjectRecordStore st) (ui_Name user) of
          None \<Rightarrow> []
        | Some r \<Rightarrow> set_Insert [] (set_List (sr_namespaces r)))"

definition cache_List :: "(string \<Rightarrow> go_error + namespace) \<Rightarrow> auth_cache \<Rightarrow> user_info
    \<Rightarrow> go_error + namespace list" where
  "cache_List nsGet ac user = list_namespaces nsGet (visible_keys (ac_stores ac) user) []"

section \<open>Notification\<close>

lemma remove_watcher_remove1: "remove_watcher xs x = remove1 x xs"
  by (induction xs) auto

text \<open>Inside the loop the lock is held, so a watcher that asks to be removed blocks it.\<close>

lemma RemoveWatcher_locked [simp]: "watcherLock ac \<Longrightarrow> RemoveWatcher i ac = Blocked"
  by (simp add: RemoveWatcher_def)

definition watcher_has_room :: "(string \<Rightarrow> go_error + namespace) \<Rightarrow> string \<Rightarrow> strset \<Rightarrow> strset
    \<Rightarrow> user_project_watcher \<Rightarrow> bool" where
  "watcher_has_room nsGet ns users groups w \<longleftrightarrow>
     membership_event nsGet ns users groups w = None \<or> length (w_cacheIncoming w) < cacheIncoming_cap"

lemma notification_locked:
  assumes "watcherLock ac"
  shows "(\<exists>w'. GroupMembershipChanged (RemoveWatcher i) nsGet ns users groups ac w = Return (ac, w')) \<and>
      watcher_has_room nsGet ns users groups w \<or>
    GroupMembershipChanged (RemoveWatcher i) nsGet ns users groups ac w = Blocked \<and>
      \<not> watcher_has_room nsGet ns users groups w"
  using assms
  by (auto simp: GroupMembershipChanged_event watcher_has_room_def send_incoming_def split: option.splits)

lemma notify_loop_frame:
  assumes "watcherLock ac" and "notify_loop nsGet ns users groups ids ac = Return ac'"
  shows "\<exists>objs. ac' = ac\<lparr>ac_watcherObjects := objs\<rparr>"
  using assms
proof (induction nsGet ns users groups ids ac rule: notify_loop.induct)
  case (1 nsGet ns users groups ac)
  then show ?case by (intro exI [of _ "ac_watcherObjects ac"]) simp
next
  case (2 nsGet ns users groups i ids ac)
  from 2(3) obtain ac1 w' where g: "GroupMembershipChanged (RemoveWatcher i) nsGet ns users groups ac
      (ac_watcherObjects ac i) = Return (ac1, w')"
    and l: "notify_loop nsGet ns users groups ids (ac1\<lparr>ac_watcherObjects := (ac_watcherObjects ac1)(i := w')\<rparr>) = Return ac'"
    by auto
  have "ac1 = ac"
    using notification_locked [OF 2(2), of i nsGet ns users groups "ac_watcherObjects ac i"] g by auto
  with 2(1) [OF g refl _ l] 2(2) show ?case by auto
qed

lemma notifyWatchers_frame:
  assumes "notifyWatchers nsGet ns users groups ac = Return ac'"
  shows "\<exists>objs. ac' = ac\<lparr>ac_watcherObjects := objs\<rparr>"
proof -
  from assms obtain ac1 where unlocked: "\<not> watcherLock ac"
    and l: "notify_loop nsGet ns users groups (ac_watchers ac) (ac\<lparr>watcherLock := True\<rparr>) = Return ac1"
    and ac': "ac' = ac1\<lparr>watcherLock := False\<rparr>"
    by (auto simp: notifyWatchers_def split: if_splits)
  from notify_loop_frame [OF _ l] obtain objs where "ac1 = ac\<lparr>watcherLock := True, ac_watcherObjects := objs\<rparr>"
    by auto
  with unlocked ac' have "ac' = ac\<lparr>ac_watcherObjects := objs\<rparr>"
    by (cases ac) simp
  then show ?thesis by blast
qed

lemma notify_loop_returns:
  assumes "watcherLock ac" and "distinct ids"
  shows "notify_loop nsGet ns users groups ids ac = Blocked \<and>
      (\<exists>i \<in> set ids. \<not> watcher_has_room nsGet ns users groups (ac_watcherObjects ac i)) \<or>
    (\<exists>ac'. notify_loop nsGet ns users groups ids ac = Return ac') \<and>
      (\<forall>i \<in> set ids. watcher_has_room nsGet ns users groups (ac_watcherObjects ac i))"
  using assms
proof (induction nsGet ns users groups ids ac rule: notify_loop.induct)
  case (2 nsGet ns users groups i ids ac)
  consider (room) w' where "GroupMembershipChanged (RemoveWatcher i) nsGet ns users groups ac (ac_watcherObjects ac i)
        = Return (ac, w')" "watcher_has_room nsGet ns users groups (ac_watcherObjects ac i)"
    | (full) "GroupMembershipChanged (RemoveWatcher i) nsGet ns users groups ac (ac_watcherObjects ac i) = Blocked"
        "\<not> watcher_has_room nsGet ns users groups (ac_watcherObjects ac i)"
    using notification_locked [OF 2(2), of i nsGet ns users groups "ac_watcherObjects ac i"] by blast
  then show ?case
  proof cases
    case room
    let ?ac = "ac\<lparr>ac_watcherObjects := (ac_watcherObjects ac)(i := w')\<rparr>"
    have same: "ac_watcherObjects ?ac j = ac_watcherObjects ac j" if "j \<in> set ids" for j
      using that 2(3) by auto
    have "notify_loop nsGet ns users groups ids ?ac = Blocked \<and>
        (\<exists>j \<in> set ids. \<not> watcher_has_room nsGet ns users groups (ac_watcherObjects ?ac j)) \<or>
      (\<exists>ac'. notify_loop nsGet ns users groups ids ?ac = Return ac') \<and>
        (\<forall>j \<in> set ids. watcher_has_room nsGet ns users groups (ac_watcherObjects ?ac j))"
      using 2(1) [OF room(1) refl] 2(2,3) by simp
    then show ?thesis using room same by auto
  next
    case full
    then show ?thesis by auto
  qed
qed simp

lemma notifyWatchers_returns:
  assumes "\<not> watcherLock ac" and "distinct (ac_watchers ac)"
  shows "notifyWatchers nsGet ns users groups ac = Blocked \<and>
      (\<exists>i \<in> set (ac_watchers ac). \<not> watcher_has_room nsGet ns users groups (ac_watcherObjects ac i)) \<or>
    (\<exists>ac'. notifyWatchers nsGet ns users groups ac = Return ac') \<and>
      (\<forall>i \<in> set (ac_watchers ac). watcher_has_room nsGet ns users groups (ac_watcherObjects ac i))"
  using notify_loop_returns [of "ac\<lparr>watcherLock := True\<rparr>" "ac_watchers ac" nsGet ns users groups] assms
  by (auto simp: notifyWatchers_def)

lemma notifyWatchers_none: "\<not> watcherLock ac \<Longrightarrow> ac_watchers ac = [] \<Longrightarrow>
    notifyWatchers nsGet ns users groups ac = Return ac"
  by (cases ac) (simp add: notifyWatchers_def)

text \<open>
  Outside a notification the cache is what a watcher expects of it.
\<close>

interpretation cachew: watchable_cache "RemoveWatcher i" "\<lambda>ac. i \<in> set (ac_watchers ac)"
  "\<lambda>ac. \<not> watcherLock ac \<and> distinct (ac_watchers ac)" for i
proof unfold_locales
  fix ac :: auth_cache
  assume "\<not> watcherLock ac \<and> distinct (ac_watchers ac)"
  then show "\<exists>ac'. RemoveWatcher i ac = Return ac' \<and> i \<notin> set (ac_watchers ac') \<and>
      (\<not> watcherLock ac' \<and> distinct (ac_watchers ac'))"
    by (auto simp: RemoveWatcher_def remove_watcher_remove1)
qed

section \<open>The index\<close>

text \<open>The users and groups the last review of a namespace found, and whether there was one.\<close>

definition access_of :: "stores \<Rightarrow> string \<Rightarrow> (string set \<times> string set) option" where
  "access_of st ns = (case lastKnown (reviewRecordStore st) ns of
     None \<Rightarrow> None
   | Some r \<Rightarrow> Some (set (rr_users r), set (rr_groups r)))"

definition access_users :: "stores \<Rightarrow> string \<Rightarrow> string set" where
  "access_users st ns = (case access_of st ns of None \<Rightarrow> {} | Some (U, G) \<Rightarrow> U)"

definition access_groups :: "stores \<Rightarrow> string \<Rightarrow> string set" where
  "access_groups st ns = (case access_of st ns of None \<Rightarrow> {} | Some (U, G) \<Rightarrow> G)"

text \<open>
  The subject stores hold the inverse of the review records: a namespace is among a subject's exactly
  when the namespace's record has the subject.
\<close>

definition index_inv :: "stores \<Rightarrow> bool" where
  "index_inv st \<longleftrightarrow>
     subject_store_wf (userSubjectRecordStore st) \<and> subject_store_wf (groupSubjectRecordStore st) \<and>
     store_wf reviewRecordKeyFn (reviewRecordStore st) \<and>
     (\<forall>ns u. ns \<in> granted (userSubjectRecordStore st) u \<longleftrightarrow> u \<in> access_users st ns) \<and>
     (\<forall>ns g. ns \<in> granted (groupSubjectRecordStore st) g \<longleftrightarrow> g \<in> access_groups st ns)"

lemma index_inv_New: "index_inv NewStores"
  by (simp add: index_inv_def NewStores_def subject_store_wf_NewStore st.wf_empty access_users_def
      access_groups_def access_of_def lastKnown_def granted_def st.get_empty)

lemma access_of_New [simp]: "access_of NewStores ns = None"
  by (simp add: access_of_def NewStores_def lastKnown_def st.get_empty)

lemma lastKnown_New [simp]: "lastKnown (reviewRecordStore NewStores) ns = None"
  by (simp add: NewStores_def lastKnown_def st.get_empty)

lemma access_users_lastKnown:
  "access_users st ns = (case lastKnown (reviewRecordStore st) ns of None \<Rightarrow> {} | Some r \<Rightarrow> set (rr_users r))"
  by (simp add: access_users_def access_of_def split: option.splits)

lemma access_groups_lastKnown:
  "access_groups st ns = (case lastKnown (reviewRecordStore st) ns of None \<Rightarrow> {} | Some r \<Rightarrow> set (rr_groups r))"
  by (simp add: access_groups_def access_of_def split: option.splits)

lemma index_inv_user: "index_inv st \<Longrightarrow> ns \<in> granted (userSubjectRecordStore st) u \<longleftrightarrow> u \<in> access_users st ns"
  by (simp add: index_inv_def)

lemma index_inv_group: "index_inv st \<Longrightarrow> ns \<in> granted (groupSubjectRecordStore st) g \<longleftrightarrow> g \<in> access_groups st ns"
  by (simp add: index_inv_def)

lemma lastKnown_cacheReviewRecord:
  "ns \<noteq> rq_namespace rq \<Longrightarrow> lastKnown (cacheReviewRecord rq lk users groups st) ns = lastKnown st ns"
  by (cases lk) (simp_all add: cacheReviewRecord_def lastKnown_def store_GetByKey_Add reviewRecordKeyFn_def)

lemma cached_users:
  "\<exists>r. lastKnown (cacheReviewRecord rq lk users groups st) (rq_namespace rq) = Some r \<and>
     rr_users r = users \<and> rr_groups r = groups"
  by (cases lk) (simp_all add: cacheReviewRecord_def lastKnown_def store_GetByKey_Add reviewRecordKeyFn_def)

lemma reviewRecordStore_update:
  "reviewRecordStore (update_stores rq lk users groups st) = cacheReviewRecord rq lk users groups (reviewRecordStore st)"
  by (simp add: update_stores_def Let_def split: option.splits)

lemma access_of_update_stores:
  "access_of (update_stores rq lk users groups st) ns =
     (if ns = rq_namespace rq then Some (set users, set groups) else access_of st ns)"
proof (cases "ns = rq_namespace rq")
  case True
  obtain r where "lastKnown (cacheReviewRecord rq lk users groups (reviewRecordStore st)) (rq_namespace rq) = Some r"
    "rr_users r = users" "rr_groups r = groups"
    using cached_users by blast
  with True show ?thesis by (simp add: access_of_def reviewRecordStore_update)
qed (simp add: access_of_def reviewRecordStore_update lastKnown_cacheReviewRecord)

lemma lastKnown_update_stores:
  "ns \<noteq> rq_namespace rq \<Longrightarrow>
     lastKnown (reviewRecordStore (update_stores rq lk users groups st)) ns = lastKnown (reviewRecordStore st) ns"
  by (simp add: reviewRecordStore_update lastKnown_cacheReviewRecord)

lemma store_wf_cacheReviewRecord:
  "store_wf reviewRecordKeyFn st \<Longrightarrow> store_wf reviewRecordKeyFn (cacheReviewRecord rq lk users groups st)"
  by (simp add: cacheReviewRecord_def store_wf_Add split_def Let_def)

text \<open>The names to remove are those of the last review that the new one does not have.\<close>

definition removed_names :: "string list \<Rightarrow> string list \<Rightarrow> string list" where
  "removed_names old new = set_List (set_Delete (set_Insert (NewString []) old) new)"

lemma removed_names_set: "set (removed_names old new) = set old - set new"
  by (simp add: removed_names_def cache_simps)

lemma update_stores_subjects:
  "userSubjectRecordStore (update_stores rq lk users groups st) = addSubjectsToNamespace
     (deleteNamespaceFromSubjects (userSubjectRecordStore st)
        (case lk of None \<Rightarrow> [] | Some r \<Rightarrow> removed_names (rr_users r) users) (rq_namespace rq)) users (rq_namespace rq)"
  "groupSubjectRecordStore (update_stores rq lk users groups st) = addSubjectsToNamespace
     (deleteNamespaceFromSubjects (groupSubjectRecordStore st)
        (case lk of None \<Rightarrow> [] | Some r \<Rightarrow> removed_names (rr_groups r) groups) (rq_namespace rq)) groups (rq_namespace rq)"
  by (simp_all add: update_stores_def removed_names_def Let_def set_List_def split: option.splits)

lemma update_stores_inv:
  assumes inv: "index_inv st" and lk: "lk = lastKnown (reviewRecordStore st) (rq_namespace rq)"
  shows "index_inv (update_stores rq lk users groups st)"
proof -
  let ?st = "update_stores rq lk users groups st" and ?ns = "rq_namespace rq"
  let ?oldu = "case lk of None \<Rightarrow> [] | Some r \<Rightarrow> rr_users r"
  let ?oldg = "case lk of None \<Rightarrow> [] | Some r \<Rightarrow> rr_groups r"
  have wf: "subject_store_wf (userSubjectRecordStore st)" "subject_store_wf (groupSubjectRecordStore st)"
    "store_wf reviewRecordKeyFn (reviewRecordStore st)"
    using inv by (simp_all add: index_inv_def)
  have u: "?ns \<in> granted (userSubjectRecordStore st) x \<longleftrightarrow> x \<in> set ?oldu" for x
    using index_inv_user [OF inv] lk by (simp add: access_users_lastKnown split: option.splits)
  have g: "?ns \<in> granted (groupSubjectRecordStore st) x \<longleftrightarrow> x \<in> set ?oldg" for x
    using index_inv_group [OF inv] lk by (simp add: access_groups_lastKnown split: option.splits)
  have ru: "set (case lk of None \<Rightarrow> [] | Some r \<Rightarrow> removed_names (rr_users r) users) = set ?oldu - set users"
    by (cases lk) (simp_all add: removed_names_set)
  have rg: "set (case lk of None \<Rightarrow> [] | Some r \<Rightarrow> removed_names (rr_groups r) groups) = set ?oldg - set groups"
    by (cases lk) (simp_all add: removed_names_set)
  have au: "access_users ?st ns = (if ns = ?ns then set users else access_users st ns)"
    and ag: "access_groups ?st ns = (if ns = ?ns then set groups else access_groups st ns)" for ns
    by (simp_all add: access_users_def access_groups_def access_of_update_stores)
  have "ns \<in> granted (userSubjectRecordStore ?st) x \<longleftrightarrow> x \<in> access_users ?st ns" for ns x
    using subj.replace_access [OF wf(1) u ru, of ns x] index_inv_user [OF inv]
    by (simp add: update_stores_subjects au)
  moreover have "ns \<in> granted (groupSubjectRecordStore ?st) x \<longleftrightarrow> x \<in> access_groups ?st ns" for ns x
    using subj.replace_access [OF wf(2) g rg, of ns x] index_inv_group [OF inv]
    by (simp add: update_stores_subjects ag)
  ultimately show ?thesis
    using wf by (simp add: index_inv_def update_stores_subjects reviewRecordStore_update subj.replace_wf store_wf_cacheReviewRecord)
qed

text \<open>What a review of a namespace finds, when it succeeds.\<close>

definition review_of :: "sync_view \<Rightarrow> string \<Rightarrow> (string set \<times> string set) option" where
  "review_of v ns = (case v_review v ns of
     (subjects, Some err) \<Rightarrow> None
   | (subjects, None) \<Rightarrow> Some (set (List.map_filter (subject_user ns) subjects),
                                set (List.map_filter subject_group subjects)))"

lemma syncRequest_cases:
  assumes "syncRequest v rq (ac, st) = Return ((ac', st'), err)"
  obtains (skipped) "skipReview (Some rq) (lastKnown (reviewRecordStore st) (rq_namespace rq))"
      "st' = st" "ac' = ac"
    | (failed) e where "\<not> skipReview (Some rq) (lastKnown (reviewRecordStore st) (rq_namespace rq))"
      "review_of v (rq_namespace rq) = None" "err = Some e" "st' = st" "ac' = ac"
    | (reviewed) users groups objs where
      "\<not> skipReview (Some rq) (lastKnown (reviewRecordStore st) (rq_namespace rq))"
      "review_of v (rq_namespace rq) = Some (set users, set groups)"
      "st' = update_stores rq (lastKnown (reviewRecordStore st) (rq_namespace rq)) users groups st"
      "ac' = ac\<lparr>ac_watcherObjects := objs\<rparr>"
      "notifyWatchers (v_nsGet v) (rq_namespace rq) (NewString users) (NewString groups) ac = Return ac'"
proof (cases "skipReview (Some rq) (lastKnown (reviewRecordStore st) (rq_namespace rq))")
  case True
  with assms have "st' = st" "ac' = ac" by (simp_all add: syncRequest_def)
  then show ?thesis by (rule skipped [OF True])
next
  case False
  obtain subjects e where r: "v_review v (rq_namespace rq) = (subjects, e)" by fastforce
  show ?thesis
  proof (cases e)
    case (Some e')
    with False r assms have "err = Some e'" "st' = st" "ac' = ac" by (simp_all add: syncRequest_def)
    then show ?thesis by (intro failed [OF False]) (simp_all add: review_of_def r Some)
  next
    case None
    let ?us = "List.map_filter (subject_user (rq_namespace rq)) subjects"
    let ?gs = "List.map_filter subject_group subjects"
    have n: "notifyWatchers (v_nsGet v) (rq_namespace rq) (NewString ?us) (NewString ?gs) ac = Return ac'"
      and st': "st' = update_stores rq (lastKnown (reviewRecordStore st) (rq_namespace rq)) ?us ?gs st"
      using False r None assms by (auto simp: syncRequest_def review_subjects_split Let_def)
    obtain objs where ac': "ac' = ac\<lparr>ac_watcherObjects := objs\<rparr>"
      using notifyWatchers_frame [OF n] by blast
    show ?thesis
      by (rule reviewed [OF False _ st' ac' n]) (simp add: review_of_def r None)
  qed
qed

end
