(* ===== verification/RbacAllows.thy ===== *)
theory RbacAllows
  imports ApiTypes
begin

text \<open>
  \<^verbatim>\<open>pkg/apiserver/rbac/allows.go\<close>: does a list of policy rules allow a request. Each matcher is the
  loop of the source with its early returns; the lemmas in \<open>rbac_simps\<close> say what the loop decides.
\<close>

section \<open>The matchers\<close>

definition VerbAll :: string where "VerbAll = ''*''"

definition APIGroupAll :: string where "APIGroupAll = ''*''"

definition ResourceAll :: string where "ResourceAll = ''*''"

definition NonResourceAll :: string where "NonResourceAll = ''*''"

fun verb_loop :: "string list \<Rightarrow> string \<Rightarrow> bool" where
  "verb_loop [] requestedVerb = False"
| "verb_loop (ruleVerb # rest) requestedVerb =
     (if ruleVerb = VerbAll then True
      else if ruleVerb = requestedVerb then True
      else verb_loop rest requestedVerb)"

definition VerbMatches :: "policy_rule \<Rightarrow> string \<Rightarrow> bool" where
  "VerbMatches rule requestedVerb = verb_loop (Verbs rule) requestedVerb"

fun group_loop :: "string list \<Rightarrow> string \<Rightarrow> bool" where
  "group_loop [] requestedGroup = False"
| "group_loop (ruleGroup # rest) requestedGroup =
     (if ruleGroup = APIGroupAll then True
      else if ruleGroup = requestedGroup then True
      else group_loop rest requestedGroup)"

definition APIGroupMatches :: "policy_rule \<Rightarrow> string \<Rightarrow> bool" where
  "APIGroupMatches rule requestedGroup = group_loop (APIGroups rule) requestedGroup"

fun resource_loop :: "string list \<Rightarrow> string \<Rightarrow> string \<Rightarrow> bool" where
  "resource_loop [] combinedRequestedResource requestedSubresource = False"
| "resource_loop (ruleResource # rest) combinedRequestedResource requestedSubresource =
     (if ruleResource = ResourceAll then True
      else if ruleResource = combinedRequestedResource then True
      else if length requestedSubresource = 0
        then resource_loop rest combinedRequestedResource requestedSubresource
      else if length ruleResource = length requestedSubresource + 2 \<and>
          HasPrefix ruleResource ''*/'' \<and> HasSuffix ruleResource requestedSubresource then True
      else resource_loop rest combinedRequestedResource requestedSubresource)"

definition ResourceMatches :: "policy_rule \<Rightarrow> string \<Rightarrow> string \<Rightarrow> bool" where
  "ResourceMatches rule combinedRequestedResource requestedSubresource =
     resource_loop (Resources rule) combinedRequestedResource requestedSubresource"

fun name_loop :: "string list \<Rightarrow> string \<Rightarrow> bool" where
  "name_loop [] requestedName = False"
| "name_loop (ruleName # rest) requestedName =
     (if ruleName = requestedName then True else name_loop rest requestedName)"

definition ResourceNameMatches :: "policy_rule \<Rightarrow> string \<Rightarrow> bool" where
  "ResourceNameMatches rule requestedName =
     (if length (ResourceNames rule) = 0 then True
      else name_loop (ResourceNames rule) requestedName)"

fun url_loop :: "string list \<Rightarrow> string \<Rightarrow> bool" where
  "url_loop [] requestedURL = False"
| "url_loop (ruleURL # rest) requestedURL =
     (if ruleURL = NonResourceAll then True
      else if ruleURL = requestedURL then True
      else if HasSuffix ruleURL ''*'' \<and> HasPrefix requestedURL (TrimRight ruleURL ''*'') then True
      else url_loop rest requestedURL)"

definition NonResourceURLMatches :: "policy_rule \<Rightarrow> string \<Rightarrow> bool" where
  "NonResourceURLMatches rule requestedURL = url_loop (NonResourceURLs rule) requestedURL"

definition RuleAllows :: "attributes \<Rightarrow> policy_rule \<Rightarrow> bool" where
  "RuleAllows requestAttributes rule =
     (if attr_ResourceRequest requestAttributes then
        let combinedResource =
          (if length (attr_Subresource requestAttributes) > 0
           then attr_Resource requestAttributes @ ''/'' @ attr_Subresource requestAttributes
           else attr_Resource requestAttributes)
        in VerbMatches rule (attr_Verb requestAttributes) \<and>
           APIGroupMatches rule (attr_APIGroup requestAttributes) \<and>
           ResourceMatches rule combinedResource (attr_Subresource requestAttributes) \<and>
           ResourceNameMatches rule (attr_Name requestAttributes)
      else VerbMatches rule (attr_Verb requestAttributes) \<and>
           NonResourceURLMatches rule (attr_Path requestAttributes))"

fun RulesAllow :: "attributes \<Rightarrow> policy_rule list \<Rightarrow> bool" where
  "RulesAllow requestAttributes [] = False"
| "RulesAllow requestAttributes (rule # rules) =
     (if RuleAllows requestAttributes rule then True else RulesAllow requestAttributes rules)"

text \<open>\<^verbatim>\<open>SubjectsStrings\<close>: users, groups, service accounts and unknown subjects for display.\<close>

fun subjects_loop :: "subject list \<Rightarrow> string list \<times> string list \<times> string list \<times> string list
    \<Rightarrow> string list \<times> string list \<times> string list \<times> string list" where
  "subjects_loop [] acc = acc"
| "subjects_loop (s # ss) (users, groups, sas, others) =
     subjects_loop ss
       (if subj_Kind s = ServiceAccountKind then
          (users, groups, sas @ [subj_Namespace s @ ''/'' @ subj_Name s], others)
        else if subj_Kind s = UserKind then (users @ [subj_Name s], groups, sas, others)
        else if subj_Kind s = GroupKind then (users, groups @ [subj_Name s], sas, others)
        else (users, groups, sas,
          others @ [subj_Kind s @ ''/'' @ subj_Namespace s @ ''/'' @ subj_Name s]))"

definition SubjectsStrings :: "subject list \<Rightarrow> string list \<times> string list \<times> string list \<times> string list" where
  "SubjectsStrings subjects = subjects_loop subjects ([], [], [], [])"

section \<open>What the loops decide\<close>

lemma VerbMatches_iff [rbac_simps]:
  "VerbMatches rule v \<longleftrightarrow> VerbAll \<in> set (Verbs rule) \<or> v \<in> set (Verbs rule)"
proof -
  have "verb_loop vs v \<longleftrightarrow> VerbAll \<in> set vs \<or> v \<in> set vs" for vs
    by (induction vs) auto
  then show ?thesis by (simp add: VerbMatches_def)
qed

lemma APIGroupMatches_iff [rbac_simps]:
  "APIGroupMatches rule g \<longleftrightarrow> APIGroupAll \<in> set (APIGroups rule) \<or> g \<in> set (APIGroups rule)"
proof -
  have "group_loop gs g \<longleftrightarrow> APIGroupAll \<in> set gs \<or> g \<in> set gs" for gs
    by (induction gs) auto
  then show ?thesis by (simp add: APIGroupMatches_def)
qed

lemma ResourceNameMatches_iff [rbac_simps]:
  "ResourceNameMatches rule n \<longleftrightarrow> ResourceNames rule = [] \<or> n \<in> set (ResourceNames rule)"
proof -
  have "name_loop ns n \<longleftrightarrow> n \<in> set ns" for ns
    by (induction ns) auto
  then show ?thesis by (auto simp: ResourceNameMatches_def)
qed

text \<open>
  The length, prefix and suffix tests together say that the rule is exactly \<^verbatim>\<open>*/sub\<close>: the length
  keeps the prefix and the suffix from overlapping.
\<close>

lemma star_slash_iff:
  "length r = length sub + 2 \<and> HasPrefix r ''*/'' \<and> HasSuffix r sub \<longleftrightarrow> r = ''*/'' @ sub"
proof
  assume l: "length r = length sub + 2 \<and> HasPrefix r ''*/'' \<and> HasSuffix r sub"
  then have "take 2 r = ''*/''" "drop 2 r = sub"
    by (auto simp: HasPrefix_def HasSuffix_def numeral_2_eq_2)
  then show "r = ''*/'' @ sub"
    by (metis append_take_drop_id)
qed (simp add: HasPrefix_def HasSuffix_def)

lemma ResourceMatches_iff [rbac_simps]:
  "ResourceMatches rule combined sub \<longleftrightarrow>
     ResourceAll \<in> set (Resources rule) \<or> combined \<in> set (Resources rule) \<or>
     (sub \<noteq> [] \<and> ''*/'' @ sub \<in> set (Resources rule))"
proof -
  have "resource_loop rs combined sub \<longleftrightarrow>
      ResourceAll \<in> set rs \<or> combined \<in> set rs \<or> (sub \<noteq> [] \<and> ''*/'' @ sub \<in> set rs)" for rs
  proof (induction rs)
    case (Cons r rs)
    then show ?case
      by (simp only: resource_loop.simps star_slash_iff) auto
  qed simp
  then show ?thesis by (simp add: ResourceMatches_def)
qed

lemma star_url_iff:
  "HasSuffix u ''*'' \<and> HasPrefix req (TrimRight u ''*'') \<longleftrightarrow>
     (\<exists>p n. u = p @ replicate (Suc n) (CHR ''*'') \<and> (p = [] \<or> last p \<noteq> CHR ''*'') \<and> prefix p req)"
proof
  assume l: "HasSuffix u ''*'' \<and> HasPrefix req (TrimRight u ''*'')"
  obtain n where n: "u = TrimRight u ''*'' @ replicate n (CHR ''*'')"
    using TrimRight_decomp by blast
  have "n \<noteq> 0"
  proof
    assume "n = 0"
    with n have u: "TrimRight u ''*'' = u" by simp
    from l have "u \<noteq> []" "last u = CHR ''*''"
      by (auto simp: go_simps suffix_def)
    with TrimRight_last [of u "CHR ''*''"] u show False by simp
  qed
  then obtain m where "n = Suc m" by (cases n) auto
  with n l TrimRight_last [of u "CHR ''*''"]
  show "\<exists>p n. u = p @ replicate (Suc n) (CHR ''*'') \<and> (p = [] \<or> last p \<noteq> CHR ''*'') \<and> prefix p req"
    by (auto simp: go_simps)
next
  assume "\<exists>p n. u = p @ replicate (Suc n) (CHR ''*'') \<and> (p = [] \<or> last p \<noteq> CHR ''*'') \<and> prefix p req"
  then obtain p n where u: "u = p @ replicate (Suc n) (CHR ''*'')"
    and p: "p = [] \<or> last p \<noteq> CHR ''*''" and req: "prefix p req" by blast
  have "dropWhile (\<lambda>c. c = CHR ''*'') (rev p) = rev p"
    using p by (cases "rev p") (auto simp: last_rev [symmetric])
  then have "TrimRight u ''*'' = p"
    by (simp add: u TrimRight_def dropWhile_append del: replicate_Suc)
  moreover have "suffix ''*'' u"
    by (simp add: u suffix_def replicate_append_same [symmetric])
  ultimately show "HasSuffix u ''*'' \<and> HasPrefix req (TrimRight u ''*'')"
    using req by (simp add: go_simps)
qed

lemma NonResourceURLMatches_loop:
  "NonResourceURLMatches rule req \<longleftrightarrow> (\<exists>u \<in> set (NonResourceURLs rule).
     u = NonResourceAll \<or> u = req \<or> (HasSuffix u ''*'' \<and> HasPrefix req (TrimRight u ''*'')))"
proof -
  have "url_loop us req \<longleftrightarrow> (\<exists>u \<in> set us.
      u = NonResourceAll \<or> u = req \<or> (HasSuffix u ''*'' \<and> HasPrefix req (TrimRight u ''*'')))" for us
    by (induction us) auto
  then show ?thesis by (simp add: NonResourceURLMatches_def)
qed

lemma RulesAllow_iff [rbac_simps]:
  "RulesAllow a rules \<longleftrightarrow> (\<exists>rule \<in> set rules. RuleAllows a rule)"
  by (induction rules) auto

section \<open>Properties\<close>

text \<open>
  A rule allows a resource request exactly when it names the verb or every verb, the API group or
  every group, the resource with its subresource (by name, by \<^verbatim>\<open>*\<close> or, for a subresource, as
  \<^verbatim>\<open>*/subresource\<close>), and the object's name or no name at all; it allows any other request exactly
  when the verb and the path match.
\<close>

theorem RuleAllows_iff:
  "RuleAllows a rule \<longleftrightarrow>
     (VerbAll \<in> set (Verbs rule) \<or> attr_Verb a \<in> set (Verbs rule)) \<and>
     (if attr_ResourceRequest a then
        (APIGroupAll \<in> set (APIGroups rule) \<or> attr_APIGroup a \<in> set (APIGroups rule)) \<and>
        (ResourceAll \<in> set (Resources rule) \<or>
         (if attr_Subresource a = '''' then attr_Resource a \<in> set (Resources rule)
          else attr_Resource a @ ''/'' @ attr_Subresource a \<in> set (Resources rule) \<or>
               ''*/'' @ attr_Subresource a \<in> set (Resources rule))) \<and>
        (ResourceNames rule = [] \<or> attr_Name a \<in> set (ResourceNames rule))
      else NonResourceURLMatches rule (attr_Path a))"
  by (auto simp: RuleAllows_def rbac_simps)

text \<open>
  A URL rule is a literal path or a prefix: a rule that ends in a run of stars allows every path
  that starts with what stands before the run, and no other path.
\<close>

theorem NonResourceURLMatches_iff:
  "NonResourceURLMatches rule req \<longleftrightarrow>
     req \<in> set (NonResourceURLs rule) \<or>
     (\<exists>p n. p @ replicate (Suc n) (CHR ''*'') \<in> set (NonResourceURLs rule) \<and>
        \<not> suffix ''*'' p \<and> prefix p req)"
proof -
  define star where "star u \<longleftrightarrow> HasSuffix u ''*'' \<and> HasPrefix req (TrimRight u ''*'')" for u
  have all: "star NonResourceAll"
    by (simp add: star_def NonResourceAll_def HasSuffix_def HasPrefix_def TrimRight_def)
  have no_star: "\<not> suffix ''*'' p \<longleftrightarrow> p = [] \<or> last p \<noteq> CHR ''*''" for p
    by (cases p rule: rev_cases) (auto simp: suffix_def)
  have star: "star u \<longleftrightarrow> (\<exists>p n. u = p @ replicate (Suc n) (CHR ''*'') \<and>
      \<not> suffix ''*'' p \<and> prefix p req)" for u
    unfolding star_def no_star by (rule star_url_iff)
  have "NonResourceURLMatches rule req \<longleftrightarrow>
      (\<exists>u \<in> set (NonResourceURLs rule). u = req \<or> star u)"
    unfolding NonResourceURLMatches_loop star_def [symmetric] using all by blast
  also have "\<dots> \<longleftrightarrow> req \<in> set (NonResourceURLs rule) \<or> (\<exists>u \<in> set (NonResourceURLs rule). star u)"
    by blast
  finally show ?thesis
    unfolding star by blast
qed

lemma subjects_loop_split:
  "subjects_loop ss (us, gs, sas, os) =
     (us @ map subj_Name (filter (\<lambda>s. subj_Kind s = UserKind) ss),
      gs @ map subj_Name (filter (\<lambda>s. subj_Kind s = GroupKind) ss),
      sas @ map (\<lambda>s. subj_Namespace s @ ''/'' @ subj_Name s) (filter (\<lambda>s. subj_Kind s = ServiceAccountKind) ss),
      os @ map (\<lambda>s. subj_Kind s @ ''/'' @ subj_Namespace s @ ''/'' @ subj_Name s)
        (filter (\<lambda>s. subj_Kind s \<notin> {UserKind, GroupKind, ServiceAccountKind}) ss))"
  by (induction ss arbitrary: us gs sas os) auto

text \<open>
  The display strings of a subject list hold every subject once, each in the list of its kind and
  in the order of the list; a subject of no known kind keeps its kind.
\<close>

theorem SubjectsStrings_split:
  "SubjectsStrings ss =
     (map subj_Name (filter (\<lambda>s. subj_Kind s = UserKind) ss),
      map subj_Name (filter (\<lambda>s. subj_Kind s = GroupKind) ss),
      map (\<lambda>s. subj_Namespace s @ ''/'' @ subj_Name s) (filter (\<lambda>s. subj_Kind s = ServiceAccountKind) ss),
      map (\<lambda>s. subj_Kind s @ ''/'' @ subj_Namespace s @ ''/'' @ subj_Name s)
        (filter (\<lambda>s. subj_Kind s \<notin> {UserKind, GroupKind, ServiceAccountKind}) ss))"
  by (simp add: SubjectsStrings_def subjects_loop_split)

end
