(* ===== verification/RuleResolver.thy ===== *)
theory RuleResolver
  imports RbacAllows
begin

text \<open>
  \<^verbatim>\<open>pkg/apiserver/rbac/rule.go\<close>: which rules apply to a user in a namespace. A resolver is the four
  getters it is built from (\<^verbatim>\<open>DefaultRuleResolver\<close>); \<^verbatim>\<open>VisitRulesFor\<close> calls a visitor with state, and
  stops as soon as the visitor answers false. The visitor's contract is stated against the list of
  events that would be visited (\<open>rule_events\<close>).
\<close>

section \<open>Getters and role references\<close>

record default_rule_resolver =
  roleGetter :: "string \<Rightarrow> string \<Rightarrow> go_error + role"
  roleBindingLister :: "string \<Rightarrow> go_error + role_binding list"
  clusterRoleGetter :: "string \<Rightarrow> go_error + cluster_role"
  clusterRoleBindingLister :: "go_error + cluster_role_binding list"

definition RoleRefGroupKind :: "role_ref \<Rightarrow> group_kind" where
  "RoleRefGroupKind roleRef = \<lparr>gk_Group = ref_APIGroup roleRef, gk_Kind = ref_Kind roleRef\<rparr>"

definition RbacKind :: "string \<Rightarrow> group_kind" where
  "RbacKind kind = \<lparr>gk_Group = RbacGroupName, gk_Kind = kind\<rparr>"

definition GetRoleReferenceRules ::
  "default_rule_resolver \<Rightarrow> role_ref \<Rightarrow> string \<Rightarrow> go_error + policy_rule list" where
  "GetRoleReferenceRules r roleRef bindingNamespace =
     (let kind = RoleRefGroupKind roleRef in
      if kind = RbacKind ''Role'' then
        (case roleGetter r bindingNamespace (ref_Name roleRef) of
           Inl err \<Rightarrow> Inl err
         | Inr rl \<Rightarrow> Inr (role_Rules rl))
      else if kind = RbacKind ''ClusterRole'' then
        (case clusterRoleGetter r (ref_Name roleRef) of
           Inl err \<Rightarrow> Inl err
         | Inr crl \<Rightarrow> Inr (cr_Rules crl))
      else Inl (Errorf ''unsupported role reference kind: %q'' [gk_Group kind, gk_Kind kind] []))"

section \<open>Does a binding apply to a user\<close>

fun has :: "string list \<Rightarrow> string \<Rightarrow> bool" where
  "has [] ele = False"
| "has (s # ss) ele = (if s = ele then True else has ss ele)"

definition appliesToUser :: "user_info \<Rightarrow> subject \<Rightarrow> string \<Rightarrow> bool" where
  "appliesToUser user subj ns =
     (if subj_Kind subj = UserKind then ui_Name user = subj_Name subj
      else if subj_Kind subj = GroupKind then has (ui_Groups user) (subj_Name subj)
      else if subj_Kind subj = ServiceAccountKind then
        (let saNamespace = (if length (subj_Namespace subj) > 0 then subj_Namespace subj else ns)
         in if length saNamespace = 0 then False
            else MakeUsername saNamespace (subj_Name subj) = ui_Name user)
      else False)"

fun appliesTo :: "user_info \<Rightarrow> subject list \<Rightarrow> string \<Rightarrow> bool" where
  "appliesTo user [] ns = False"
| "appliesTo user (subj # subjs) ns =
     (if appliesToUser user subj ns then True else appliesTo user subjs ns)"

section \<open>Visiting the rules\<close>

type_synonym 's visitor = "'s \<Rightarrow> policy_rule option \<Rightarrow> go_error option \<Rightarrow> bool \<times> 's"

text \<open>
  The inner loop over the rules of one binding and the loop over the bindings. The boolean is false
  when the visitor asked to stop, which returns from \<^verbatim>\<open>VisitRulesFor\<close>.
\<close>

fun visit_rules :: "'s visitor \<Rightarrow> policy_rule list \<Rightarrow> 's \<Rightarrow> bool \<times> 's" where
  "visit_rules visitor [] s = (True, s)"
| "visit_rules visitor (rule # rules) s =
     (case visitor s (Some rule) None of
        (False, s') \<Rightarrow> (False, s')
      | (True, s') \<Rightarrow> visit_rules visitor rules s')"

fun visit_bindings :: "default_rule_resolver \<Rightarrow> user_info \<Rightarrow> string \<Rightarrow> 's visitor
    \<Rightarrow> (subject list \<times> role_ref) list \<Rightarrow> 's \<Rightarrow> bool \<times> 's" where
  "visit_bindings r user ns visitor [] s = (True, s)"
| "visit_bindings r user ns visitor ((subjects, roleRef) # bindings) s =
     (if \<not> appliesTo user subjects ns then visit_bindings r user ns visitor bindings s
      else (case GetRoleReferenceRules r roleRef ns of
              Inl err \<Rightarrow>
                (case visitor s None (Some err) of
                   (False, s') \<Rightarrow> (False, s')
                 | (True, s') \<Rightarrow> visit_bindings r user ns visitor bindings s')
            | Inr rules \<Rightarrow>
                (case visit_rules visitor rules s of
                   (False, s') \<Rightarrow> (False, s')
                 | (True, s') \<Rightarrow> visit_bindings r user ns visitor bindings s')))"

definition visit_cluster_part ::
  "default_rule_resolver \<Rightarrow> user_info \<Rightarrow> 's visitor \<Rightarrow> 's \<Rightarrow> bool \<times> 's" where
  "visit_cluster_part r user visitor s =
     (case clusterRoleBindingLister r of
        Inl err \<Rightarrow> visitor s None (Some err)
      | Inr bindings \<Rightarrow>
          visit_bindings r user '''' visitor (map (\<lambda>b. (crb_Subjects b, crb_RoleRef b)) bindings) s)"

definition visit_namespace_part ::
  "default_rule_resolver \<Rightarrow> user_info \<Rightarrow> string \<Rightarrow> 's visitor \<Rightarrow> 's \<Rightarrow> bool \<times> 's" where
  "visit_namespace_part r user ns visitor s =
     (case roleBindingLister r ns of
        Inl err \<Rightarrow> visitor s None (Some err)
      | Inr bindings \<Rightarrow>
          visit_bindings r user ns visitor (map (\<lambda>b. (rb_Subjects b, rb_RoleRef b)) bindings) s)"

definition VisitRulesFor ::
  "default_rule_resolver \<Rightarrow> user_info \<Rightarrow> string \<Rightarrow> 's visitor \<Rightarrow> 's \<Rightarrow> 's" where
  "VisitRulesFor r user ns visitor s =
     (case visit_cluster_part r user visitor s of
        (False, s') \<Rightarrow> s'
      | (True, s') \<Rightarrow>
          (if length ns > 0 then snd (visit_namespace_part r user ns visitor s') else s'))"

record rule_accumulator =
  acc_rules :: "policy_rule list"
  acc_errors :: "go_error list"

definition accumulator_visit :: "rule_accumulator visitor" where
  "accumulator_visit acc rule err =
     (let acc1 = (case rule of None \<Rightarrow> acc | Some rl \<Rightarrow> acc\<lparr>acc_rules := acc_rules acc @ [rl]\<rparr>);
          acc2 = (case err of None \<Rightarrow> acc1 | Some e \<Rightarrow> acc1\<lparr>acc_errors := acc_errors acc1 @ [e]\<rparr>)
      in (True, acc2))"

definition RulesFor ::
  "default_rule_resolver \<Rightarrow> user_info \<Rightarrow> string \<Rightarrow> policy_rule list \<times> go_error option" where
  "RulesFor r user ns =
     (let acc = VisitRulesFor r user ns accumulator_visit \<lparr>acc_rules = [], acc_errors = []\<rparr>
      in (acc_rules acc, NewAggregate (acc_errors acc)))"

section \<open>The static resolver\<close>

record static_roles =
  sr_roles :: "role list"
  sr_roleBindings :: "role_binding list"
  sr_clusterRoles :: "cluster_role list"
  sr_clusterRoleBindings :: "cluster_role_binding list"

definition static_GetRole :: "static_roles \<Rightarrow> string \<Rightarrow> string \<Rightarrow> go_error + role" where
  "static_GetRole r ns name =
     (if length ns = 0 then Inl (ErrorString ''must provide namespace when getting role'')
      else (case find (\<lambda>rl. om_Namespace (role_ObjectMeta rl) = ns \<and> om_Name (role_ObjectMeta rl) = name)
                   (sr_roles r) of
              Some rl \<Rightarrow> Inr rl
            | None \<Rightarrow> Inl (ErrorString ''role not found'')))"

definition static_GetClusterRole :: "static_roles \<Rightarrow> string \<Rightarrow> go_error + cluster_role" where
  "static_GetClusterRole r name =
     (case find (\<lambda>crl. om_Name (cr_ObjectMeta crl) = name) (sr_clusterRoles r) of
        Some crl \<Rightarrow> Inr crl
      | None \<Rightarrow> Inl (ErrorString ''role not found''))"

definition static_ListRoleBindings :: "static_roles \<Rightarrow> string \<Rightarrow> go_error + role_binding list" where
  "static_ListRoleBindings r ns =
     (if length ns = 0
      then Inl (ErrorString ''must provide namespace when listing role bindings'')
      else Inr (filter (\<lambda>b. om_Namespace (rb_ObjectMeta b) = ns) (sr_roleBindings r)))"

definition static_ListClusterRoleBindings :: "static_roles \<Rightarrow> go_error + cluster_role_binding list" where
  "static_ListClusterRoleBindings r = Inr (sr_clusterRoleBindings r)"

definition NewTestRuleResolver :: "static_roles \<Rightarrow> default_rule_resolver" where
  "NewTestRuleResolver r =
     \<lparr>roleGetter = static_GetRole r, roleBindingLister = static_ListRoleBindings r,
      clusterRoleGetter = static_GetClusterRole r,
      clusterRoleBindingLister = static_ListClusterRoleBindings r\<rparr>"

section \<open>Membership facts\<close>

lemma has_iff [rbac_simps]: "has ss ele \<longleftrightarrow> ele \<in> set ss"
  by (induction ss) auto

lemma appliesTo_iff [rbac_simps]: "appliesTo user ss ns \<longleftrightarrow> (\<exists>s \<in> set ss. appliesToUser user s ns)"
  by (induction ss) auto

lemma RbacKind_inject [simp]: "RbacKind k = RbacKind k' \<longleftrightarrow> k = k'"
  by (simp add: RbacKind_def)

section \<open>The events a visitor is shown\<close>

text \<open>
  The specification of \<^verbatim>\<open>VisitRulesFor\<close>: the rules and errors in the order they would be visited,
  and a visitor run over a list of events that stops at its first false answer.
\<close>

type_synonym event = "policy_rule option \<times> go_error option"

definition reference_events :: "default_rule_resolver \<Rightarrow> role_ref \<Rightarrow> string \<Rightarrow> event list" where
  "reference_events r roleRef ns =
     (case GetRoleReferenceRules r roleRef ns of
        Inl err \<Rightarrow> [(None, Some err)]
      | Inr rules \<Rightarrow> map (\<lambda>rl. (Some rl, None)) rules)"

definition binding_events ::
  "default_rule_resolver \<Rightarrow> user_info \<Rightarrow> string \<Rightarrow> (subject list \<times> role_ref) list \<Rightarrow> event list" where
  "binding_events r user ns bindings =
     concat (map (\<lambda>(subjects, roleRef).
       if appliesTo user subjects ns then reference_events r roleRef ns else []) bindings)"

definition rule_events :: "default_rule_resolver \<Rightarrow> user_info \<Rightarrow> string \<Rightarrow> event list" where
  "rule_events r user ns =
     (case clusterRoleBindingLister r of
        Inl err \<Rightarrow> [(None, Some err)]
      | Inr bs \<Rightarrow> binding_events r user '''' (map (\<lambda>b. (crb_Subjects b, crb_RoleRef b)) bs)) @
     (if ns = '''' then []
      else (case roleBindingLister r ns of
              Inl err \<Rightarrow> [(None, Some err)]
            | Inr bs \<Rightarrow> binding_events r user ns (map (\<lambda>b. (rb_Subjects b, rb_RoleRef b)) bs)))"

fun run_visitor :: "'s visitor \<Rightarrow> event list \<Rightarrow> 's \<Rightarrow> bool \<times> 's" where
  "run_visitor visitor [] s = (True, s)"
| "run_visitor visitor ((rule, err) # evs) s =
     (case visitor s rule err of
        (False, s') \<Rightarrow> (False, s')
      | (True, s') \<Rightarrow> run_visitor visitor evs s')"

lemma run_visitor_append:
  "run_visitor v (evs @ evs') s =
     (case run_visitor v evs s of (False, s') \<Rightarrow> (False, s') | (True, s') \<Rightarrow> run_visitor v evs' s')"
  by (induction v evs s rule: run_visitor.induct) (auto split: prod.splits bool.splits)

lemma run_visitor_single: "run_visitor v [(rule, err)] s = v s rule err"
  by (auto split: prod.splits bool.splits)

lemma visit_rules_run:
  "visit_rules v rules s = run_visitor v (map (\<lambda>rl. (Some rl, None)) rules) s"
  by (induction v rules s rule: visit_rules.induct) (auto split: prod.splits bool.splits)

lemma visit_bindings_run:
  "visit_bindings r user ns v bindings s = run_visitor v (binding_events r user ns bindings) s"
proof (induction r user ns v bindings s rule: visit_bindings.induct)
  case (2 r user ns v subjects roleRef bindings s)
  then show ?case
    by (auto simp: binding_events_def reference_events_def run_visitor_append visit_rules_run
        split: sum.splits prod.splits bool.splits)
qed (simp add: binding_events_def)

lemma VisitRulesFor_run:
  "VisitRulesFor r user ns v s = snd (run_visitor v (rule_events r user ns) s)"
  by (auto simp: VisitRulesFor_def visit_cluster_part_def visit_namespace_part_def rule_events_def
      run_visitor_append run_visitor_single visit_bindings_run simp del: run_visitor.simps(2)
      split: sum.splits prod.splits bool.splits)

lemma run_accumulator:
  "run_visitor accumulator_visit evs acc =
     (True, \<lparr>acc_rules = acc_rules acc @ List.map_filter fst evs,
             acc_errors = acc_errors acc @ List.map_filter snd evs\<rparr>)"
proof (induction evs arbitrary: acc)
  case (Cons ev evs)
  obtain rule err where "ev = (rule, err)" by (cases ev)
  with Cons show ?case
    by (auto simp: accumulator_visit_def List.map_filter_def Let_def split: option.splits)
qed (simp add: List.map_filter_def)

lemma RulesFor_events:
  "RulesFor r user ns =
     (List.map_filter fst (rule_events r user ns),
      NewAggregate (List.map_filter snd (rule_events r user ns)))"
  by (simp add: RulesFor_def VisitRulesFor_run run_accumulator Let_def)

lemma set_map_filter_fst: "x \<in> set (List.map_filter fst evs) \<longleftrightarrow> (\<exists>e. (Some x, e) \<in> set evs)"
  by (force simp: List.map_filter_def)

lemma set_map_filter_snd: "x \<in> set (List.map_filter snd evs) \<longleftrightarrow> (\<exists>r. (r, Some x) \<in> set evs)"
  by (force simp: List.map_filter_def)

lemma reference_events_rule_iff:
  "(Some rl, e) \<in> set (reference_events r roleRef ns) \<longleftrightarrow>
     e = None \<and> (\<exists>rules. GetRoleReferenceRules r roleRef ns = Inr rules \<and> rl \<in> set rules)"
  by (cases "GetRoleReferenceRules r roleRef ns") (auto simp: reference_events_def)

lemma binding_events_rule_iff:
  "(Some rl, e) \<in> set (binding_events r user ns bindings) \<longleftrightarrow>
     e = None \<and> (\<exists>subjects roleRef. (subjects, roleRef) \<in> set bindings \<and> appliesTo user subjects ns \<and>
        (\<exists>rules. GetRoleReferenceRules r roleRef ns = Inr rules \<and> rl \<in> set rules))"
  by (auto simp: binding_events_def reference_events_rule_iff split: if_splits)

lemma binding_events_rule_map:
  "(\<exists>e. (Some rl, e) \<in> set (binding_events r user ns (map (\<lambda>b. (f b, g b)) bs))) \<longleftrightarrow>
     (\<exists>b \<in> set bs. (\<exists>s \<in> set (f b). appliesToUser user s ns) \<and>
        (\<exists>rules. GetRoleReferenceRules r (g b) ns = Inr rules \<and> rl \<in> set rules))"
  unfolding binding_events_rule_iff appliesTo_iff by fastforce

text \<open>
  The events of a namespace depend only on what the getters answer for it: two sources that agree on
  the cluster's objects and on the namespace show the same events.
\<close>

lemma GetRoleReferenceRules_cong:
  assumes "\<And>name. roleGetter r ns name = roleGetter r' ns name"
    and "\<And>name. clusterRoleGetter r name = clusterRoleGetter r' name"
  shows "GetRoleReferenceRules r ref ns = GetRoleReferenceRules r' ref ns"
  using assms by (simp add: GetRoleReferenceRules_def Let_def cong: if_cong)

lemma binding_events_cong:
  assumes "\<And>ref. GetRoleReferenceRules r ref ns = GetRoleReferenceRules r' ref ns"
  shows "binding_events r u ns bs = binding_events r' u ns bs"
  by (simp add: binding_events_def reference_events_def assms cong: if_cong)

lemma rule_events_cong:
  assumes "clusterRoleBindingLister r = clusterRoleBindingLister r'"
    and "\<And>name. clusterRoleGetter r name = clusterRoleGetter r' name"
    and "\<And>name. roleGetter r '''' name = roleGetter r' '''' name"
    and "\<And>name. roleGetter r ns name = roleGetter r' ns name"
    and "ns \<noteq> '''' \<Longrightarrow> roleBindingLister r ns = roleBindingLister r' ns"
  shows "rule_events r u ns = rule_events r' u ns"
proof -
  have "binding_events r u n bs = binding_events r' u n bs" if "n = '''' \<or> n = ns" for n bs
    using that assms(2-4)
    by (intro binding_events_cong GetRoleReferenceRules_cong) auto
  then show ?thesis
    using assms(1,5) by (auto simp: rule_events_def split: sum.splits)
qed

section \<open>The interface to the role objects\<close>

text \<open>
  What the resolver relies on: a getter returns the object it was asked for, and the role bindings
  listed for a namespace lie in it. A namespaced object is known by the key \<^verbatim>\<open>namespace/name\<close>.
\<close>

definition meta_key :: "object_meta \<Rightarrow> string" where
  "meta_key m = (if om_Namespace m = '''' then om_Name m else om_Namespace m @ ''/'' @ om_Name m)"

locale rbac_source =
  fixes src :: default_rule_resolver
  assumes get_role: "roleGetter src ns name = Inr rl \<Longrightarrow> meta_key (role_ObjectMeta rl) = ns @ ''/'' @ name"
    and get_cluster_role: "clusterRoleGetter src name = Inr crl \<Longrightarrow> om_Namespace (cr_ObjectMeta crl) = '''' \<Longrightarrow>
      om_Name (cr_ObjectMeta crl) = name"
    and list_bindings: "ns \<noteq> '''' \<Longrightarrow> roleBindingLister src ns = Inr bs \<Longrightarrow> b \<in> set bs \<Longrightarrow>
      om_Namespace (rb_ObjectMeta b) = ns"
begin

lemma reference_rules_source:
  assumes "GetRoleReferenceRules src roleRef ns = Inr rules" and "rl \<in> set rules"
  shows "(\<exists>ob. roleGetter src ns (ref_Name roleRef) = Inr ob \<and> rl \<in> set (role_Rules ob) \<and>
            meta_key (role_ObjectMeta ob) = ns @ ''/'' @ ref_Name roleRef) \<or>
         (\<exists>ob. clusterRoleGetter src (ref_Name roleRef) = Inr ob \<and> rl \<in> set (cr_Rules ob) \<and>
            (om_Namespace (cr_ObjectMeta ob) = '''' \<longrightarrow> om_Name (cr_ObjectMeta ob) = ref_Name roleRef))"
  using assms
  by (auto simp: GetRoleReferenceRules_def Let_def dest: get_role get_cluster_role
      split: if_splits sum.splits)

lemma namespace_binding_source:
  assumes "ns \<noteq> ''''" and "rl \<in> set (fst (RulesFor src user ns))"
  shows "(\<exists>bs b. clusterRoleBindingLister src = Inr bs \<and> b \<in> set bs \<and>
            appliesTo user (crb_Subjects b) '''' \<and>
            (\<exists>rules. GetRoleReferenceRules src (crb_RoleRef b) '''' = Inr rules \<and> rl \<in> set rules)) \<or>
         (\<exists>bs b. roleBindingLister src ns = Inr bs \<and> b \<in> set bs \<and>
            om_Namespace (rb_ObjectMeta b) = ns \<and> appliesTo user (rb_Subjects b) ns \<and>
            (\<exists>rules. GetRoleReferenceRules src (rb_RoleRef b) ns = Inr rules \<and> rl \<in> set rules))"
  using assms list_bindings [OF assms(1)]
  by (fastforce simp: RulesFor_events set_map_filter_fst rule_events_def binding_events_rule_iff
      split: sum.splits if_splits)

end

lemma meta_key_namespaced: "om_Namespace m \<noteq> '''' \<Longrightarrow> meta_key m = om_Namespace m @ ''/'' @ om_Name m"
  by (simp add: meta_key_def)

lemma find_SomeD: "find P xs = Some x \<Longrightarrow> P x \<and> x \<in> set xs"
  by (metis find_Some_iff nth_mem)

interpretation static: rbac_source "NewTestRuleResolver r" for r
proof unfold_locales
  fix ns name rl
  assume "roleGetter (NewTestRuleResolver r) ns name = Inr rl"
  then show "meta_key (role_ObjectMeta rl) = ns @ ''/'' @ name"
    by (auto simp: NewTestRuleResolver_def static_GetRole_def meta_key_def
        dest!: find_SomeD split: if_splits option.splits)
next
  fix name crl
  assume "clusterRoleGetter (NewTestRuleResolver r) name = Inr crl"
  then show "om_Name (cr_ObjectMeta crl) = name"
    by (auto simp: NewTestRuleResolver_def static_GetClusterRole_def dest!: find_SomeD split: option.splits)
next
  fix ns bs b
  assume "roleBindingLister (NewTestRuleResolver r) ns = Inr bs" "b \<in> set bs"
  then show "om_Namespace (rb_ObjectMeta b) = ns"
    by (auto simp: NewTestRuleResolver_def static_ListRoleBindings_def split: if_splits)
qed

text \<open>Where the rules of a user come from.\<close>

lemma RulesFor_mem_iff:
  "rl \<in> set (fst (RulesFor r user ns)) \<longleftrightarrow>
     (\<exists>bs b rules. clusterRoleBindingLister r = Inr bs \<and> b \<in> set bs \<and>
        (\<exists>s \<in> set (crb_Subjects b). appliesToUser user s '''') \<and>
        GetRoleReferenceRules r (crb_RoleRef b) '''' = Inr rules \<and> rl \<in> set rules) \<or>
     (\<exists>bs b rules. ns \<noteq> '''' \<and> roleBindingLister r ns = Inr bs \<and> b \<in> set bs \<and>
        (\<exists>s \<in> set (rb_Subjects b). appliesToUser user s ns) \<and>
        GetRoleReferenceRules r (rb_RoleRef b) ns = Inr rules \<and> rl \<in> set rules)"
proof -
  have "rl \<in> set (fst (RulesFor r user ns)) \<longleftrightarrow> (\<exists>e. (Some rl, e) \<in> set (rule_events r user ns))"
    by (simp add: RulesFor_events set_map_filter_fst)
  also have "\<dots> \<longleftrightarrow>
      (\<exists>bs. clusterRoleBindingLister r = Inr bs \<and> (\<exists>e. (Some rl, e) \<in> set (binding_events r user ''''
         (map (\<lambda>b. (crb_Subjects b, crb_RoleRef b)) bs)))) \<or>
      (\<exists>bs. ns \<noteq> '''' \<and> roleBindingLister r ns = Inr bs \<and> (\<exists>e. (Some rl, e) \<in> set (binding_events r user ns
         (map (\<lambda>b. (rb_Subjects b, rb_RoleRef b)) bs))))"
    by (cases "clusterRoleBindingLister r"; cases "roleBindingLister r ns") (auto simp: rule_events_def)
  finally show ?thesis
    unfolding binding_events_rule_map by blast
qed

section \<open>Properties\<close>

text \<open>
  Visiting the rules of a user shows the visitor the events of the user's bindings in order - the
  cluster's bindings first, then the namespace's, each binding's rules or the error of its reference -
  and stops at the first event for which the visitor answers false, whatever the visitor's state.
\<close>

theorem VisitRulesFor_refines:
  "VisitRulesFor r user ns v s = snd (run_visitor v (rule_events r user ns) s)"
  by (rule VisitRulesFor_run)

text \<open>
  C29: The rules of a user are exactly the rules of the roles that a binding of the cluster, or a
  binding of the namespace when one is given, refers to, among the bindings that apply to the user;
  a reference that does not resolve adds no rule and hides none.
\<close>

theorem RulesFor_rules:
  "rl \<in> set (fst (RulesFor r user ns)) \<longleftrightarrow>
     (\<exists>bs b rules. clusterRoleBindingLister r = Inr bs \<and> b \<in> set bs \<and>
        (\<exists>s \<in> set (crb_Subjects b). appliesToUser user s '''') \<and>
        GetRoleReferenceRules r (crb_RoleRef b) '''' = Inr rules \<and> rl \<in> set rules) \<or>
     (\<exists>bs b rules. ns \<noteq> '''' \<and> roleBindingLister r ns = Inr bs \<and> b \<in> set bs \<and>
        (\<exists>s \<in> set (rb_Subjects b). appliesToUser user s ns) \<and>
        GetRoleReferenceRules r (rb_RoleRef b) ns = Inr rules \<and> rl \<in> set rules)"
  by (rule RulesFor_mem_iff)

end
