(* ===== verification/SubjectLocator.thy ===== *)
theory SubjectLocator
  imports RuleResolver
begin

text \<open>
  \<^verbatim>\<open>pkg/apiserver/rbac/subject_locator.go\<close> and \<^verbatim>\<open>pkg/project/auth/reviewer.go\<close>: the subjects that may
  perform an action, and the review of a namespace the authorization cache asks for. The locator
  answers for all subjects at once what the rule resolver answers for one user; the section on
  agreement relates the two.
\<close>

section \<open>The evaluator\<close>

record subject_access_evaluator =
  superUser :: string
  sae_roleBindingLister :: "string \<Rightarrow> go_error + role_binding list"
  sae_clusterRoleBindingLister :: "go_error + cluster_role_binding list"
  roleToRuleMapper :: "role_ref \<Rightarrow> string \<Rightarrow> go_error + policy_rule list"

definition NewSubjectAccessEvaluator :: "default_rule_resolver \<Rightarrow> string \<Rightarrow> subject_access_evaluator" where
  "NewSubjectAccessEvaluator getters superUserName =
     \<lparr>superUser = superUserName,
      sae_roleBindingLister = roleBindingLister getters,
      sae_clusterRoleBindingLister = clusterRoleBindingLister getters,
      roleToRuleMapper = GetRoleReferenceRules getters\<rparr>"

definition SystemPrivilegedGroup :: string where
  "SystemPrivilegedGroup = ''system:masters''"

text \<open>
  The loop over the bindings of one kind. An unresolved reference is recorded and its binding grants
  nothing, because no rules come with the error.
\<close>

fun locate_bindings :: "(role_ref \<Rightarrow> string \<Rightarrow> go_error + policy_rule list) \<Rightarrow> attributes \<Rightarrow> string
    \<Rightarrow> (subject list \<times> role_ref) list \<Rightarrow> subject list \<times> go_error list \<Rightarrow> subject list \<times> go_error list" where
  "locate_bindings mapper requestAttributes ns [] acc = acc"
| "locate_bindings mapper requestAttributes ns ((bindingSubjects, roleRef) # bindings) (subjects, errorlist) =
     (let (rules, errs) = (case mapper roleRef ns of
            Inl err \<Rightarrow> ([], errorlist @ [err])
          | Inr rules \<Rightarrow> (rules, errorlist))
      in locate_bindings mapper requestAttributes ns bindings
           (if RulesAllow requestAttributes rules then subjects @ bindingSubjects else subjects, errs))"

fun found_in :: "subject list \<Rightarrow> subject \<Rightarrow> bool" where
  "found_in [] subj = False"
| "found_in (cur # rest) subj = (if cur = subj then True else found_in rest subj)"

fun dedup_subjects :: "subject list \<Rightarrow> subject list \<Rightarrow> subject list" where
  "dedup_subjects [] deduped = deduped"
| "dedup_subjects (subj # subjs) deduped =
     (if \<not> found_in deduped subj then dedup_subjects subjs (deduped @ [subj])
      else dedup_subjects subjs deduped)"

text \<open>The deduplicated list is computed, and the list with the duplicates is what is returned.\<close>

definition AllowedSubjects ::
  "subject_access_evaluator \<Rightarrow> attributes \<Rightarrow> subject list \<times> go_error option" where
  "AllowedSubjects r requestAttributes =
     (let subjects = [\<lparr>subj_Kind = GroupKind, subj_APIGroup = RbacGroupName,
                        subj_Name = SystemPrivilegedGroup, subj_Namespace = ''''\<rparr>] @
            (if length (superUser r) > 0
             then [\<lparr>subj_Kind = UserKind, subj_APIGroup = RbacGroupName, subj_Name = superUser r,
                    subj_Namespace = ''''\<rparr>]
             else []);
          (subjects, errorlist) =
            (case sae_clusterRoleBindingLister r of
               Inl err \<Rightarrow> (subjects, [err])
             | Inr bs \<Rightarrow> locate_bindings (roleToRuleMapper r) requestAttributes ''''
                 (map (\<lambda>b. (crb_Subjects b, crb_RoleRef b)) bs) (subjects, []));
          ns = attr_Namespace requestAttributes;
          (subjects, errorlist) =
            (if length ns > 0 then
               (case sae_roleBindingLister r ns of
                  Inl err \<Rightarrow> (subjects, errorlist @ [err])
                | Inr bs \<Rightarrow> locate_bindings (roleToRuleMapper r) requestAttributes ns
                    (map (\<lambda>b. (rb_Subjects b, rb_RoleRef b)) bs) (subjects, errorlist))
             else (subjects, errorlist));
          dedupedSubjects = dedup_subjects subjects []
      in (subjects, NewAggregate errorlist))"

section \<open>The reviewer\<close>

definition review_attributes :: "string \<Rightarrow> attributes" where
  "review_attributes name =
     \<lparr>attr_User = None, attr_Verb = ''get'', attr_Namespace = name, attr_APIGroup = '''',
      attr_Resource = ''namespaces'', attr_Subresource = '''', attr_Name = name,
      attr_ResourceRequest = True, attr_Path = ''''\<rparr>"

definition Review :: "subject_access_evaluator \<Rightarrow> string \<Rightarrow> subject list \<times> go_error option" where
  "Review r name = AllowedSubjects r (review_attributes name)"

section \<open>Membership in the located subjects\<close>

lemma found_in_iff: "found_in xs s \<longleftrightarrow> s \<in> set xs"
  by (induction xs) auto

lemma dedup_subjects_distinct: "distinct acc \<Longrightarrow> distinct (dedup_subjects ss acc)"
  by (induction ss acc rule: dedup_subjects.induct) (auto simp: found_in_iff)

lemma dedup_subjects_set: "set (dedup_subjects ss acc) = set ss \<union> set acc"
  by (induction ss acc rule: dedup_subjects.induct) (auto simp: found_in_iff)

text \<open>A binding, as its subjects and role reference, grants the action to a subject.\<close>

definition binding_grants :: "(role_ref \<Rightarrow> string \<Rightarrow> go_error + policy_rule list) \<Rightarrow> attributes \<Rightarrow> string
    \<Rightarrow> subject \<Rightarrow> subject list \<times> role_ref \<Rightarrow> bool" where
  "binding_grants mapper a ns s b \<longleftrightarrow>
     (case mapper (snd b) ns of
        Inl err \<Rightarrow> False
      | Inr rules \<Rightarrow> RulesAllow a rules \<and> s \<in> set (fst b))"

lemma locate_bindings_subjects:
  "s \<in> set (fst (locate_bindings mapper a ns bindings acc)) \<longleftrightarrow>
     s \<in> set (fst acc) \<or> (\<exists>b \<in> set bindings. binding_grants mapper a ns s b)"
proof (induction mapper a ns bindings acc rule: locate_bindings.induct)
  case (2 mapper a ns bindingSubjects roleRef bindings subjects errorlist)
  show ?case
    using 2 by (cases "mapper roleRef ns") (auto simp add: Let_def binding_grants_def)
qed simp

lemma locate_bindings_errors:
  "snd (locate_bindings mapper a ns bindings acc) =
     snd acc @ concat (map (\<lambda>(subjects, roleRef).
       case mapper roleRef ns of Inl e \<Rightarrow> [e] | Inr rules \<Rightarrow> []) bindings)"
  by (induction mapper a ns bindings acc rule: locate_bindings.induct)
    (auto simp: Let_def split: sum.splits)

text \<open>The subjects that are allowed whatever the bindings say.\<close>

definition builtin_subject :: "subject_access_evaluator \<Rightarrow> subject \<Rightarrow> bool" where
  "builtin_subject r s \<longleftrightarrow>
     s = \<lparr>subj_Kind = GroupKind, subj_APIGroup = RbacGroupName, subj_Name = SystemPrivilegedGroup,
          subj_Namespace = ''''\<rparr> \<or>
     (superUser r \<noteq> '''' \<and>
      s = \<lparr>subj_Kind = UserKind, subj_APIGroup = RbacGroupName, subj_Name = superUser r,
           subj_Namespace = ''''\<rparr>)"

definition cluster_granted :: "subject_access_evaluator \<Rightarrow> attributes \<Rightarrow> subject \<Rightarrow> bool" where
  "cluster_granted r a s \<longleftrightarrow>
     (case sae_clusterRoleBindingLister r of
        Inl err \<Rightarrow> False
      | Inr bs \<Rightarrow> \<exists>b \<in> set bs.
          binding_grants (roleToRuleMapper r) a '''' s (crb_Subjects b, crb_RoleRef b))"

definition namespace_granted :: "subject_access_evaluator \<Rightarrow> attributes \<Rightarrow> subject \<Rightarrow> bool" where
  "namespace_granted r a s \<longleftrightarrow> attr_Namespace a \<noteq> '''' \<and>
     (case sae_roleBindingLister r (attr_Namespace a) of
        Inl err \<Rightarrow> False
      | Inr bs \<Rightarrow> \<exists>b \<in> set bs.
          binding_grants (roleToRuleMapper r) a (attr_Namespace a) s (rb_Subjects b, rb_RoleRef b))"

lemma AllowedSubjects_mem:
  "s \<in> set (fst (AllowedSubjects r a)) \<longleftrightarrow>
     builtin_subject r s \<or> cluster_granted r a s \<or> namespace_granted r a s"
  by (cases "sae_clusterRoleBindingLister r"; cases "sae_roleBindingLister r (attr_Namespace a)")
    (auto simp: AllowedSubjects_def Let_def split_def locate_bindings_subjects builtin_subject_def
      cluster_granted_def namespace_granted_def)

text \<open>The evaluator reports no error exactly when every list and every reference resolves.\<close>

definition all_resolve :: "subject_access_evaluator \<Rightarrow> string \<Rightarrow> bool" where
  "all_resolve r ns \<longleftrightarrow>
     (case sae_clusterRoleBindingLister r of
        Inl err \<Rightarrow> False
      | Inr bs \<Rightarrow> list_all (\<lambda>b. \<not> isl (roleToRuleMapper r (crb_RoleRef b) '''')) bs) \<and>
     (ns = '''' \<or>
       (case sae_roleBindingLister r ns of
          Inl err \<Rightarrow> False
        | Inr bs \<Rightarrow> list_all (\<lambda>b. \<not> isl (roleToRuleMapper r (rb_RoleRef b) ns)) bs))"

lemma resolve_error_Nil: "(case x of Inl e \<Rightarrow> [e] | Inr rules \<Rightarrow> []) = [] \<longleftrightarrow> \<not> isl x"
  by (cases x) auto

lemma AllowedSubjects_no_error:
  "snd (AllowedSubjects r a) = None \<longleftrightarrow> all_resolve r (attr_Namespace a)"
  by (cases "sae_clusterRoleBindingLister r"; cases "sae_roleBindingLister r (attr_Namespace a)")
    (simp_all add: AllowedSubjects_def all_resolve_def Let_def split_def locate_bindings_errors
      resolve_error_Nil list_all_iff)

section \<open>Agreement with the rule resolver\<close>

text \<open>
  A service account of a cluster role binding carries its namespace, as the API server requires of
  the object: the resolver ignores an account without one, the authorization cache takes it to be of
  every namespace.
\<close>

definition cluster_accounts_qualified :: "default_rule_resolver \<Rightarrow> bool" where
  "cluster_accounts_qualified getters \<longleftrightarrow>
     (case clusterRoleBindingLister getters of
        Inl err \<Rightarrow> True
      | Inr bs \<Rightarrow> list_all (\<lambda>b. list_all (\<lambda>s. subj_Kind s = ServiceAccountKind \<longrightarrow>
          subj_Namespace s \<noteq> '''') (crb_Subjects b)) bs)"

lemma appliesToUser_qualified:
  "(subj_Kind s = ServiceAccountKind \<longrightarrow> subj_Namespace s \<noteq> '''') \<Longrightarrow>
     appliesToUser u s ns = appliesToUser u s ns'"
  by (auto simp: appliesToUser_def Let_def)

lemma builtin_subject_applies:
  "(\<exists>s. builtin_subject r s \<and> appliesToUser u s ns) \<longleftrightarrow>
     SystemPrivilegedGroup \<in> set (ui_Groups u) \<or> (superUser r \<noteq> '''' \<and> ui_Name u = superUser r)"
  unfolding builtin_subject_def ex_disj_distrib conj_disj_distribR conj_assoc simp_thms ex_simps
  by (simp add: appliesToUser_def has_iff)

definition event_allows :: "attributes \<Rightarrow> event \<Rightarrow> bool" where
  "event_allows a ev \<longleftrightarrow> (case fst ev of None \<Rightarrow> False | Some rl \<Rightarrow> RuleAllows a rl)"

lemma event_allows_error [simp]: "\<not> event_allows a (None, e)"
  by (simp add: event_allows_def)

lemma binding_grants_subject: "binding_grants mapper a ns s b \<Longrightarrow> s \<in> set (fst b)"
  by (auto simp: binding_grants_def split: sum.splits)

lemma RulesAllow_events:
  "RulesAllow a (List.map_filter fst evs) \<longleftrightarrow> (\<exists>ev \<in> set evs. event_allows a ev)"
  by (induction evs) (auto simp: RulesAllow_iff event_allows_def List.map_filter_def split: option.splits)

lemma binding_events_allow:
  "(\<exists>ev \<in> set (binding_events r u ns bindings). event_allows a ev) \<longleftrightarrow>
     (\<exists>b \<in> set bindings. \<exists>s. binding_grants (GetRoleReferenceRules r) a ns s b \<and> appliesToUser u s ns)"
proof -
  have one: "(\<exists>ev \<in> set (if appliesTo u subjects ns then reference_events r roleRef ns else []). event_allows a ev)
      \<longleftrightarrow> (\<exists>s. binding_grants (GetRoleReferenceRules r) a ns s (subjects, roleRef) \<and> appliesToUser u s ns)"
    for subjects roleRef
    by (cases "GetRoleReferenceRules r roleRef ns")
      (auto simp: reference_events_def binding_grants_def event_allows_def appliesTo_iff RulesAllow_iff)
  show ?thesis
    unfolding binding_events_def using one by fastforce
qed

lemma RulesFor_allow_iff:
  fixes getters u a su
  defines "r \<equiv> NewSubjectAccessEvaluator getters su"
  shows "RulesAllow a (fst (RulesFor getters u (attr_Namespace a))) \<longleftrightarrow>
     (\<exists>s. cluster_granted r a s \<and> appliesToUser u s '''') \<or>
     (\<exists>s. namespace_granted r a s \<and> appliesToUser u s (attr_Namespace a))"
  by (cases "clusterRoleBindingLister getters"; cases "roleBindingLister getters (attr_Namespace a)")
    (auto simp: RulesFor_events RulesAllow_events rule_events_def bex_Un binding_events_allow
      cluster_granted_def namespace_granted_def r_def NewSubjectAccessEvaluator_def)

lemma cluster_granted_qualified:
  assumes "cluster_accounts_qualified getters"
    and "cluster_granted (NewSubjectAccessEvaluator getters su) a s"
  shows "appliesToUser u s ns = appliesToUser u s ns'"
proof -
  have "subj_Kind s = ServiceAccountKind \<longrightarrow> subj_Namespace s \<noteq> ''''"
    using assms
    by (auto simp: cluster_accounts_qualified_def cluster_granted_def NewSubjectAccessEvaluator_def
        list_all_iff dest!: binding_grants_subject split: sum.splits)
  then show ?thesis by (rule appliesToUser_qualified)
qed

lemma located_subjects_agree:
  assumes "cluster_accounts_qualified getters"
  shows "(\<exists>s \<in> set (fst (AllowedSubjects (NewSubjectAccessEvaluator getters su) a)).
            appliesToUser u s (attr_Namespace a)) \<longleftrightarrow>
     RulesAllow a (fst (RulesFor getters u (attr_Namespace a))) \<or>
     SystemPrivilegedGroup \<in> set (ui_Groups u) \<or> (su \<noteq> '''' \<and> ui_Name u = su)"
proof -
  let ?r = "NewSubjectAccessEvaluator getters su" and ?ns = "attr_Namespace a"
  have su: "superUser ?r = su"
    by (simp add: NewSubjectAccessEvaluator_def)
  have "(\<exists>s. cluster_granted ?r a s \<and> appliesToUser u s ?ns) \<longleftrightarrow>
      (\<exists>s. cluster_granted ?r a s \<and> appliesToUser u s '''')"
    using cluster_granted_qualified [OF assms] by blast
  then show ?thesis
    using builtin_subject_applies [of ?r u ?ns]
    by (auto simp: AllowedSubjects_mem RulesFor_allow_iff [of a getters u su] su)
qed

section \<open>Properties\<close>

text \<open>Objects the witnesses run on: one cluster role that may get every namespace.\<close>

definition sample_rule :: policy_rule where
  "sample_rule = \<lparr>Verbs = [''get''], APIGroups = [''''], Resources = [''namespaces''],
     ResourceNames = [], NonResourceURLs = []\<rparr>"

definition sample_user :: "string \<Rightarrow> subject" where
  "sample_user n = \<lparr>subj_Kind = UserKind, subj_APIGroup = RbacGroupName, subj_Name = n,
     subj_Namespace = ''''\<rparr>"

definition sample_account :: "string \<Rightarrow> subject" where
  "sample_account n = \<lparr>subj_Kind = ServiceAccountKind, subj_APIGroup = '''', subj_Name = n,
     subj_Namespace = ''''\<rparr>"

definition sample_ref :: "string \<Rightarrow> role_ref" where
  "sample_ref n = \<lparr>ref_APIGroup = RbacGroupName, ref_Kind = ''ClusterRole'', ref_Name = n\<rparr>"

definition sample_roles :: "subject list \<Rightarrow> subject list \<Rightarrow> static_roles" where
  "sample_roles cluster local =
     \<lparr>sr_roles = [],
      sr_roleBindings = [\<lparr>rb_ObjectMeta = empty_meta\<lparr>om_Name := ''b'', om_Namespace := ''p''\<rparr>,
        rb_Subjects = local, rb_RoleRef = sample_ref ''viewer''\<rparr>],
      sr_clusterRoles = [\<lparr>cr_ObjectMeta = empty_meta\<lparr>om_Name := ''viewer''\<rparr>, cr_Rules = [sample_rule]\<rparr>],
      sr_clusterRoleBindings = [\<lparr>crb_ObjectMeta = empty_meta\<lparr>om_Name := ''cb''\<rparr>,
        crb_Subjects = cluster, crb_RoleRef = sample_ref ''viewer''\<rparr>]\<rparr>"

abbreviation sample_getters :: "subject list \<Rightarrow> subject list \<Rightarrow> default_rule_resolver" where
  "sample_getters cluster local \<equiv> NewTestRuleResolver (sample_roles cluster local)"

lemmas sample_defs = sample_rule_def sample_user_def sample_account_def sample_ref_def sample_roles_def
  NewTestRuleResolver_def static_GetRole_def static_GetClusterRole_def static_ListRoleBindings_def
  static_ListClusterRoleBindings_def NewSubjectAccessEvaluator_def

text \<open>
  C8: The subject locator agrees with the rule resolver: a user matches one of the subjects located
  for a request exactly when the user's own rules in the namespace allow the request, or the user
  is the super user or of the privileged group. The hypothesis is that the service accounts bound
  across the cluster carry their namespace.
\<close>

theorem AllowedSubjects_agrees:
  assumes "cluster_accounts_qualified getters"
  shows "(\<exists>s \<in> set (fst (AllowedSubjects (NewSubjectAccessEvaluator getters su) a)).
            appliesToUser u s (attr_Namespace a)) \<longleftrightarrow>
     RulesAllow a (fst (RulesFor getters u (attr_Namespace a))) \<or>
     SystemPrivilegedGroup \<in> set (ui_Groups u) \<or> (su \<noteq> '''' \<and> ui_Name u = su)"
  using assms by (rule located_subjects_agree)

theorem AllowedSubjects_agrees_witness:
  "(\<exists>s \<in> set (fst (AllowedSubjects (NewSubjectAccessEvaluator
        (sample_getters [sample_user ''ann''] [sample_account ''builder'']) '''') (review_attributes ''p''))).
      appliesToUser \<lparr>ui_Name = ''system:serviceaccount:p:builder'', ui_Groups = []\<rparr> s
        (attr_Namespace (review_attributes ''p'')))"
proof -
  let ?g = "sample_getters [sample_user ''ann''] [sample_account ''builder'']"
  have q: "cluster_accounts_qualified ?g"
    by (simp add: cluster_accounts_qualified_def sample_defs)
  have "RulesAllow (review_attributes ''p'') (fst (RulesFor ?g
      \<lparr>ui_Name = ''system:serviceaccount:p:builder'', ui_Groups = []\<rparr> (attr_Namespace (review_attributes ''p''))))"
    by code_simp
  then show ?thesis
    using AllowedSubjects_agrees [OF q] by blast
qed

text \<open>
  Without the hypothesis the two disagree: for a cluster binding of a service account with no
  namespace, the locator's subjects match the account of that name in the reviewed namespace, and the
  resolver grants it nothing.
\<close>

theorem unqualified_account_disagrees:
  "\<exists>getters u. (\<exists>s \<in> set (fst (Review (NewSubjectAccessEvaluator getters '''') ''p'')).
        appliesToUser u s ''p'') \<and>
     \<not> RulesAllow (review_attributes ''p'') (fst (RulesFor getters u ''p'')) \<and> ui_Groups u = []"
proof (intro exI conjI)
  let ?g = "sample_getters [sample_account ''robot''] []"
  let ?u = "\<lparr>ui_Name = ''system:serviceaccount:p:robot'', ui_Groups = []\<rparr>"
  show "\<exists>s \<in> set (fst (Review (NewSubjectAccessEvaluator ?g '''') ''p'')). appliesToUser ?u s ''p''"
    by code_simp
  show "\<not> RulesAllow (review_attributes ''p'') (fst (RulesFor ?g ?u ''p''))"
    by code_simp
qed simp

text \<open>
  C30: The locator reports an error exactly when a binding list fails or some role reference does
  not resolve - of any binding, whether or not it concerns the request - and still returns every
  subject that the references that do resolve grant the action.
\<close>

theorem AllowedSubjects_partial:
  "(snd (AllowedSubjects r a) = None \<longleftrightarrow> all_resolve r (attr_Namespace a)) \<and>
   (s \<in> set (fst (AllowedSubjects r a)) \<longleftrightarrow>
      builtin_subject r s \<or> cluster_granted r a s \<or> namespace_granted r a s)"
  by (simp add: AllowedSubjects_no_error AllowedSubjects_mem)

text \<open>
  The deduplicated list the locator computes has no duplicates and the same subjects, but it is
  not what is returned: a subject bound twice is returned twice.
\<close>

theorem AllowedSubjects_not_deduplicated:
  "(\<forall>ss. distinct (dedup_subjects ss []) \<and> set (dedup_subjects ss []) = set ss) \<and>
   (\<exists>r a. \<not> distinct (fst (AllowedSubjects r a)))"
proof
  show "\<forall>ss. distinct (dedup_subjects ss []) \<and> set (dedup_subjects ss []) = set ss"
    by (simp add: dedup_subjects_distinct dedup_subjects_set)
  have "\<not> distinct (fst (AllowedSubjects (NewSubjectAccessEvaluator
      (sample_getters [sample_user ''ann''] [sample_user ''ann'']) '''') (review_attributes ''p'')))"
    by code_simp
  then show "\<exists>r a. \<not> distinct (fst (AllowedSubjects r a))" by blast
qed

end
