(* ===== verification/RoleAdapter.thy ===== *)
theory RoleAdapter
  imports SubjectLocator
begin

text \<open>
  \<^verbatim>\<open>pkg/apiserver/roleadapter.go\<close>: the getters the server builds its resolver from, over the listers
  of the shared informers. A lister reads an indexer, which holds the last objects its watch has
  delivered, each under the key \<^verbatim>\<open>namespace/name\<close>, or \<^verbatim>\<open>name\<close> for an object without a namespace. The
  theory also wires the evaluator and the reviewer together, as \<^verbatim>\<open>apiserver.go\<close> does.
\<close>

section \<open>Listers over an indexer\<close>

record rbac_indexers =
  ix_roles :: "role list"
  ix_roleBindings :: "role_binding list"
  ix_clusterRoles :: "cluster_role list"
  ix_clusterRoleBindings :: "cluster_role_binding list"

definition RbacResource :: "string \<Rightarrow> group_resource" where
  "RbacResource resource = \<lparr>gr_Group = RbacGroupName, gr_Resource = resource\<rparr>"

text \<open>\<^verbatim>\<open>indexer.GetByKey\<close> and \<^verbatim>\<open>cache.ListAllByNamespace\<close> with the selector that matches everything.\<close>

definition GetByKey :: "('o \<Rightarrow> object_meta) \<Rightarrow> 'o list \<Rightarrow> string \<Rightarrow> 'o option" where
  "GetByKey meta items key = find (\<lambda>m. meta_key (meta m) = key) items"

definition ListAllByNamespace :: "('o \<Rightarrow> object_meta) \<Rightarrow> 'o list \<Rightarrow> string \<Rightarrow> 'o list" where
  "ListAllByNamespace meta items ns =
     (if ns = '''' then items else filter (\<lambda>m. om_Namespace (meta m) = ns) items)"

definition GetRole :: "rbac_indexers \<Rightarrow> string \<Rightarrow> string \<Rightarrow> go_error + role" where
  "GetRole g ns name =
     (case GetByKey role_ObjectMeta (ix_roles g) (ns @ ''/'' @ name) of
        None \<Rightarrow> Inl (NotFound (RbacResource ''role'') name)
      | Some obj \<Rightarrow> Inr obj)"

definition ListRoleBindings :: "rbac_indexers \<Rightarrow> string \<Rightarrow> go_error + role_binding list" where
  "ListRoleBindings l ns = Inr (ListAllByNamespace rb_ObjectMeta (ix_roleBindings l) ns)"

definition GetClusterRole :: "rbac_indexers \<Rightarrow> string \<Rightarrow> go_error + cluster_role" where
  "GetClusterRole g name =
     (case GetByKey cr_ObjectMeta (ix_clusterRoles g) name of
        None \<Rightarrow> Inl (NotFound (RbacResource ''clusterrole'') name)
      | Some obj \<Rightarrow> Inr obj)"

definition ListClusterRoleBindings :: "rbac_indexers \<Rightarrow> go_error + cluster_role_binding list" where
  "ListClusterRoleBindings l = Inr (ix_clusterRoleBindings l)"

text \<open>The wiring of \<^verbatim>\<open>apiserver.go\<close>: the resolver, the evaluator without a super user, the reviewer.\<close>

definition server_getters :: "rbac_indexers \<Rightarrow> default_rule_resolver" where
  "server_getters ix =
     \<lparr>roleGetter = GetRole ix, roleBindingLister = ListRoleBindings ix,
      clusterRoleGetter = GetClusterRole ix, clusterRoleBindingLister = ListClusterRoleBindings ix\<rparr>"

definition server_evaluator :: "rbac_indexers \<Rightarrow> subject_access_evaluator" where
  "server_evaluator ix = NewSubjectAccessEvaluator (server_getters ix) ''''"

definition server_reviewer :: "rbac_indexers \<Rightarrow> string \<Rightarrow> subject list \<times> go_error option" where
  "server_reviewer ix = Review (server_evaluator ix)"

section \<open>The listers are a source of role objects\<close>

lemma GetByKey_SomeD: "GetByKey meta items key = Some x \<Longrightarrow> meta_key (meta x) = key \<and> x \<in> set items"
  by (auto simp: GetByKey_def dest!: find_SomeD)

interpretation lister: rbac_source "server_getters ix" for ix
proof unfold_locales
  fix ns name rl
  assume "roleGetter (server_getters ix) ns name = Inr rl"
  then show "meta_key (role_ObjectMeta rl) = ns @ ''/'' @ name"
    by (auto simp: server_getters_def GetRole_def dest!: GetByKey_SomeD split: option.splits)
next
  fix name crl
  assume "clusterRoleGetter (server_getters ix) name = Inr crl" "om_Namespace (cr_ObjectMeta crl) = ''''"
  then show "om_Name (cr_ObjectMeta crl) = name"
    by (auto simp: server_getters_def GetClusterRole_def meta_key_def dest!: GetByKey_SomeD split: option.splits)
next
  fix ns bs b
  assume "ns \<noteq> ''''" "roleBindingLister (server_getters ix) ns = Inr bs" "b \<in> set bs"
  then show "om_Namespace (rb_ObjectMeta b) = ns"
    by (auto simp: server_getters_def ListRoleBindings_def ListAllByNamespace_def)
qed

section \<open>Isolation of namespaces\<close>

text \<open>The objects of the cluster and those of one namespace; names carry no slash.\<close>

definition restrict_namespace :: "string \<Rightarrow> rbac_indexers \<Rightarrow> rbac_indexers" where
  "restrict_namespace ns ix = ix\<lparr>
     ix_roles := filter (\<lambda>r. om_Namespace (role_ObjectMeta r) = ns) (ix_roles ix),
     ix_roleBindings := filter (\<lambda>b. om_Namespace (rb_ObjectMeta b) = ns) (ix_roleBindings ix)\<rparr>"

definition namespaced_roles :: "rbac_indexers \<Rightarrow> bool" where
  "namespaced_roles ix \<longleftrightarrow> list_all (\<lambda>r. om_Namespace (role_ObjectMeta r) \<noteq> '''' \<and>
     CHR ''/'' \<notin> set (om_Namespace (role_ObjectMeta r))) (ix_roles ix)"

lemma slash_split:
  "CHR ''/'' \<notin> set a \<Longrightarrow> CHR ''/'' \<notin> set b \<Longrightarrow> a @ ''/'' @ x = b @ ''/'' @ y \<longleftrightarrow> a = b \<and> x = y"
proof (induction a arbitrary: b)
  case (Cons c a)
  then show ?case by (cases b) auto
next
  case Nil
  then show ?case by (cases b) auto
qed

lemma find_filter_same:
  "(\<And>x. x \<in> set xs \<Longrightarrow> P x \<Longrightarrow> Q x) \<Longrightarrow> find P (filter Q xs) = find P xs"
  by (induction xs) auto

lemma GetRole_restrict:
  assumes "namespaced_roles ix" and "CHR ''/'' \<notin> set ns"
  shows "GetRole (restrict_namespace ns ix) ns name = GetRole ix ns name"
proof -
  have "om_Namespace (role_ObjectMeta r) = ns"
    if "r \<in> set (ix_roles ix)" "meta_key (role_ObjectMeta r) = ns @ ''/'' @ name" for r
    using that assms slash_split [of "om_Namespace (role_ObjectMeta r)" ns]
    by (auto simp: namespaced_roles_def list_all_iff meta_key_def)
  then show ?thesis
    by (simp add: GetRole_def GetByKey_def restrict_namespace_def find_filter_same)
qed

lemma GetRole_no_namespace:
  "namespaced_roles ix \<Longrightarrow> GetRole ix '''' name = Inl (NotFound (RbacResource ''role'') name)"
proof -
  assume n: "namespaced_roles ix"
  have "meta_key (role_ObjectMeta r) \<noteq> ''/'' @ name" if "r \<in> set (ix_roles ix)" for r
    using n that by (cases "om_Namespace (role_ObjectMeta r)")
      (auto simp: namespaced_roles_def list_all_iff meta_key_def)
  then show ?thesis
    by (auto simp: GetRole_def GetByKey_def find_None_iff split: option.splits dest!: find_SomeD)
qed

lemma namespaced_roles_restrict: "namespaced_roles ix \<Longrightarrow> namespaced_roles (restrict_namespace ns ix)"
  by (auto simp: namespaced_roles_def restrict_namespace_def list_all_iff)

lemma rule_events_restrict:
  assumes "namespaced_roles ix" and "CHR ''/'' \<notin> set ns"
  shows "rule_events (server_getters (restrict_namespace ns ix)) u ns = rule_events (server_getters ix) u ns"
proof (rule rule_events_cong)
  fix name
  show "roleGetter (server_getters (restrict_namespace ns ix)) '''' name = roleGetter (server_getters ix) '''' name"
    using assms by (simp add: server_getters_def GetRole_no_namespace namespaced_roles_restrict)
  show "roleGetter (server_getters (restrict_namespace ns ix)) ns name = roleGetter (server_getters ix) ns name"
    using assms by (simp add: server_getters_def GetRole_restrict)
  show "clusterRoleGetter (server_getters (restrict_namespace ns ix)) name = clusterRoleGetter (server_getters ix) name"
    by (simp add: server_getters_def GetClusterRole_def restrict_namespace_def)
next
  show "clusterRoleBindingLister (server_getters (restrict_namespace ns ix)) = clusterRoleBindingLister (server_getters ix)"
    by (simp add: server_getters_def ListClusterRoleBindings_def restrict_namespace_def)
  show "ns \<noteq> '''' \<Longrightarrow> roleBindingLister (server_getters (restrict_namespace ns ix)) ns = roleBindingLister (server_getters ix) ns"
    by (simp add: server_getters_def ListRoleBindings_def ListAllByNamespace_def restrict_namespace_def)
qed

section \<open>Properties\<close>

text \<open>
  C22: Namespaces are isolated: the rules a user has in a namespace, and the errors met, are those
  computed from the cluster's objects and the objects of that namespace alone; no role or binding of
  another namespace can change them.
\<close>

theorem RulesFor_isolated:
  assumes "namespaced_roles ix" and "CHR ''/'' \<notin> set ns"
  shows "RulesFor (server_getters (restrict_namespace ns ix)) u ns = RulesFor (server_getters ix) u ns"
  by (simp add: RulesFor_events rule_events_restrict [OF assms])

definition sample_indexers :: rbac_indexers where
  "sample_indexers =
     \<lparr>ix_roles = [\<lparr>role_ObjectMeta = empty_meta\<lparr>om_Name := ''edit'', om_Namespace := ''p''\<rparr>, role_Rules = [sample_rule]\<rparr>,
        \<lparr>role_ObjectMeta = empty_meta\<lparr>om_Name := ''edit'', om_Namespace := ''q''\<rparr>, role_Rules = []\<rparr>],
      ix_roleBindings = [\<lparr>rb_ObjectMeta = empty_meta\<lparr>om_Name := ''b'', om_Namespace := ''p''\<rparr>,
        rb_Subjects = [sample_user ''ann''],
        rb_RoleRef = \<lparr>ref_APIGroup = RbacGroupName, ref_Kind = ''Role'', ref_Name = ''edit''\<rparr>\<rparr>],
      ix_clusterRoles = [], ix_clusterRoleBindings = []\<rparr>"

theorem RulesFor_isolated_witness:
  "RulesFor (server_getters (restrict_namespace ''p'' sample_indexers)) \<lparr>ui_Name = ''ann'', ui_Groups = []\<rparr> ''p''
     = ([sample_rule], None)"
proof -
  have "namespaced_roles sample_indexers"
    by (simp add: namespaced_roles_def sample_indexers_def)
  moreover have "RulesFor (server_getters sample_indexers) \<lparr>ui_Name = ''ann'', ui_Groups = []\<rparr> ''p'' = ([sample_rule], None)"
    by code_simp
  ultimately show ?thesis
    using RulesFor_isolated [of sample_indexers "''p''"] by simp
qed

text \<open>
  Every rule a user has in a namespace comes from a binding that names the user and lies in that
  namespace or is a cluster binding, and the binding's reference was resolved there.
\<close>

theorem RulesFor_bound:
  assumes "ns \<noteq> ''''" and "rl \<in> set (fst (RulesFor (server_getters ix) user ns))"
  shows "(\<exists>b \<in> set (ix_clusterRoleBindings ix).
            (\<exists>s \<in> set (crb_Subjects b). appliesToUser user s '''') \<and>
            (\<exists>rules. GetRoleReferenceRules (server_getters ix) (crb_RoleRef b) '''' = Inr rules \<and> rl \<in> set rules)) \<or>
         (\<exists>b \<in> set (ix_roleBindings ix). om_Namespace (rb_ObjectMeta b) = ns \<and>
            (\<exists>s \<in> set (rb_Subjects b). appliesToUser user s ns) \<and>
            (\<exists>rules. GetRoleReferenceRules (server_getters ix) (rb_RoleRef b) ns = Inr rules \<and> rl \<in> set rules))"
  using lister.namespace_binding_source [OF assms] assms(1)
  by (force simp: appliesTo_iff server_getters_def ListClusterRoleBindings_def ListRoleBindings_def
      ListAllByNamespace_def)

theorem RulesFor_bound_witness:
  "(\<exists>b \<in> set (ix_roleBindings sample_indexers). om_Namespace (rb_ObjectMeta b) = ''p'' \<and>
      (\<exists>s \<in> set (rb_Subjects b). appliesToUser \<lparr>ui_Name = ''ann'', ui_Groups = []\<rparr> s ''p''))"
proof -
  have "sample_rule \<in> set (fst (RulesFor (server_getters sample_indexers) \<lparr>ui_Name = ''ann'', ui_Groups = []\<rparr> ''p''))"
    by code_simp
  moreover have "ix_clusterRoleBindings sample_indexers = []"
    by (simp add: sample_indexers_def)
  ultimately show ?thesis
    using RulesFor_bound [of "''p''" sample_rule sample_indexers "\<lparr>ui_Name = ''ann'', ui_Groups = []\<rparr>"]
    by simp blast
qed

end
