(* ===== verification/CacheCorrect.thy ===== *)
theory CacheCorrect
  imports AuthCache RoleAdapter
begin

text \<open>
  What a synchronization of the authorization cache achieves, against an abstract cache that maps
  each namespace to the users and groups its last review found: the invariant between the review
  records and the subject stores, the state a synchronization leaves, incremental or complete, what
  \<^verbatim>\<open>List\<close> then answers, and the agreement of the two with the RBAC objects.
\<close>

section \<open>A list of requests\<close>

text \<open>A request for the namespace that the last review does not satisfy.\<close>

definition pending :: "review_request list \<Rightarrow> stores \<Rightarrow> string \<Rightarrow> bool" where
  "pending rqs st ns \<longleftrightarrow> (\<exists>rq \<in> set rqs. rq_namespace rq = ns \<and>
     \<not> skipReview (Some rq) (lastKnown (reviewRecordStore st) ns))"

text \<open>The abstract cache after the requests: a pending namespace has what its review finds.\<close>

definition reviewed_access :: "sync_view \<Rightarrow> review_request list \<Rightarrow> stores \<Rightarrow> string
    \<Rightarrow> (string set \<times> string set) option" where
  "reviewed_access v rqs st ns =
     (if pending rqs st ns \<and> review_of v ns \<noteq> None then review_of v ns else access_of st ns)"

lemma pending_Cons:
  "pending (rq # rqs) st ns \<longleftrightarrow>
     (rq_namespace rq = ns \<and> \<not> skipReview (Some rq) (lastKnown (reviewRecordStore st) ns)) \<or> pending rqs st ns"
  by (auto simp: pending_def)

lemma syncRequest_inv:
  assumes "index_inv st" and "syncRequest v rq (ac, st) = Return ((ac', st'), err)"
  shows "index_inv st'"
  using assms(2) by (cases rule: syncRequest_cases) (auto simp: assms(1) update_stores_inv)

lemma syncRequest_frame:
  assumes "syncRequest v rq (ac, st) = Return ((ac', st'), err)"
  shows "\<exists>objs. ac' = ac\<lparr>ac_watcherObjects := objs\<rparr>"
  using assms
proof (cases rule: syncRequest_cases)
  case reviewed
  then show ?thesis by blast
qed (auto intro: exI [of _ "ac_watcherObjects ac"])

lemma syncRequest_access:
  assumes "syncRequest v rq (ac, st) = Return ((ac', st'), err)"
  shows "reviewed_access v rqs st' ns = reviewed_access v (rq # rqs) st ns"
  using assms
proof (cases rule: syncRequest_cases)
  case skipped
  then have "pending (rq # rqs) st ns = pending rqs st ns"
    by (auto simp: pending_Cons)
  with skipped show ?thesis by (simp add: reviewed_access_def)
next
  case (failed e)
  then have "review_of v ns = None \<or> pending (rq # rqs) st ns = pending rqs st ns"
    by (auto simp: pending_Cons)
  with failed show ?thesis by (auto simp: reviewed_access_def)
next
  case (reviewed users groups objs)
  show ?thesis
  proof (cases "ns = rq_namespace rq")
    case True
    with reviewed have "pending (rq # rqs) st ns" by (simp add: pending_Cons)
    with True reviewed show ?thesis
      by (simp add: reviewed_access_def access_of_update_stores)
  next
    case False
    with reviewed have "pending rqs st' ns = pending (rq # rqs) st ns"
      by (auto simp: pending_def lastKnown_update_stores)
    with False reviewed show ?thesis
      by (auto simp: reviewed_access_def access_of_update_stores)
  qed
qed

lemma sync_requests_correct:
  assumes "index_inv st" and "sync_requests v rqs (ac, st) = Return (ac', st')"
  shows "index_inv st' \<and> (\<exists>objs. ac' = ac\<lparr>ac_watcherObjects := objs\<rparr>) \<and>
    access_of st' = reviewed_access v rqs st"
  using assms
proof (induction rqs arbitrary: ac st)
  case Nil
  then show ?case
    by (auto simp: reviewed_access_def pending_def fun_eq_iff intro: exI [of _ "ac_watcherObjects ac"])
next
  case (Cons rq rqs)
  from Cons(3) obtain ac1 st1 err where s: "syncRequest v rq (ac, st) = Return ((ac1, st1), err)"
    and r: "sync_requests v rqs (ac1, st1) = Return (ac', st')"
    by auto
  have IH: "index_inv st' \<and> (\<exists>objs. ac' = ac1\<lparr>ac_watcherObjects := objs\<rparr>) \<and>
      access_of st' = reviewed_access v rqs st1"
    by (rule Cons(1) [OF syncRequest_inv [OF Cons(2) s] r])
  obtain objs where "ac1 = ac\<lparr>ac_watcherObjects := objs\<rparr>"
    using syncRequest_frame [OF s] by blast
  with IH have "\<exists>objs. ac' = ac\<lparr>ac_watcherObjects := objs\<rparr>" by auto
  moreover have "reviewed_access v rqs st1 = reviewed_access v (rq # rqs) st"
    using syncRequest_access [OF s] by (simp add: fun_eq_iff)
  ultimately show ?case using IH by simp
qed

lemma sync_requests_append:
  "sync_requests v (rqs @ rqs') acst = bind_outcome (sync_requests v rqs acst) (sync_requests v rqs')"
proof (induction v rqs acst rule: sync_requests.induct)
  case (2 v rq rqs acst)
  show ?case
    by (cases "syncRequest v rq acst") (auto simp: 2)
qed simp

section \<open>Purging\<close>

lemma purge_step_inv:
  assumes inv: "index_inv st" and r: "store_GetByKey (reviewRecordStore st) (rq_namespace r) = Some r"
  defines "st' \<equiv> \<lparr>userSubjectRecordStore =
                deleteNamespaceFromSubjects (userSubjectRecordStore st) (rr_users r) (rq_namespace r),
              groupSubjectRecordStore =
                deleteNamespaceFromSubjects (groupSubjectRecordStore st) (rr_groups r) (rq_namespace r),
              reviewRecordStore = store_Delete reviewRecordKeyFn r (reviewRecordStore st)\<rparr>"
  shows "index_inv st'" and "access_of st' ns = (if ns = rq_namespace r then None else access_of st ns)"
proof -
  let ?ns = "rq_namespace r"
  have lk: "lastKnown (reviewRecordStore st') n = (if n = ?ns then None else lastKnown (reviewRecordStore st) n)" for n
    by (simp add: st'_def lastKnown_def store_GetByKey_Delete reviewRecordKeyFn_def)
  then show a: "access_of st' ns = (if ns = ?ns then None else access_of st ns)" for ns
    by (simp add: access_of_def)
  have wf: "subject_store_wf (userSubjectRecordStore st)" "subject_store_wf (groupSubjectRecordStore st)"
    "store_wf reviewRecordKeyFn (reviewRecordStore st)"
    using inv by (simp_all add: index_inv_def)
  have u: "?ns \<in> granted (userSubjectRecordStore st) x \<longleftrightarrow> x \<in> set (rr_users r)"
    and g: "?ns \<in> granted (groupSubjectRecordStore st) x \<longleftrightarrow> x \<in> set (rr_groups r)" for x
    using index_inv_user [OF inv] index_inv_group [OF inv] r
    by (simp_all add: access_users_lastKnown access_groups_lastKnown lastKnown_def)
  have au: "access_users st' n = (if n = ?ns then {} else access_users st n)"
    and ag: "access_groups st' n = (if n = ?ns then {} else access_groups st n)" for n
    by (simp_all add: access_users_def access_groups_def a)
  have "n \<in> granted (userSubjectRecordStore st') x \<longleftrightarrow> x \<in> access_users st' n" for n x
    using subj.clear_access [OF wf(1) u, of n x] index_inv_user [OF inv] by (simp add: st'_def au [unfolded st'_def])
  moreover have "n \<in> granted (groupSubjectRecordStore st') x \<longleftrightarrow> x \<in> access_groups st' n" for n x
    using subj.clear_access [OF wf(2) g, of n x] index_inv_group [OF inv] by (simp add: st'_def ag [unfolded st'_def])
  ultimately show "index_inv st'"
    using wf by (simp add: index_inv_def) (simp add: st'_def subj.wf_del store_wf_Delete)
qed

lemma purge_loop_correct:
  assumes "index_inv st" and "\<forall>r \<in> set rs. store_GetByKey (reviewRecordStore st) (rq_namespace r) = Some r"
    and "distinct (map rq_namespace rs)"
  shows "index_inv (purge_loop names rs st) \<and>
    access_of (purge_loop names rs st) ns =
      (if ns \<in> rq_namespace ` set rs \<and> ns \<notin> set names then None else access_of st ns)"
  using assms
proof (induction rs arbitrary: st)
  case (Cons r rs)
  show ?case
  proof (cases "set_Has names (rq_namespace r)")
    case True
    then have "rq_namespace r \<in> set names" "purge_loop names (r # rs) st = purge_loop names rs st"
      by (simp_all add: cache_simps)
    moreover have "index_inv (purge_loop names rs st) \<and> access_of (purge_loop names rs st) ns =
        (if ns \<in> rq_namespace ` set rs \<and> ns \<notin> set names then None else access_of st ns)"
      using Cons(3,4) by (intro Cons(1) Cons(2)) simp_all
    ultimately show ?thesis by (cases "ns = rq_namespace r") simp_all
  next
    case False
    define st1 where "st1 = \<lparr>userSubjectRecordStore =
                deleteNamespaceFromSubjects (userSubjectRecordStore st) (rr_users r) (rq_namespace r),
              groupSubjectRecordStore =
                deleteNamespaceFromSubjects (groupSubjectRecordStore st) (rr_groups r) (rq_namespace r),
              reviewRecordStore = store_Delete reviewRecordKeyFn r (reviewRecordStore st)\<rparr>"
    have r: "store_GetByKey (reviewRecordStore st) (rq_namespace r) = Some r"
      using Cons(3) by simp
    note step = purge_step_inv [OF Cons(2) r, folded st1_def]
    have "\<forall>q \<in> set rs. store_GetByKey (reviewRecordStore st1) (rq_namespace q) = Some q"
    proof
      fix q
      assume q: "q \<in> set rs"
      then have "rq_namespace q \<in> rq_namespace ` set rs" by (rule imageI)
      then have "rq_namespace q \<noteq> rq_namespace r" using Cons(4) by (metis distinct.simps(2) list.simps(9) set_map)
      moreover have "store_GetByKey (reviewRecordStore st) (rq_namespace q) = Some q" using Cons(3) q by simp
      ultimately show "store_GetByKey (reviewRecordStore st1) (rq_namespace q) = Some q"
        by (simp add: st1_def store_GetByKey_Delete reviewRecordKeyFn_def)
    qed
    moreover have "distinct (map rq_namespace rs)"
      using Cons(4) by simp
    ultimately have IH: "index_inv (purge_loop names rs st1) \<and> access_of (purge_loop names rs st1) ns =
        (if ns \<in> rq_namespace ` set rs \<and> ns \<notin> set names then None else access_of st1 ns)"
      by (rule Cons(1) [OF step(1)])
    have eq: "purge_loop names (r # rs) st = purge_loop names rs st1"
      using False by (simp add: st1_def)
    have "rq_namespace r \<notin> set names"
      using False by (simp add: cache_simps)
    then show ?thesis
      unfolding eq using IH step(2) [of ns] by (cases "ns = rq_namespace r") simp_all
  qed
qed simp

lemma purge_correct:
  fixes names :: strset
  assumes "index_inv st"
  defines "st' \<equiv> purge_loop names (store_List (reviewRecordStore st)) st"
  shows "index_inv st' \<and> access_of st' ns = (if ns \<in> set names then access_of st ns else None)"
proof -
  let ?rs = "store_List (reviewRecordStore st)"
  have wf: "store_wf reviewRecordKeyFn (reviewRecordStore st)"
    using assms(1) by (simp add: index_inv_def)
  have get: "r \<in> set ?rs \<longleftrightarrow> store_GetByKey (reviewRecordStore st) (rq_namespace r) = Some r" for r
    using st.items_get [OF wf, of r] by (simp add: reviewRecordKeyFn_def)
  have d: "distinct (map rq_namespace ?rs)"
    using st.items_distinct [OF wf] by (simp add: reviewRecordKeyFn_def [abs_def])
  have "ns \<in> rq_namespace ` set ?rs \<longleftrightarrow> access_of st ns \<noteq> None"
  proof -
    have "access_of st ns \<noteq> None \<longleftrightarrow> (\<exists>r. store_GetByKey (reviewRecordStore st) ns = Some r)"
      by (auto simp: access_of_def lastKnown_def split: option.splits)
    also have "\<dots> \<longleftrightarrow> ns \<in> rq_namespace ` set ?rs"
    proof
      assume "\<exists>r. store_GetByKey (reviewRecordStore st) ns = Some r"
      then obtain r where r: "store_GetByKey (reviewRecordStore st) ns = Some r" by blast
      then have "rq_namespace r = ns" using st.get_key [OF wf] by (simp add: reviewRecordKeyFn_def)
      with r get [of r] show "ns \<in> rq_namespace ` set ?rs" by blast
    next
      assume "ns \<in> rq_namespace ` set ?rs"
      then obtain r where "r \<in> set ?rs" "ns = rq_namespace r" by blast
      with get [of r] show "\<exists>r. store_GetByKey (reviewRecordStore st) ns = Some r" by blast
    qed
    finally show ?thesis by simp
  qed
  moreover have "\<forall>r \<in> set ?rs. store_GetByKey (reviewRecordStore st) (rq_namespace r) = Some r"
    using get by blast
  note purge_loop_correct [OF assms(1) this d, of names ns]
  ultimately show ?thesis
    by (cases "ns \<in> set names"; cases "access_of st ns") (simp_all add: st'_def)
qed

section \<open>The state after a synchronization\<close>

definition all_requests :: "sync_view \<Rightarrow> review_request list" where
  "all_requests v =
     (case v_namespaces v of Inl e \<Rightarrow> [] | Inr ns \<Rightarrow> map namespace_request ns) @
     (case v_roles v of Inl e \<Rightarrow> [] | Inr rs \<Rightarrow> map role_request rs) @
     (case v_roleBindings v of Inl e \<Rightarrow> [] | Inr bs \<Rightarrow> map binding_request bs)"

definition seen_names :: "sync_view \<Rightarrow> strset" where
  "seen_names v = (case v_namespaces v of Inl e \<Rightarrow> [] | Inr ns \<Rightarrow> NewString (map ns_Name ns))"

lemma synchronize_phases:
  "bind_outcome (synchronizeNamespaces v acst) (\<lambda>(acst, names).
     bind_outcome (synchronizeRoles v acst) (\<lambda>acst. bind_outcome (synchronizeRoleBindings v acst) (\<lambda>acst. f names acst))) =
   bind_outcome (sync_requests v (all_requests v) acst) (f (seen_names v))"
  by (cases "v_namespaces v"; cases "v_roles v"; cases "v_roleBindings v")
    (simp_all add: synchronizeNamespaces_def synchronizeRoles_def synchronizeRoleBindings_def all_requests_def
      seen_names_def sync_requests_append bind_outcome_assoc)

lemma notify_deleted_frame:
  "notify_deleted v nss ac = Return ac' \<Longrightarrow> \<exists>objs. ac' = ac\<lparr>ac_watcherObjects := objs\<rparr>"
proof (induction v nss ac rule: notify_deleted.induct)
  case (1 v ac)
  then show ?case by (intro exI [of _ "ac_watcherObjects ac"]) simp
next
  case (2 v ns nss ac)
  then obtain ac1 where n: "notifyWatchers (v_nsGet v) ns [] [] ac = Return ac1" "notify_deleted v nss ac1 = Return ac'"
    by auto
  obtain objs where "ac1 = ac\<lparr>ac_watcherObjects := objs\<rparr>"
    using notifyWatchers_frame [OF n(1)] by blast
  with 2(1) [OF n] show ?case by auto
qed

lemma invalidateCache_frame:
  "ac_stores (snd (invalidateCache v ac)) = ac_stores ac"
  "allKnownNamespaces (snd (invalidateCache v ac)) = allKnownNamespaces ac"
  "lastState (snd (invalidateCache v ac)) = lastState ac"
  "ac_watchers (snd (invalidateCache v ac)) = ac_watchers ac"
  "watcherLock (snd (invalidateCache v ac)) = watcherLock ac"
  "ac_watcherObjects (snd (invalidateCache v ac)) = ac_watcherObjects ac"
  by (simp_all add: invalidateCache_def Let_def split: sum.splits)

definition skips :: "sync_view \<Rightarrow> auth_cache \<Rightarrow> bool" where
  "skips v ac \<longleftrightarrow> Join (current_versions v) '','' = lastState ac"

text \<open>The stores a synchronization starts from.\<close>

definition base_stores :: "sync_view \<Rightarrow> auth_cache \<Rightarrow> stores" where
  "base_stores v ac = (if fst (invalidateCache v ac) then NewStores else ac_stores ac)"

lemma synchronize_skips: "skips v ac \<Longrightarrow> synchronize v ac = Return ac"
  by (simp add: synchronize_def synchronize_with_def skips_def stateless_SkipSynchronize_def Let_def)

lemma synchronize_run:
  assumes "\<not> skips v ac"
  shows "synchronize v ac =
    bind_outcome (sync_requests v (all_requests v) (snd (invalidateCache v ac), base_stores v ac))
      (\<lambda>acst. bind_outcome (purgeDeletedNamespaces v (allKnownNamespaces (fst acst)) (seen_names v) acst)
        (\<lambda>(ac2, st2). Return (ac2\<lparr>ac_stores := st2, allKnownNamespaces := seen_names v,
           lastState := Join (current_versions v) '',''\<rparr>)))"
proof -
  obtain inval ac1 where i: "invalidateCache v ac = (inval, ac1)" by fastforce
  have "base_stores v ac = (if inval then NewStores else ac_stores ac1)"
    using invalidateCache_frame(1) [of v ac] by (simp add: base_stores_def i)
  then show ?thesis
    using assms
    by (simp add: synchronize_def synchronize_with_def skips_def stateless_SkipSynchronize_def i
        synchronize_phases [of v _ "\<lambda>names acst. bind_outcome (purgeDeletedNamespaces v (allKnownNamespaces (fst acst)) names acst)
          (\<lambda>(ac2, st2). Return (ac2\<lparr>ac_stores := st2, allKnownNamespaces := names,
             lastState := Join (current_versions v) '',''\<rparr>))"])
qed

lemma synchronize_state:
  assumes "index_inv (ac_stores ac)" and "\<not> skips v ac" and "synchronize v ac = Return ac'"
  shows "index_inv (ac_stores ac') \<and>
    (\<forall>ns. access_of (ac_stores ac') ns =
       (if ns \<in> set (seen_names v) then reviewed_access v (all_requests v) (base_stores v ac) ns else None)) \<and>
    allKnownNamespaces ac' = seen_names v \<and> lastState ac' = Join (current_versions v) '','' \<and>
    ac_watchers ac' = ac_watchers ac \<and> watcherLock ac' = watcherLock ac"
proof -
  let ?ac1 = "snd (invalidateCache v ac)" and ?b = "base_stores v ac"
  obtain ac2 st2 ac3 where s: "sync_requests v (all_requests v) (?ac1, ?b) = Return (ac2, st2)"
    and n: "notify_deleted v (set_Difference (allKnownNamespaces ac2) (seen_names v)) ac2 = Return ac3"
    and ac': "ac' = ac3\<lparr>ac_stores := purge_loop (seen_names v) (store_List (reviewRecordStore st2)) st2,
        allKnownNamespaces := seen_names v, lastState := Join (current_versions v) '',''\<rparr>"
    using assms(2,3) by (auto simp: synchronize_run purgeDeletedNamespaces_def)
  have b: "index_inv ?b"
    using assms(1) by (simp add: base_stores_def index_inv_New)
  note c = sync_requests_correct [OF b s]
  then have inv: "index_inv st2" and acc: "access_of st2 = reviewed_access v (all_requests v) ?b"
    by blast+
  obtain objs where "ac2 = ?ac1\<lparr>ac_watcherObjects := objs\<rparr>" using c by blast
  moreover obtain objs' where "ac3 = ac2\<lparr>ac_watcherObjects := objs'\<rparr>"
    using notify_deleted_frame [OF n] by blast
  ultimately show ?thesis
    using purge_correct [OF inv, of "seen_names v"] invalidateCache_frame [of v ac]
    by (simp add: ac' acc)
qed

text \<open>With new stores every namespace that is seen is pending.\<close>

lemma pending_seen:
  "ns \<in> set (seen_names v) \<Longrightarrow> pending (all_requests v) NewStores ns"
proof -
  assume "ns \<in> set (seen_names v)"
  then obtain namespaces n where v: "v_namespaces v = Inr namespaces" "n \<in> set namespaces" "ns = ns_Name n"
    by (cases "v_namespaces v") (auto simp: seen_names_def cache_simps)
  then have "namespace_request n \<in> set (all_requests v)" "rq_namespace (namespace_request n) = ns"
    by (simp_all add: all_requests_def namespace_request_def)
  moreover have "\<not> skipReview (Some (namespace_request n)) (lastKnown (reviewRecordStore NewStores) ns)"
    by (simp add: skipReview_def)
  ultimately show ?thesis unfolding pending_def by blast
qed

lemma synchronize_rebuilt:
  assumes "fst (invalidateCache v ac)" and "ns \<in> set (seen_names v)"
  shows "reviewed_access v (all_requests v) (base_stores v ac) ns = review_of v ns"
  using assms pending_seen [OF assms(2)]
  by (cases "review_of v ns") (simp_all add: reviewed_access_def base_stores_def)

section \<open>Listing\<close>

lemma group_keys_set:
  "set (group_keys st gs keys) = set keys \<union> (\<Union>g \<in> set gs. granted st g)"
  by (induction st gs keys rule: group_keys.induct) (auto simp: granted_def cache_simps split: option.splits)

lemma group_keys_distinct: "distinct keys \<Longrightarrow> distinct (group_keys st gs keys)"
  by (induction st gs keys rule: group_keys.induct) (auto simp: set_Insert_distinct split: option.splits)

lemma visible_keys_set:
  "set (visible_keys st u) = granted (userSubjectRecordStore st) (ui_Name u) \<union>
     (\<Union>g \<in> set (ui_Groups u). granted (groupSubjectRecordStore st) g)"
  by (auto simp: visible_keys_def group_keys_set granted_def cache_simps split: option.splits)

lemma visible_keys_distinct: "distinct (visible_keys st u)"
  by (auto simp: visible_keys_def intro!: group_keys_distinct split: option.splits)

lemma list_namespaces_result:
  "list_namespaces (namespace_Get items) keys acc =
     Inr (acc @ List.map_filter (\<lambda>k. case namespace_Get items k of Inl e \<Rightarrow> None | Inr n \<Rightarrow> Some n) keys)"
proof (induction keys arbitrary: acc)
  case (Cons k keys)
  then show ?case
    using namespace_Get_Inl [of items k]
    by (cases "namespace_Get items k") (auto simp: List.map_filter_def)
qed (simp add: List.map_filter_def)

text \<open>The user may see the namespace, as far as the abstract cache knows.\<close>

definition may_see :: "stores \<Rightarrow> user_info \<Rightarrow> string \<Rightarrow> bool" where
  "may_see st u ns \<longleftrightarrow> ui_Name u \<in> access_users st ns \<or> set (ui_Groups u) \<inter> access_groups st ns \<noteq> {}"

lemma visible_keys_may_see: "index_inv st \<Longrightarrow> ns \<in> set (visible_keys st u) \<longleftrightarrow> may_see st u ns"
  by (auto simp: visible_keys_set may_see_def index_inv_user index_inv_group)

definition found_namespaces :: "namespace list \<Rightarrow> string list \<Rightarrow> namespace list" where
  "found_namespaces items keys =
     List.map_filter (\<lambda>k. case namespace_Get items k of Inl e \<Rightarrow> None | Inr n \<Rightarrow> Some n) keys"

lemma found_namespaces_Cons:
  "found_namespaces items (k # keys) =
     (case namespace_Get items k of Inl e \<Rightarrow> found_namespaces items keys | Inr n \<Rightarrow> n # found_namespaces items keys)"
  by (simp add: found_namespaces_def List.map_filter_def split: sum.splits)

lemma found_namespaces_Nil [simp]: "found_namespaces items [] = []"
  by (simp add: found_namespaces_def List.map_filter_def)

lemma found_namespaces_mem:
  "n \<in> set (found_namespaces items keys) \<longleftrightarrow> namespace_Get items (ns_Name n) = Inr n \<and> ns_Name n \<in> set keys"
proof (induction keys)
  case (Cons k keys)
  show ?case
  proof (cases "namespace_Get items k")
    case (Inl e)
    with Cons show ?thesis by (auto simp: found_namespaces_Cons)
  next
    case (Inr m)
    with Cons namespace_Get_Inr [OF Inr] show ?thesis by (auto simp: found_namespaces_Cons)
  qed
qed simp

lemma found_namespaces_distinct:
  "distinct keys \<Longrightarrow> distinct (map ns_Name (found_namespaces items keys))"
proof (induction keys)
  case (Cons k keys)
  show ?case
  proof (cases "namespace_Get items k")
    case (Inr m)
    have "ns_Name m \<notin> ns_Name ` set (found_namespaces items keys)"
      using Cons(2) namespace_Get_Inr [OF Inr] by (auto simp: found_namespaces_mem)
    with Cons Inr show ?thesis by (simp add: found_namespaces_Cons)
  qed (use Cons in \<open>simp add: found_namespaces_Cons\<close>)
qed simp

lemma cache_List_result:
  assumes "index_inv (ac_stores ac)"
  shows "\<exists>ns. cache_List (namespace_Get items) ac u = Inr ns \<and> distinct (map ns_Name ns) \<and>
    (\<forall>n. n \<in> set ns \<longleftrightarrow> namespace_Get items (ns_Name n) = Inr n \<and> may_see (ac_stores ac) u (ns_Name n))"
proof -
  let ?ns = "found_namespaces items (visible_keys (ac_stores ac) u)"
  have "cache_List (namespace_Get items) ac u = Inr ?ns"
    by (simp add: cache_List_def list_namespaces_result found_namespaces_def)
  moreover have "distinct (map ns_Name ?ns)"
    by (rule found_namespaces_distinct [OF visible_keys_distinct])
  ultimately show ?thesis
    by (intro exI [of _ ?ns]) (simp add: found_namespaces_mem visible_keys_may_see [OF assms])
qed

end
