(* ===== verification/CacheProps.thy ===== *)
theory CacheProps
  imports CacheCorrect
begin

text \<open>
  The properties of the authorization cache: the states it can be in, the effect of a
  synchronization, what a user is shown, and the places where the code does less than it means to.
\<close>

section \<open>The states of the cache\<close>

text \<open>
  The operations on the cache in any order, together with whatever the watchers' goroutines do to
  the watchers' own channels in between.
\<close>

inductive cache_reachable :: "auth_cache \<Rightarrow> bool" where
  new: "cache_reachable (NewAuthorizationCache objs)"
| sync: "cache_reachable ac \<Longrightarrow> synchronize v ac = Return ac' \<Longrightarrow> cache_reachable ac'"
| add: "cache_reachable ac \<Longrightarrow> AddWatcher i ac = Return ac' \<Longrightarrow> cache_reachable ac'"
| remove: "cache_reachable ac \<Longrightarrow> RemoveWatcher i ac = Return ac' \<Longrightarrow> cache_reachable ac'"
| watchers: "cache_reachable ac \<Longrightarrow> cache_reachable (ac\<lparr>ac_watcherObjects := objs\<rparr>)"

lemma synchronize_index_inv:
  assumes "index_inv (ac_stores ac)" and "synchronize v ac = Return ac'"
  shows "index_inv (ac_stores ac') \<and> watcherLock ac' = watcherLock ac"
  using assms synchronize_state [OF assms(1) _ assms(2)] by (cases "skips v ac") (auto simp: synchronize_skips)

lemma reachable_index_inv: "cache_reachable ac \<Longrightarrow> index_inv (ac_stores ac) \<and> \<not> watcherLock ac"
proof (induction rule: cache_reachable.induct)
  case (new objs)
  then show ?case by (simp add: NewAuthorizationCache_def index_inv_New)
next
  case (sync ac v ac')
  then show ?case using synchronize_index_inv by blast
qed (auto simp: AddWatcher_def RemoveWatcher_def split: if_splits)

section \<open>A sample cluster\<close>

definition sample_view :: "string \<Rightarrow> role_binding list \<Rightarrow> sync_view" where
  "sample_view version bindings =
     \<lparr>v_namespaceVersion = ''1'', v_policyVersions = [''2'', ''3'', ''4'', version],
      v_namespaces = Inr [named_namespace ''p'' ''7''], v_clusterRoles = Inr [],
      v_clusterRoleBindings = Inr [], v_roles = Inr [], v_roleBindings = Inr bindings,
      v_review = (\<lambda>ns. (concat (map rb_Subjects bindings), None)),
      v_nsGet = namespace_Get [named_namespace ''p'' ''7'']\<rparr>"

definition sample_binding :: role_binding where
  "sample_binding = \<lparr>rb_ObjectMeta = empty_meta\<lparr>om_Name := ''b'', om_Namespace := ''p'', om_UID := ''u1'',
     om_ResourceVersion := ''5''\<rparr>, rb_Subjects = [sample_user ''ann''], rb_RoleRef = sample_ref ''viewer''\<rparr>"

abbreviation new_cache :: auth_cache where
  "new_cache \<equiv> NewAuthorizationCache (\<lambda>i. sample_watcher False)"

definition run_sync :: "sync_view \<Rightarrow> auth_cache \<Rightarrow> auth_cache" where
  "run_sync v ac = (case synchronize v ac of Return ac' \<Rightarrow> ac' | _ \<Rightarrow> ac)"

lemma sync_no_watchers:
  "\<not> watcherLock ac \<Longrightarrow> ac_watchers ac = [] \<Longrightarrow> \<exists>st'. sync_requests v rqs (ac, st) = Return (ac, st')"
proof (induction rqs arbitrary: st)
  case (Cons rq rqs)
  have "\<exists>st1 err. syncRequest v rq (ac, st) = Return ((ac, st1), err)"
    using Cons(2,3) by (auto simp: syncRequest_def notifyWatchers_none Let_def split: prod.splits option.splits)
  then obtain st1 err where "syncRequest v rq (ac, st) = Return ((ac, st1), err)" by blast
  with Cons show ?case by simp
qed simp

lemma notify_deleted_none:
  "\<not> watcherLock ac \<Longrightarrow> ac_watchers ac = [] \<Longrightarrow> notify_deleted v nss ac = Return ac"
  by (induction nss) (simp_all add: notifyWatchers_none)

lemma synchronize_no_watchers:
  assumes "\<not> watcherLock ac" and "ac_watchers ac = []"
  shows "\<exists>ac'. synchronize v ac = Return ac'"
proof (cases "skips v ac")
  case False
  let ?ac1 = "snd (invalidateCache v ac)"
  obtain st' where "sync_requests v (all_requests v) (?ac1, base_stores v ac) = Return (?ac1, st')"
    using sync_no_watchers [of ?ac1 v "all_requests v" "base_stores v ac"] assms by (auto simp: invalidateCache_frame)
  then show ?thesis
    using assms by (simp add: synchronize_run [OF False] purgeDeletedNamespaces_def notify_deleted_none invalidateCache_frame)
qed (simp add: synchronize_skips)

lemma run_sync_Return: "\<not> watcherLock ac \<Longrightarrow> ac_watchers ac = [] \<Longrightarrow> synchronize v ac = Return (run_sync v ac)"
  using synchronize_no_watchers [of ac v] by (auto simp: run_sync_def)

lemma new_cache_simps [simp]: "\<not> watcherLock new_cache" "ac_watchers new_cache = []"
  "ac_stores new_cache = NewStores" "lastState new_cache = ''''"
  by (simp_all add: NewAuthorizationCache_def)

lemma not_skips_new [simp]: "\<not> skips v new_cache"
  by (simp add: skips_def current_versions_def)

lemma new_cache_inv [simp]: "index_inv (ac_stores new_cache)"
  by (simp add: index_inv_New)

section \<open>Properties of the state\<close>

text \<open>
  C5: In every state the cache can reach, the two subject stores are exactly the inverse of the
  review records: a namespace stands among a user's or group's namespaces if and only if the record
  of the namespace's last review names that user or group; no subject is kept without a namespace;
  and the watcher lock is free between operations.
\<close>

theorem cache_invariant:
  assumes "cache_reachable ac"
  shows "(\<forall>ns u. ns \<in> granted (userSubjectRecordStore (ac_stores ac)) u \<longleftrightarrow> u \<in> access_users (ac_stores ac) ns) \<and>
    (\<forall>ns g. ns \<in> granted (groupSubjectRecordStore (ac_stores ac)) g \<longleftrightarrow> g \<in> access_groups (ac_stores ac) ns) \<and>
    subject_store_wf (userSubjectRecordStore (ac_stores ac)) \<and>
    subject_store_wf (groupSubjectRecordStore (ac_stores ac)) \<and>
    store_wf reviewRecordKeyFn (reviewRecordStore (ac_stores ac)) \<and> \<not> watcherLock ac"
  using reachable_index_inv [OF assms] by (simp add: index_inv_def)

theorem cache_invariant_witness:
  "\<not> watcherLock (run_sync (sample_view ''9'' [sample_binding]) new_cache)"
proof -
  have "cache_reachable (run_sync (sample_view ''9'' [sample_binding]) new_cache)"
    by (rule cache_reachable.sync [OF cache_reachable.new run_sync_Return]) simp_all
  from cache_invariant [OF this] show ?thesis by simp
qed

text \<open>
  C7: A synchronization that is not skipped and returns refines one step of the abstract cache: a
  namespace the lister no longer shows is forgotten; one with a request that the last review does not
  satisfy has the users and groups of a new review, or what it had when the review fails; every other
  namespace has what it had. It starts from nothing when the cluster roles or bindings have changed.
\<close>

theorem synchronize_refines:
  assumes "cache_reachable ac" and "\<not> skips v ac" and "synchronize v ac = Return ac'"
  shows "access_of (ac_stores ac') ns =
      (if ns \<notin> set (seen_names v) then None
       else if pending (all_requests v) (base_stores v ac) ns \<and> review_of v ns \<noteq> None then review_of v ns
       else access_of (base_stores v ac) ns) \<and>
    allKnownNamespaces ac' = seen_names v"
  using synchronize_state [OF _ assms(2,3)] reachable_index_inv [OF assms(1)]
  by (simp add: reviewed_access_def)

theorem synchronize_refines_witness:
  "allKnownNamespaces (run_sync (sample_view ''9'' [sample_binding]) new_cache) = [''p'']"
proof -
  have "seen_names (sample_view ''9'' [sample_binding]) = [''p'']"
    by code_simp
  then show ?thesis
    using synchronize_refines [OF cache_reachable.new not_skips_new run_sync_Return] by simp
qed

text \<open>
  When the cluster roles or bindings have changed, the synchronization rebuilds the cache: then
  it holds exactly the namespaces the lister shows whose review succeeded, with the users and groups
  the review found, whatever it held before.
\<close>

theorem synchronize_rebuilds:
  assumes "cache_reachable ac" and "\<not> skips v ac" and "fst (invalidateCache v ac)"
    and "synchronize v ac = Return ac'"
  shows "access_of (ac_stores ac') ns = (if ns \<in> set (seen_names v) then review_of v ns else None)"
  using synchronize_state [OF _ assms(2,4)] reachable_index_inv [OF assms(1)] synchronize_rebuilt [OF assms(3)]
  by simp

definition sample_cluster_role :: cluster_role where
  "sample_cluster_role = \<lparr>cr_ObjectMeta = empty_meta\<lparr>om_Name := ''viewer'', om_ResourceVersion := ''6''\<rparr>,
     cr_Rules = [sample_rule]\<rparr>"

definition sample_role_view :: sync_view where
  "sample_role_view = (sample_view ''9'' [sample_binding])\<lparr>v_clusterRoles := Inr [sample_cluster_role]\<rparr>"

theorem synchronize_rebuilds_witness:
  "access_of (ac_stores (run_sync sample_role_view new_cache)) ''p'' = Some ({''ann''}, {})"
proof -
  have "fst (invalidateCache sample_role_view new_cache)"
    by code_simp
  moreover have "set (seen_names sample_role_view) = {''p''}"
    by code_simp
  moreover have "review_of sample_role_view ''p'' = Some ({''ann''}, {})"
    by code_simp
  ultimately show ?thesis
    using synchronize_rebuilds [OF cache_reachable.new not_skips_new _ run_sync_Return, of sample_role_view] by simp
qed

section \<open>What a user is shown\<close>

lemma subject_applies:
  "appliesToUser u s ns \<longleftrightarrow> subject_user ns s = Some (ui_Name u) \<or> (\<exists>g \<in> set (ui_Groups u). subject_group s = Some g)"
  by (auto simp: appliesToUser_def subject_user_def subject_group_def has_iff Let_def)

lemma map_filter_mem: "x \<in> set (List.map_filter f xs) \<longleftrightarrow> (\<exists>y \<in> set xs. f y = Some x)"
  by (force simp: List.map_filter_def)

lemma reviewed_subjects_apply:
  "ui_Name u \<in> set (List.map_filter (subject_user ns) ss) \<or>
     set (ui_Groups u) \<inter> set (List.map_filter subject_group ss) \<noteq> {} \<longleftrightarrow>
   (\<exists>s \<in> set ss. appliesToUser u s ns)"
proof -
  have "set (ui_Groups u) \<inter> set (List.map_filter subject_group ss) \<noteq> {} \<longleftrightarrow>
      (\<exists>s \<in> set ss. \<exists>g \<in> set (ui_Groups u). subject_group s = Some g)"
    unfolding disjoint_iff map_filter_mem by blast
  then show ?thesis
    unfolding subject_applies map_filter_mem by blast
qed

lemma may_see_access_of:
  "may_see st u ns \<longleftrightarrow> (case access_of st ns of None \<Rightarrow> False
     | Some (U, G) \<Rightarrow> ui_Name u \<in> U \<or> set (ui_Groups u) \<inter> G \<noteq> {})"
  by (simp add: may_see_def access_users_def access_groups_def split: option.splits)

lemma server_reviewer_subjects: "fst (server_reviewer ix ns) = fst (AllowedSubjects (server_evaluator ix) (review_attributes ns))"
  by (simp add: server_reviewer_def Review_def Let_def split: prod.split)

lemma server_review_resolved:
  "all_resolve (server_evaluator ix) ns \<longleftrightarrow>
     server_reviewer ix ns = (fst (AllowedSubjects (server_evaluator ix) (review_attributes ns)), None)"
  using AllowedSubjects_no_error [of "server_evaluator ix" "review_attributes ns"]
  by (cases "AllowedSubjects (server_evaluator ix) (review_attributes ns)")
    (simp add: server_reviewer_def Review_def, simp add: review_attributes_def)

text \<open>What the server's reviewer finds for a namespace is what the rules of its users allow.\<close>

lemma server_review_grants:
  assumes "v_review v = server_reviewer ix" and "cluster_accounts_qualified (server_getters ix)"
    and "review_of v ns = Some access"
  shows "ui_Name u \<in> fst access \<or> set (ui_Groups u) \<inter> snd access \<noteq> {} \<longleftrightarrow>
     RulesAllow (review_attributes ns) (fst (RulesFor (server_getters ix) u ns)) \<or>
     SystemPrivilegedGroup \<in> set (ui_Groups u)"
proof -
  let ?a = "review_attributes ns"
  obtain subjects where s: "v_review v ns = (subjects, None)"
    and access: "access = (set (List.map_filter (subject_user ns) subjects), set (List.map_filter subject_group subjects))"
    using assms(3) by (auto simp: review_of_def split: prod.splits option.splits)
  have "subjects = fst (AllowedSubjects (server_evaluator ix) ?a)"
    using s assms(1) server_reviewer_subjects [of ix ns] by simp
  moreover have "ui_Name u \<in> fst access \<or> set (ui_Groups u) \<inter> snd access \<noteq> {} \<longleftrightarrow> (\<exists>s \<in> set subjects. appliesToUser u s ns)"
    using reviewed_subjects_apply [of u ns subjects] by (simp add: access)
  ultimately show ?thesis
    using located_subjects_agree [OF assms(2), of "''''" ?a u]
    by (simp add: server_evaluator_def review_attributes_def)
qed

lemma server_review_failed: "review_of v ns = None \<longleftrightarrow> snd (v_review v ns) \<noteq> None"
  by (cases "v_review v ns") (simp add: review_of_def split: option.splits)

text \<open>
  A user is listed exactly the namespaces the lister knows whose last review names the user or
  one of the user's groups, each once, and the listing never fails.
\<close>

theorem cache_List_exact:
  assumes "cache_reachable ac"
  shows "\<exists>listed. cache_List (namespace_Get items) ac u = Inr listed \<and> distinct (map ns_Name listed) \<and>
    (\<forall>n. n \<in> set listed \<longleftrightarrow> namespace_Get items (ns_Name n) = Inr n \<and>
       (ui_Name u \<in> access_users (ac_stores ac) (ns_Name n) \<or>
        set (ui_Groups u) \<inter> access_groups (ac_stores ac) (ns_Name n) \<noteq> {}))"
  using cache_List_result [of ac items u] reachable_index_inv [OF assms] by (simp add: may_see_def)

theorem cache_List_exact_witness:
  "\<exists>listed. cache_List (namespace_Get [named_namespace ''p'' ''7'']) new_cache \<lparr>ui_Name = ''ann'', ui_Groups = []\<rparr>
     = Inr listed \<and> listed = []"
proof -
  obtain listed where l: "cache_List (namespace_Get [named_namespace ''p'' ''7'']) new_cache \<lparr>ui_Name = ''ann'', ui_Groups = []\<rparr>
      = Inr listed"
    and m: "\<forall>n. n \<in> set listed \<longleftrightarrow> namespace_Get [named_namespace ''p'' ''7''] (ns_Name n) = Inr n \<and>
       (''ann'' \<in> access_users NewStores (ns_Name n) \<or> {} \<inter> access_groups NewStores (ns_Name n) \<noteq> {})"
    using cache_List_exact [of new_cache "[named_namespace ''p'' ''7'']" "\<lparr>ui_Name = ''ann'', ui_Groups = []\<rparr>"]
      cache_reachable.new by auto
  have "listed = []"
    using m by (cases listed) (auto simp: access_users_def)
  with l show ?thesis by blast
qed

text \<open>
  A namespace the synchronization has reviewed with the server's reviewer is visible to whom the
  resolver grants it.
\<close>

lemma reviewed_may_see:
  assumes "cache_reachable ac" and "\<not> skips v ac" and "synchronize v ac = Return ac'"
    and "v_namespaces v = Inr items" and "v_review v = server_reviewer ix"
    and "cluster_accounts_qualified (server_getters ix)" and "all_resolve (server_evaluator ix) (ns_Name n)"
    and "namespace_Get items (ns_Name n) = Inr n"
    and "pending (all_requests v) (base_stores v ac) (ns_Name n)"
  shows "may_see (ac_stores ac') u (ns_Name n) \<longleftrightarrow>
     RulesAllow (review_attributes (ns_Name n)) (fst (RulesFor (server_getters ix) u (ns_Name n))) \<or>
     SystemPrivilegedGroup \<in> set (ui_Groups u)"
proof -
  let ?name = "ns_Name n" and ?a = "review_attributes (ns_Name n)"
  have inv: "index_inv (ac_stores ac)"
    using reachable_index_inv [OF assms(1)] by blast
  have seen: "?name \<in> set (seen_names v)"
    using namespace_Get_Inr [OF assms(8)] assms(4) by (auto simp: seen_names_def cache_simps)
  have r: "v_review v ?name = (fst (AllowedSubjects (server_evaluator ix) ?a), None)"
    using assms(5,7) server_review_resolved by simp
  then obtain access where access: "review_of v ?name = Some access"
    by (auto simp: review_of_def)
  with seen synchronize_state [OF inv assms(2,3)] assms(9)
  have "access_of (ac_stores ac') ?name = Some access"
    by (simp add: reviewed_access_def)
  then have "may_see (ac_stores ac') u ?name \<longleftrightarrow> ui_Name u \<in> fst access \<or> set (ui_Groups u) \<inter> snd access \<noteq> {}"
    by (cases access) (simp add: may_see_access_of)
  with server_review_grants [OF assms(5,6) access] show ?thesis by blast
qed

text \<open>
  C1: End to end: after a synchronization with the server's reviewer, a user is listed a namespace for
  which a request was pending - a new namespace, a namespace, role or binding with a new version, or any
  namespace when the cluster's objects have changed - exactly when the user's RBAC rules in that namespace
  allow getting it, or the user is of the privileged group. It is supposed that the role references met by
  the review resolve and that the service accounts bound across the cluster carry their namespace.
\<close>

theorem listing_is_authorization:
  assumes "cache_reachable ac" and "\<not> skips v ac" and "synchronize v ac = Return ac'"
    and "v_namespaces v = Inr items" and "v_review v = server_reviewer ix"
    and "cluster_accounts_qualified (server_getters ix)" and "all_resolve (server_evaluator ix) (ns_Name n)"
    and "namespace_Get items (ns_Name n) = Inr n"
    and "pending (all_requests v) (base_stores v ac) (ns_Name n)"
  shows "\<exists>listed. cache_List (namespace_Get items) ac' u = Inr listed \<and>
    (n \<in> set listed \<longleftrightarrow>
       RulesAllow (review_attributes (ns_Name n)) (fst (RulesFor (server_getters ix) u (ns_Name n))) \<or>
       SystemPrivilegedGroup \<in> set (ui_Groups u))"
proof -
  have "index_inv (ac_stores ac')"
    using reachable_index_inv cache_reachable.sync [OF assms(1,3)] by blast
  from cache_List_result [OF this, of items u] show ?thesis
    using reviewed_may_see [OF assms] assms(8) by auto
qed

text \<open>The sample's indexers, with the cluster role that changes.\<close>

definition sample_cluster :: rbac_indexers where
  "sample_cluster = \<lparr>ix_roles = [], ix_roleBindings = [sample_binding],
     ix_clusterRoles = [sample_cluster_role], ix_clusterRoleBindings = []\<rparr>"

definition sample_wired_view :: sync_view where
  "sample_wired_view = sample_role_view\<lparr>v_review := server_reviewer sample_cluster\<rparr>"

theorem listing_is_authorization_witness:
  "\<exists>listed. cache_List (namespace_Get [named_namespace ''p'' ''7'']) (run_sync sample_wired_view new_cache)
     \<lparr>ui_Name = ''ann'', ui_Groups = []\<rparr> = Inr listed \<and> named_namespace ''p'' ''7'' \<in> set listed"
proof -
  have f: "pending (all_requests sample_wired_view) (base_stores sample_wired_view new_cache)
      (ns_Name (named_namespace ''p'' ''7''))"
    by code_simp
  have n: "v_namespaces sample_wired_view = Inr [named_namespace ''p'' ''7'']"
    by (simp add: sample_wired_view_def sample_role_view_def sample_view_def)
  have r: "v_review sample_wired_view = server_reviewer sample_cluster"
    by (simp add: sample_wired_view_def)
  have q: "cluster_accounts_qualified (server_getters sample_cluster)" by code_simp
  have a: "all_resolve (server_evaluator sample_cluster) (ns_Name (named_namespace ''p'' ''7''))"
    by code_simp
  have g: "namespace_Get [named_namespace ''p'' ''7''] (ns_Name (named_namespace ''p'' ''7'')) =
      Inr (named_namespace ''p'' ''7'')"
    by (simp add: namespace_Get_def)
  have "RulesAllow (review_attributes ''p'') (fst (RulesFor (server_getters sample_cluster)
      \<lparr>ui_Name = ''ann'', ui_Groups = []\<rparr> ''p''))" by code_simp
  then show ?thesis
    using listing_is_authorization [OF cache_reachable.new not_skips_new run_sync_Return n r q a g f,
        of "\<lparr>ui_Name = ''ann'', ui_Groups = []\<rparr>"] by auto
qed

section \<open>Failures\<close>

text \<open>
  C37: A role reference that does not resolve, in any cluster binding or any binding of the namespace,
  whether or not it has to do with the namespace, freezes the namespace: the cache keeps what it had,
  and after a rebuild no one is known to have access, privileged or not.
\<close>

theorem dangling_reference_freezes:
  assumes "cache_reachable ac" and "\<not> skips v ac" and "synchronize v ac = Return ac'"
    and "v_review v = server_reviewer ix" and "\<not> all_resolve (server_evaluator ix) ns"
    and "ns \<in> set (seen_names v)"
  shows "access_of (ac_stores ac') ns =
    (if fst (invalidateCache v ac) then None else access_of (ac_stores ac) ns)"
proof -
  have "snd (v_review v ns) \<noteq> None"
    using assms(4,5) AllowedSubjects_no_error [of "server_evaluator ix" "review_attributes ns"]
    by (simp add: server_reviewer_def Review_def) (simp add: review_attributes_def)
  then have "review_of v ns = None"
    using server_review_failed by blast
  then show ?thesis
    using synchronize_state [OF _ assms(2,3)] reachable_index_inv [OF assms(1)] assms(6)
    by (simp add: reviewed_access_def base_stores_def)
qed

definition dangling_cluster :: rbac_indexers where
  "dangling_cluster = \<lparr>ix_roles = [], ix_roleBindings = [sample_binding],
     ix_clusterRoles = [sample_cluster_role],
     ix_clusterRoleBindings = [\<lparr>crb_ObjectMeta = empty_meta\<lparr>om_Name := ''old''\<rparr>, crb_Subjects = [],
       crb_RoleRef = sample_ref ''gone''\<rparr>]\<rparr>"

theorem dangling_reference_freezes_witness:
  "access_of (ac_stores (run_sync (sample_role_view\<lparr>v_review := server_reviewer dangling_cluster\<rparr>) new_cache)) ''p'' = None"
proof -
  let ?v = "sample_role_view\<lparr>v_review := server_reviewer dangling_cluster\<rparr>"
  have "\<not> all_resolve (server_evaluator dangling_cluster) ''p''" by code_simp
  moreover have "''p'' \<in> set (seen_names ?v)" by code_simp
  moreover have "v_review ?v = server_reviewer dangling_cluster" by simp
  ultimately show ?thesis
    using dangling_reference_freezes [OF cache_reachable.new not_skips_new run_sync_Return, of ?v] by simp
qed

text \<open>
  C38: When the namespace lister fails, the synchronization forgets every namespace: until the next
  one that works, no user is listed anything.
\<close>

theorem lister_error_clears:
  assumes "cache_reachable ac" and "\<not> skips v ac" and "synchronize v ac = Return ac'"
    and "v_namespaces v = Inl e"
  shows "cache_List (namespace_Get items) ac' u = Inr []"
proof -
  have inv: "index_inv (ac_stores ac)" "index_inv (ac_stores ac')"
    using reachable_index_inv assms(1,3) cache_reachable.sync by blast+
  have "seen_names v = []"
    using assms(4) by (simp add: seen_names_def)
  then have "access_of (ac_stores ac') ns = None" for ns
    using synchronize_state [OF inv(1) assms(2,3)] by simp
  then have "\<not> may_see (ac_stores ac') u ns" for ns
    by (simp add: may_see_access_of)
  moreover obtain listed where "cache_List (namespace_Get items) ac' u = Inr listed"
    and "\<forall>n. n \<in> set listed \<longleftrightarrow> namespace_Get items (ns_Name n) = Inr n \<and> may_see (ac_stores ac') u (ns_Name n)"
    using cache_List_result [OF inv(2), of items u] by blast
  ultimately show ?thesis by (cases listed) auto
qed

theorem lister_error_clears_witness:
  "cache_List (namespace_Get []) (run_sync (sample_role_view\<lparr>v_namespaces := Inl (ErrorString ''list failed'')\<rparr>) new_cache)
     \<lparr>ui_Name = ''ann'', ui_Groups = []\<rparr> = Inr []"
  by (rule lister_error_clears [OF cache_reachable.new not_skips_new run_sync_Return]) simp_all


section \<open>Skipping and invalidating\<close>

text \<open>Joining with a separator that no item has loses nothing.\<close>

lemma Join_pair: "Join [a, b] sep = a @ sep @ b"
  by simp

lemma split_at_char:
  "c \<notin> set a \<Longrightarrow> c \<notin> set a' \<Longrightarrow> a @ c # b = a' @ c # b' \<longleftrightarrow> a = a' \<and> b = b'"
proof (induction a arbitrary: a')
  case Nil
  then show ?case by (cases a') auto
next
  case (Cons x a)
  then show ?case by (cases a') auto
qed

text \<open>
  A synchronization right after another is skipped exactly when the namespaces' version and the
  joined version of the policy informers are the same; versions hold no comma.
\<close>

theorem synchronize_skip_iff:
  assumes "cache_reachable ac" and "\<not> skips v ac" and "synchronize v ac = Return ac'"
    and "CHR '','' \<notin> set (v_namespaceVersion v)" and "CHR '','' \<notin> set (v_namespaceVersion v')"
  shows "skips v' ac' \<longleftrightarrow> v_namespaceVersion v' = v_namespaceVersion v \<and>
    union_LastSyncResourceVersion (v_policyVersions v') = union_LastSyncResourceVersion (v_policyVersions v)"
proof -
  have "lastState ac' = Join (current_versions v) '',''"
    using synchronize_state [OF _ assms(2,3)] reachable_index_inv [OF assms(1)] by blast
  then show ?thesis
    using split_at_char [OF assms(5,4)] by (simp add: skips_def current_versions_def)
qed

theorem synchronize_skip_iff_witness:
  "\<not> skips (sample_view ''10'' []) (run_sync (sample_view ''9'' []) new_cache)"
proof -
  have c: "CHR '','' \<notin> set (v_namespaceVersion (sample_view v b))" for v b
    by (simp add: sample_view_def)
  have "union_LastSyncResourceVersion (v_policyVersions (sample_view ''10'' [])) \<noteq>
      union_LastSyncResourceVersion (v_policyVersions (sample_view ''9'' []))"
    by (simp add: sample_view_def union_LastSyncResourceVersion_def)
  then show ?thesis
    using synchronize_skip_iff [OF cache_reachable.new not_skips_new run_sync_Return c c] by simp
qed

text \<open>
  The joined version of the policy informers has no separator, so different versions can look the
  same: there are two views, with different versions of a role lister and of a role binding lister,
  such that after the first the second is skipped.
\<close>

theorem version_collision_skips:
  "\<exists>v v' ac. synchronize v new_cache = Return ac \<and> v_policyVersions v \<noteq> v_policyVersions v' \<and>
     length (v_policyVersions v) = length (v_policyVersions v') \<and> synchronize v' ac = Return ac"
proof (intro exI conjI)
  let ?v = "(sample_view ''0'' [])\<lparr>v_policyVersions := [''2'', ''3'', ''1'', ''12'']\<rparr>"
  let ?v' = "(sample_view ''0'' [])\<lparr>v_policyVersions := [''2'', ''3'', ''11'', ''2'']\<rparr>"
  let ?ac = "run_sync ?v new_cache"
  show s: "synchronize ?v new_cache = Return ?ac"
    by (rule run_sync_Return) simp_all
  have "skips ?v' ?ac"
    using synchronize_state [OF new_cache_inv not_skips_new s]
    by (simp add: skips_def current_versions_def union_LastSyncResourceVersion_def sample_view_def)
  then show "synchronize ?v' ?ac = Return ?ac"
    by (rule synchronize_skips)
qed simp_all

text \<open>
  After any synchronization that returns the cache is ready for access, and a new cache is not.
\<close>

theorem ready_after_synchronize:
  assumes "synchronize v ac = Return ac'"
  shows "ReadyForAccess ac' \<and> \<not> ReadyForAccess (NewAuthorizationCache objs)"
  using synchronize_lastState [OF assms]
  by (simp add: ReadyForAccess_def current_versions_def NewAuthorizationCache_def)

theorem ready_after_synchronize_witness: "ReadyForAccess (run_sync (sample_view ''9'' []) new_cache)"
  using ready_after_synchronize [OF run_sync_Return] by simp

end
