(* ===== verification/CacheProgress.thy ===== *)
theory CacheProgress
  imports CacheProps
begin

text \<open>
  Two parts of the authorization cache that its result does not show: when a synchronization
  rebuilds the cache (\<^verbatim>\<open>invalidateCache\<close> and the sets it shares), and when it returns at all
  (\<^verbatim>\<open>notifyWatchers\<close> under the watcher lock).
\<close>

section \<open>The remembered versions\<close>

definition stored_roles :: "auth_cache \<Rightarrow> string set" where
  "stored_roles ac = set (ac_sets ac ! clusterRoleResourceVersions ac)"

definition stored_bindings :: "auth_cache \<Rightarrow> string set" where
  "stored_bindings ac = set (ac_sets ac ! clusterRoleBindingResourceVersions ac)"

definition role_versions :: "cluster_role list \<Rightarrow> string set" where
  "role_versions rs = (\<lambda>r. om_ResourceVersion (cr_ObjectMeta r)) ` set rs"

definition binding_versions :: "cluster_role_binding list \<Rightarrow> string set" where
  "binding_versions bs = (\<lambda>b. om_ResourceVersion (crb_ObjectMeta b)) ` set bs"

definition sets_wf :: "auth_cache \<Rightarrow> bool" where
  "sets_wf ac \<longleftrightarrow> clusterRoleResourceVersions ac < length (ac_sets ac) \<and>
     clusterRoleBindingResourceVersions ac < length (ac_sets ac) \<and> list_all distinct (ac_sets ac)"

lemma versions_changed_iff:
  "distinct s \<Longrightarrow> distinct t \<Longrightarrow> versions_changed s t \<longleftrightarrow> set s \<noteq> set t"
  using set_same_iff [of s t] unfolding versions_changed_def by blast

text \<open>
  The two steps on the memory: \<open>s\<close> is the set of role versions, \<open>t\<close> what it becomes when it is
  emptied and filled with the binding versions.
\<close>

lemma refilled:
  "(sets @ [s])[length sets := set_Delete ((sets @ [s]) ! length sets) (set_List ((sets @ [s]) ! length sets))] = sets @ [[]]"
  by (simp add: set_Delete_all set_List_set)

lemma invalidateCache_unfold:
  fixes ac :: auth_cache
  assumes "v_clusterRoles v = Inr rs" and "v_clusterRoleBindings v = Inr bs"
  defines "s \<equiv> set_Insert (NewString []) (map (\<lambda>r. om_ResourceVersion (cr_ObjectMeta r)) rs)"
    and "t \<equiv> set_Insert [] (map (\<lambda>b. om_ResourceVersion (crb_ObjectMeta b)) bs)"
    and "k \<equiv> length (ac_sets ac)"
  defines "ac1 \<equiv> (if versions_changed ((ac_sets ac @ [s]) ! clusterRoleResourceVersions ac) s
      then ac\<lparr>clusterRoleResourceVersions := k\<rparr> else ac)"
  defines "ch2 \<equiv> versions_changed ((ac_sets ac @ [t]) ! clusterRoleBindingResourceVersions ac) t"
  shows "invalidateCache v ac =
    (ch2 \<or> versions_changed ((ac_sets ac @ [s]) ! clusterRoleResourceVersions ac) s,
     (if ch2 then ac1\<lparr>clusterRoleBindingResourceVersions := k\<rparr> else ac1)\<lparr>ac_sets := ac_sets ac @ [t]\<rparr>)"
proof -
  have b: "clusterRoleBindingResourceVersions ac1 = clusterRoleBindingResourceVersions ac"
    by (simp add: ac1_def)
  show ?thesis
    unfolding invalidateCache_def assms(1,2) sum.case Let_def s_def [symmetric] k_def [symmetric]
    by (simp add: refilled [unfolded k_def [symmetric]] nth_append t_def [symmetric] k_def ch2_def ac1_def
        list_update_append set_Delete_all set_List_set)
qed

lemma invalidateCache_effect:
  assumes "sets_wf ac" and "v_clusterRoles v = Inr rs" and "v_clusterRoleBindings v = Inr bs"
  shows "fst (invalidateCache v ac) \<longleftrightarrow>
      stored_roles ac \<noteq> role_versions rs \<or> stored_bindings ac \<noteq> binding_versions bs"
    and "stored_roles (snd (invalidateCache v ac)) =
      (if stored_roles ac \<noteq> role_versions rs then binding_versions bs else role_versions rs)"
    and "stored_bindings (snd (invalidateCache v ac)) = binding_versions bs"
proof -
  let ?s = "set_Insert (NewString []) (map (\<lambda>r. om_ResourceVersion (cr_ObjectMeta r)) rs)"
  let ?t = "set_Insert [] (map (\<lambda>b. om_ResourceVersion (crb_ObjectMeta b)) bs)"
  have s: "set ?s = role_versions rs" "distinct ?s"
    by (simp_all add: role_versions_def cache_simps set_Insert_distinct)
  have t: "set ?t = binding_versions bs" "distinct ?t"
    by (simp_all add: binding_versions_def cache_simps set_Insert_distinct)
  have r: "(ac_sets ac @ [x]) ! clusterRoleResourceVersions ac = ac_sets ac ! clusterRoleResourceVersions ac"
    and b: "(ac_sets ac @ [x]) ! clusterRoleBindingResourceVersions ac = ac_sets ac ! clusterRoleBindingResourceVersions ac" for x
    using assms(1) by (simp_all add: sets_wf_def nth_append)
  have d: "distinct (ac_sets ac ! clusterRoleResourceVersions ac)" "distinct (ac_sets ac ! clusterRoleBindingResourceVersions ac)"
    using assms(1) by (simp_all add: sets_wf_def list_all_length)
  have c1: "versions_changed (ac_sets ac ! clusterRoleResourceVersions ac) ?s \<longleftrightarrow> stored_roles ac \<noteq> role_versions rs"
    using versions_changed_iff [OF d(1) s(2)] s(1) by (simp add: stored_roles_def)
  have c2: "versions_changed (ac_sets ac ! clusterRoleBindingResourceVersions ac) ?t \<longleftrightarrow> stored_bindings ac \<noteq> binding_versions bs"
    using versions_changed_iff [OF d(2) t(2)] t(1) by (simp add: stored_bindings_def)
  note u = invalidateCache_unfold [OF assms(2,3), of ac, unfolded r b c1 c2]
  show "fst (invalidateCache v ac) \<longleftrightarrow> stored_roles ac \<noteq> role_versions rs \<or> stored_bindings ac \<noteq> binding_versions bs"
    by (auto simp: u)
  show "stored_roles (snd (invalidateCache v ac)) =
      (if stored_roles ac \<noteq> role_versions rs then binding_versions bs else role_versions rs)"
    using t(1) r by (auto simp: u stored_roles_def)
  show "stored_bindings (snd (invalidateCache v ac)) = binding_versions bs"
    using t(1) b by (auto simp: u stored_bindings_def)
qed

lemma invalidateCache_sets_wf:
  assumes "sets_wf ac"
  shows "sets_wf (snd (invalidateCache v ac))"
proof (cases "v_clusterRoles v")
  case (Inr rs)
  note rs = Inr
  show ?thesis
  proof (cases "v_clusterRoleBindings v")
    case (Inl e)
    with rs assms show ?thesis
      by (auto simp: invalidateCache_def sets_wf_def Let_def set_Insert_distinct)
  next
    case (Inr bs)
    have "distinct (set_Insert [] xs)" for xs by (simp add: set_Insert_distinct)
    with assms show ?thesis
      by (simp add: invalidateCache_unfold [OF rs Inr] sets_wf_def)
  qed
qed (use assms in \<open>simp add: invalidateCache_def\<close>)

section \<open>Properties of invalidation\<close>

lemma synchronize_sets:
  assumes "\<not> skips v ac" and "synchronize v ac = Return ac'" and "index_inv (ac_stores ac)"
  shows "ac_sets ac' = ac_sets (snd (invalidateCache v ac)) \<and>
    clusterRoleResourceVersions ac' = clusterRoleResourceVersions (snd (invalidateCache v ac)) \<and>
    clusterRoleBindingResourceVersions ac' = clusterRoleBindingResourceVersions (snd (invalidateCache v ac))"
proof -
  let ?ac1 = "snd (invalidateCache v ac)" and ?b = "base_stores v ac"
  obtain ac2 st2 ac3 where s: "sync_requests v (all_requests v) (?ac1, ?b) = Return (ac2, st2)"
    and n: "notify_deleted v (set_Difference (allKnownNamespaces ac2) (seen_names v)) ac2 = Return ac3"
    and ac': "ac' = ac3\<lparr>ac_stores := purge_loop (seen_names v) (store_List (reviewRecordStore st2)) st2,
        allKnownNamespaces := seen_names v, lastState := Join (current_versions v) '',''\<rparr>"
    using assms(1,2) by (auto simp: synchronize_run purgeDeletedNamespaces_def)
  have "index_inv ?b"
    using assms(3) by (simp add: base_stores_def index_inv_New)
  then obtain objs where "ac2 = ?ac1\<lparr>ac_watcherObjects := objs\<rparr>"
    using sync_requests_correct [OF _ s] by blast
  moreover obtain objs' where "ac3 = ac2\<lparr>ac_watcherObjects := objs'\<rparr>"
    using notify_deleted_frame [OF n] by blast
  ultimately show ?thesis by (simp add: ac')
qed

lemma reachable_sets_wf: "cache_reachable ac \<Longrightarrow> sets_wf ac"
proof (induction rule: cache_reachable.induct)
  case (new objs)
  then show ?case by (simp add: NewAuthorizationCache_def sets_wf_def)
next
  case (sync ac v ac')
  show ?case
  proof (cases "skips v ac")
    case True
    with sync show ?thesis by (simp add: synchronize_skips)
  next
    case False
    have "index_inv (ac_stores ac)" using reachable_index_inv [OF sync(1)] by blast
    from synchronize_sets [OF False sync(2) this] invalidateCache_sets_wf [OF sync(3)] show ?thesis
      by (simp add: sets_wf_def)
  qed
qed (auto simp: AddWatcher_def RemoveWatcher_def sets_wf_def split: if_splits)

text \<open>
  C33: When both listers answer, the cache is invalidated exactly when the set of role versions or the
  set of binding versions differs from the one remembered; afterwards the binding versions are those
  of the bindings, but where the role versions differed it is again the binding versions that are
  remembered as the role versions, because the two share one set.
\<close>

theorem invalidateCache_exact:
  assumes "cache_reachable ac" and "v_clusterRoles v = Inr rs" and "v_clusterRoleBindings v = Inr bs"
  shows "(fst (invalidateCache v ac) \<longleftrightarrow>
      stored_roles ac \<noteq> role_versions rs \<or> stored_bindings ac \<noteq> binding_versions bs) \<and>
    stored_bindings (snd (invalidateCache v ac)) = binding_versions bs \<and>
    stored_roles (snd (invalidateCache v ac)) =
      (if stored_roles ac = role_versions rs then role_versions rs else binding_versions bs)"
  using invalidateCache_effect [OF reachable_sets_wf [OF assms(1)] assms(2,3)] by auto

theorem invalidateCache_exact_witness:
  "stored_roles (snd (invalidateCache sample_role_view new_cache)) = {}"
  using invalidateCache_exact [OF cache_reachable.new, of sample_role_view "[sample_cluster_role]" "[]" "\<lambda>i. sample_watcher False"]
  by (simp add: sample_role_view_def sample_view_def role_versions_def binding_versions_def sample_cluster_role_def
      NewAuthorizationCache_def stored_roles_def)

text \<open>
  So once the role versions have been found different, every later synchronization of the same
  unchanged cluster roles and bindings rebuilds the whole cache again, for ever, whenever the two
  sets of versions differ.
\<close>

theorem invalidates_forever:
  assumes "cache_reachable ac" and "v_clusterRoles v = Inr rs" and "v_clusterRoleBindings v = Inr bs"
    and "stored_roles ac \<noteq> role_versions rs" and "role_versions rs \<noteq> binding_versions bs"
  shows "fst (invalidateCache v (((\<lambda>a. snd (invalidateCache v a)) ^^ n) ac))"
proof -
  let ?f = "\<lambda>a. snd (invalidateCache v a)"
  have "sets_wf ((?f ^^ n) ac) \<and> stored_roles ((?f ^^ n) ac) \<noteq> role_versions rs"
  proof (induction n)
    case 0
    show ?case using reachable_sets_wf [OF assms(1)] assms(4) by simp
  next
    case (Suc n)
    then show ?case
      using invalidateCache_effect(2) [OF _ assms(2,3), of "(?f ^^ n) ac"] assms(5)
      by (simp add: invalidateCache_sets_wf)
  qed
  then show ?thesis
    using invalidateCache_effect(1) [OF _ assms(2,3)] by blast
qed

theorem invalidates_forever_witness:
  "fst (invalidateCache sample_role_view (((\<lambda>a. snd (invalidateCache sample_role_view a)) ^^ 3) new_cache))"
  by (rule invalidates_forever [OF cache_reachable.new, of _ "[sample_cluster_role]" "[]"])
    (simp_all add: sample_role_view_def sample_view_def role_versions_def binding_versions_def sample_cluster_role_def
      NewAuthorizationCache_def stored_roles_def)

section \<open>Progress\<close>

text \<open>
  C32: A notification blocks for ever, holding the watcher lock, exactly when some registered watcher
  has an event due and a full buffer: the watcher then asks the cache to remove it, which waits for
  the lock that the notification holds. Otherwise the notification returns.
\<close>

theorem notifyWatchers_blocks_iff:
  assumes "cache_reachable ac" and "distinct (ac_watchers ac)"
  shows "if \<exists>i \<in> set (ac_watchers ac). membership_event nsGet ns users groups (ac_watcherObjects ac i) \<noteq> None \<and>
            cacheIncoming_cap \<le> length (w_cacheIncoming (ac_watcherObjects ac i))
     then notifyWatchers nsGet ns users groups ac = Blocked
     else \<exists>ac'. notifyWatchers nsGet ns users groups ac = Return ac'"
proof -
  have "(\<forall>i \<in> set (ac_watchers ac). watcher_has_room nsGet ns users groups (ac_watcherObjects ac i)) \<longleftrightarrow>
      \<not> (\<exists>i \<in> set (ac_watchers ac). membership_event nsGet ns users groups (ac_watcherObjects ac i) \<noteq> None \<and>
            cacheIncoming_cap \<le> length (w_cacheIncoming (ac_watcherObjects ac i)))"
    by (simp only: watcher_has_room_def not_less [symmetric] bex_simps de_Morgan_conj not_not)
  then show ?thesis
    using notifyWatchers_returns [OF _ assms(2), of nsGet ns users groups] reachable_index_inv [OF assms(1)] by auto
qed

definition full_watcher :: user_project_watcher where
  "full_watcher = (sample_watcher False)\<lparr>w_cacheIncoming := replicate 1000 (makeErrorEvent '''')\<rparr>"

definition full_cache :: auth_cache where
  "full_cache = (NewAuthorizationCache (\<lambda>i. full_watcher))\<lparr>ac_watchers := [0]\<rparr>"

lemma full_cache_reachable: "cache_reachable full_cache"
  by (rule cache_reachable.add [OF cache_reachable.new, of 0 "\<lambda>i. full_watcher"])
    (simp add: AddWatcher_def full_cache_def NewAuthorizationCache_def)

theorem notifyWatchers_blocks_iff_witness:
  "notifyWatchers (namespace_Get []) ''p'' [] [] full_cache = Blocked"
proof -
  have "membership_event (namespace_Get []) ''p'' [] [] (ac_watcherObjects full_cache 0) \<noteq> None"
    by (simp add: full_cache_def NewAuthorizationCache_def full_watcher_def sample_watcher_def membership_event_def
        in_scope_def has_access_def)
  moreover have "cacheIncoming_cap \<le> length (w_cacheIncoming (ac_watcherObjects full_cache 0))"
    by (simp add: full_cache_def NewAuthorizationCache_def full_watcher_def cacheIncoming_cap_def)
  moreover have "ac_watchers full_cache = [0]"
    by (simp add: full_cache_def)
  ultimately show ?thesis
    using notifyWatchers_blocks_iff [OF full_cache_reachable, of "namespace_Get []" "''p''" "[]" "[]"] by simp
qed

text \<open>
  Every registered watcher has room for \<open>k\<close> more events.
\<close>

definition room_for :: "nat \<Rightarrow> auth_cache \<Rightarrow> bool" where
  "room_for k ac \<longleftrightarrow> \<not> watcherLock ac \<and> distinct (ac_watchers ac) \<and>
     (\<forall>i \<in> set (ac_watchers ac). length (w_cacheIncoming (ac_watcherObjects ac i)) + k \<le> cacheIncoming_cap)"

lemma room_for_mono: "room_for k ac \<Longrightarrow> j \<le> k \<Longrightarrow> room_for j ac"
  by (fastforce simp: room_for_def)

text \<open>A notification adds at most one event to each watcher.\<close>

lemma notify_loop_length:
  assumes "watcherLock ac" and "notify_loop nsGet ns users groups ids ac = Return ac'" and "distinct ids"
  shows "length (w_cacheIncoming (ac_watcherObjects ac' j)) \<le> Suc (length (w_cacheIncoming (ac_watcherObjects ac j))) \<and>
    (j \<notin> set ids \<longrightarrow> ac_watcherObjects ac' j = ac_watcherObjects ac j)"
  using assms
proof (induction nsGet ns users groups ids ac rule: notify_loop.induct)
  case (2 nsGet ns users groups i ids ac)
  from 2(3) obtain ac1 w' where g: "GroupMembershipChanged (RemoveWatcher i) nsGet ns users groups ac
      (ac_watcherObjects ac i) = Return (ac1, w')"
    and l: "notify_loop nsGet ns users groups ids (ac1\<lparr>ac_watcherObjects := (ac_watcherObjects ac1)(i := w')\<rparr>) = Return ac'"
    by auto
  have ac1: "ac1 = ac"
    using notification_locked [OF 2(2), of i nsGet ns users groups "ac_watcherObjects ac i"] g by auto
  have w': "length (w_cacheIncoming w') \<le> Suc (length (w_cacheIncoming (ac_watcherObjects ac i)))"
    using g ac1 2(2) by (auto simp: GroupMembershipChanged_event send_incoming_def split: option.splits if_splits)
  let ?ac = "ac\<lparr>ac_watcherObjects := (ac_watcherObjects ac)(i := w')\<rparr>"
  have IH: "length (w_cacheIncoming (ac_watcherObjects ac' j)) \<le> Suc (length (w_cacheIncoming (ac_watcherObjects ?ac j))) \<and>
      (j \<notin> set ids \<longrightarrow> ac_watcherObjects ac' j = ac_watcherObjects ?ac j)"
    using 2(1) [OF g refl _ l] 2(2,4) ac1 by simp
  show ?case
    using IH w' 2(4) by (cases "j = i") auto
qed simp

lemma notifyWatchers_room:
  assumes "room_for (Suc k) ac"
  shows "\<exists>ac'. notifyWatchers nsGet ns users groups ac = Return ac' \<and> room_for k ac' \<and> ac_watchers ac' = ac_watchers ac"
proof -
  have un: "\<not> watcherLock ac" "distinct (ac_watchers ac)"
    and room: "\<And>i. i \<in> set (ac_watchers ac) \<Longrightarrow> length (w_cacheIncoming (ac_watcherObjects ac i)) + Suc k \<le> cacheIncoming_cap"
    using assms by (auto simp: room_for_def)
  have "\<forall>i \<in> set (ac_watchers ac). watcher_has_room nsGet ns users groups (ac_watcherObjects ac i)"
    using room by (force simp: watcher_has_room_def)
  then obtain ac' where n: "notifyWatchers nsGet ns users groups ac = Return ac'"
    using notifyWatchers_returns [OF un, of nsGet ns users groups] by blast
  then obtain ac1 where l: "notify_loop nsGet ns users groups (ac_watchers ac) (ac\<lparr>watcherLock := True\<rparr>) = Return ac1"
    and ac': "ac' = ac1\<lparr>watcherLock := False\<rparr>"
    using un(1) by (auto simp: notifyWatchers_def)
  obtain objs where objs: "ac' = ac\<lparr>ac_watcherObjects := objs\<rparr>"
    using notifyWatchers_frame [OF n] by blast
  have "length (w_cacheIncoming (ac_watcherObjects ac' i)) \<le> Suc (length (w_cacheIncoming (ac_watcherObjects ac i)))" for i
    using notify_loop_length [OF _ l un(2), of i] by (simp add: ac')
  then have "length (w_cacheIncoming (ac_watcherObjects ac' i)) + k \<le> cacheIncoming_cap"
    if "i \<in> set (ac_watchers ac)" for i
    using room [OF that] by (metis add_Suc_right add_Suc add_le_mono1 le_trans)
  then have "room_for k ac'"
    using un by (simp add: room_for_def objs)
  with n objs show ?thesis by auto
qed

lemma syncRequest_room:
  assumes "room_for (Suc k) ac"
  shows "\<exists>ac' st' err. syncRequest v rq (ac, st) = Return ((ac', st'), err) \<and> room_for k ac' \<and>
    ac_watchers ac' = ac_watchers ac"
proof (cases "skipReview (Some rq) (lastKnown (reviewRecordStore st) (rq_namespace rq))")
  case True
  then show ?thesis using room_for_mono [OF assms, of k] by (simp add: syncRequest_def)
next
  case False
  obtain subjects e where r: "v_review v (rq_namespace rq) = (subjects, e)" by fastforce
  show ?thesis
  proof (cases e)
    case (Some e')
    then show ?thesis using False r room_for_mono [OF assms, of k] by (simp add: syncRequest_def)
  next
    case None
    obtain users groups where u: "review_subjects (rq_namespace rq) subjects ([], []) = (users, groups)"
      by fastforce
    obtain ac' where "notifyWatchers (v_nsGet v) (rq_namespace rq) (NewString users) (NewString groups) ac = Return ac'"
      "room_for k ac'" "ac_watchers ac' = ac_watchers ac"
      using notifyWatchers_room [OF assms] by blast
    with False r None u show ?thesis by (simp add: syncRequest_def)
  qed
qed

lemma sync_requests_room:
  "room_for (length rqs + k) ac \<Longrightarrow> \<exists>ac' st'. sync_requests v rqs (ac, st) = Return (ac', st') \<and> room_for k ac'"
proof (induction rqs arbitrary: ac st)
  case (Cons rq rqs)
  obtain ac1 st1 err where s: "syncRequest v rq (ac, st) = Return ((ac1, st1), err)" "room_for (length rqs + k) ac1"
    using syncRequest_room [of "length rqs + k" ac v rq st] Cons(2) by auto
  with Cons(1) [OF s(2), of st1] show ?case by simp
qed simp

lemma notify_deleted_room:
  "room_for (length nss) ac \<Longrightarrow> \<exists>ac'. notify_deleted v nss ac = Return ac'"
proof (induction nss arbitrary: ac)
  case (Cons ns nss)
  then obtain ac1 where "notifyWatchers (v_nsGet v) ns [] [] ac = Return ac1" "room_for (length nss) ac1"
    using notifyWatchers_room [of "length nss" ac "v_nsGet v" ns "[]" "[]"] by auto
  with Cons(1) show ?case by simp
qed simp

text \<open>
  C16: A synchronization returns when every registered watcher has room for one event per request and
  per namespace known before: the requests are one for each namespace, role and role binding. In
  particular it returns when there is no watcher.
\<close>

theorem synchronize_returns:
  assumes "cache_reachable ac" and "distinct (ac_watchers ac)"
    and "\<And>i. i \<in> set (ac_watchers ac) \<Longrightarrow> length (w_cacheIncoming (ac_watcherObjects ac i)) +
      (length (all_requests v) + length (allKnownNamespaces ac)) \<le> cacheIncoming_cap"
  shows "\<exists>ac'. synchronize v ac = Return ac'"
proof (cases "skips v ac")
  case False
  let ?ac1 = "snd (invalidateCache v ac)"
  have "room_for (length (all_requests v) + length (allKnownNamespaces ac)) ?ac1"
    using assms(2,3) reachable_index_inv [OF assms(1)] by (simp add: room_for_def invalidateCache_frame)
  then obtain ac2 st2 where s: "sync_requests v (all_requests v) (?ac1, base_stores v ac) = Return (ac2, st2)"
    and r: "room_for (length (allKnownNamespaces ac)) ac2"
    using sync_requests_room by blast
  have "index_inv (base_stores v ac)"
    using reachable_index_inv [OF assms(1)] by (simp add: base_stores_def index_inv_New)
  then obtain objs where "ac2 = ?ac1\<lparr>ac_watcherObjects := objs\<rparr>"
    using sync_requests_correct [OF _ s] by blast
  then have known: "allKnownNamespaces ac2 = allKnownNamespaces ac"
    by (simp add: invalidateCache_frame)
  have "length (set_Difference (allKnownNamespaces ac) (seen_names v)) \<le> length (allKnownNamespaces ac)"
    by (simp add: set_Difference_def)
  with r room_for_mono obtain ac3 where "notify_deleted v (set_Difference (allKnownNamespaces ac) (seen_names v)) ac2 = Return ac3"
    using notify_deleted_room by blast
  with s known show ?thesis
    by (simp add: synchronize_run [OF False] purgeDeletedNamespaces_def)
qed (simp add: synchronize_skips)

definition watched_cache :: auth_cache where
  "watched_cache = (NewAuthorizationCache (\<lambda>i. sample_watcher False))\<lparr>ac_watchers := [0]\<rparr>"

lemma watched_cache_reachable: "cache_reachable watched_cache"
  by (rule cache_reachable.add [OF cache_reachable.new, of 0 "\<lambda>i. sample_watcher False"])
    (simp add: AddWatcher_def watched_cache_def NewAuthorizationCache_def)

theorem synchronize_returns_witness:
  "\<exists>ac'. synchronize (sample_view ''9'' [sample_binding]) watched_cache = Return ac'"
  by (rule synchronize_returns [OF watched_cache_reachable])
    (simp_all add: watched_cache_def NewAuthorizationCache_def sample_watcher_def cacheIncoming_cap_def
      all_requests_def sample_view_def)

end
