(* ===== verification/NameValidation.thy ===== *)
theory NameValidation
  imports ApiTypes
begin

text \<open>
  The name rules of the apimachinery library that project validation rests on: the regular
  expressions of \<^verbatim>\<open>util/validation\<close>, as expressions matched by derivatives, the DNS labels and subdomains,
  qualified names and label values made of them, and the path segment rules of \<^verbatim>\<open>api/validation/path\<close>.
  An error is its message; the list is empty for a valid name.
\<close>

section \<open>Regular expressions\<close>

datatype rx = RxNone | RxEmpty | RxClass "char \<Rightarrow> bool" | RxSeq rx rx | RxAlt rx rx | RxStar rx

definition RxOpt :: "rx \<Rightarrow> rx" where
  "RxOpt r = RxAlt RxEmpty r"

fun nullable :: "rx \<Rightarrow> bool" where
  "nullable RxNone = False"
| "nullable RxEmpty = True"
| "nullable (RxClass P) = False"
| "nullable (RxSeq r s) = (nullable r \<and> nullable s)"
| "nullable (RxAlt r s) = (nullable r \<or> nullable s)"
| "nullable (RxStar r) = True"

text \<open>Sequence and choice that drop what matches nothing or only the empty string.\<close>

fun seq_of :: "rx \<Rightarrow> rx \<Rightarrow> rx" where
  "seq_of RxNone s = RxNone"
| "seq_of RxEmpty s = s"
| "seq_of r s = RxSeq r s"

fun alt_of :: "rx \<Rightarrow> rx \<Rightarrow> rx" where
  "alt_of RxNone s = s"
| "alt_of r RxNone = r"
| "alt_of r s = RxAlt r s"

fun deriv :: "char \<Rightarrow> rx \<Rightarrow> rx" where
  "deriv c RxNone = RxNone"
| "deriv c RxEmpty = RxNone"
| "deriv c (RxClass P) = (if P c then RxEmpty else RxNone)"
| "deriv c (RxSeq r s) =
     (if nullable r then alt_of (seq_of (deriv c r) s) (deriv c s) else seq_of (deriv c r) s)"
| "deriv c (RxAlt r s) = alt_of (deriv c r) (deriv c s)"
| "deriv c (RxStar r) = seq_of (deriv c r) (RxStar r)"

text \<open>\<^verbatim>\<open>MatchString\<close> of an expression between \<^verbatim>\<open>^\<close> and \<^verbatim>\<open>$\<close>: the whole string matches.\<close>

fun MatchString :: "rx \<Rightarrow> string \<Rightarrow> bool" where
  "MatchString r [] = nullable r"
| "MatchString r (c # s) = MatchString (deriv c r) s"

section \<open>Messages\<close>

fun digits :: "nat \<Rightarrow> string" where
  "digits n = (if n < 10 then [char_of (48 + n)] else digits (n div 10) @ [char_of (48 + n mod 10)])"

declare digits.simps [simp del]

definition MaxLenError :: "nat \<Rightarrow> string" where
  "MaxLenError len = ''must be no more than '' @ digits len @ '' characters''"

fun regex_examples :: "bool \<Rightarrow> string list \<Rightarrow> string" where
  "regex_examples first [] = ''''"
| "regex_examples first (e # es) =
     (if first then '''' else '' or '') @ CHR 0x27 # e @ [CHR 0x27] @ '', '' @ regex_examples False es"

definition RegexError :: "string \<Rightarrow> string \<Rightarrow> string list \<Rightarrow> string" where
  "RegexError msg rxfmt examples =
     (if examples = [] then msg @ '' (regex used for validation is '' @ [CHR 0x27] @ rxfmt @ [CHR 0x27] @ '')''
      else msg @ '' (e.g. '' @ regex_examples True examples @
        ''regex used for validation is '' @ [CHR 0x27] @ rxfmt @ [CHR 0x27] @ '')'')"

definition EmptyError :: string where
  "EmptyError = ''must be non-empty''"

definition prefixEach :: "string list \<Rightarrow> string \<Rightarrow> string list" where
  "prefixEach msgs pre = map (\<lambda>m. pre @ m) msgs"

lemma RegexError_not_Nil [simp]: "RegexError msg f es \<noteq> []"
  by (simp add: RegexError_def)

section \<open>Labels, subdomains and qualified names\<close>

definition is_lower :: "char \<Rightarrow> bool" where "is_lower c \<longleftrightarrow> CHR ''a'' \<le> c \<and> c \<le> CHR ''z''"

definition is_upper :: "char \<Rightarrow> bool" where "is_upper c \<longleftrightarrow> CHR ''A'' \<le> c \<and> c \<le> CHR ''Z''"

definition is_digit :: "char \<Rightarrow> bool" where "is_digit c \<longleftrightarrow> CHR ''0'' \<le> c \<and> c \<le> CHR ''9''"

definition is_lower_alnum :: "char \<Rightarrow> bool" where "is_lower_alnum c \<longleftrightarrow> is_lower c \<or> is_digit c"

definition is_label_char :: "char \<Rightarrow> bool" where "is_label_char c \<longleftrightarrow> c = CHR ''-'' \<or> is_lower_alnum c"

definition is_alnum :: "char \<Rightarrow> bool" where "is_alnum c \<longleftrightarrow> is_lower c \<or> is_upper c \<or> is_digit c"

definition is_qname_char :: "char \<Rightarrow> bool" where
  "is_qname_char c \<longleftrightarrow> c = CHR ''-'' \<or> c = CHR ''_'' \<or> c = CHR ''.'' \<or> is_alnum c"

definition rx_dns1123Label :: rx where
  "rx_dns1123Label = RxSeq (RxClass is_lower_alnum)
     (RxOpt (RxSeq (RxStar (RxClass is_label_char)) (RxClass is_lower_alnum)))"

definition rx_dns1035Label :: rx where
  "rx_dns1035Label = RxSeq (RxClass is_lower)
     (RxOpt (RxSeq (RxStar (RxClass is_label_char)) (RxClass is_lower_alnum)))"

definition rx_dns1123Subdomain :: rx where
  "rx_dns1123Subdomain = RxSeq rx_dns1123Label
     (RxStar (RxSeq (RxClass (\<lambda>c. c = CHR ''.'')) rx_dns1123Label))"

definition rx_qualifiedName :: rx where
  "rx_qualifiedName = RxSeq (RxOpt (RxSeq (RxClass is_alnum) (RxStar (RxClass is_qname_char)))) (RxClass is_alnum)"

definition rx_labelValue :: rx where
  "rx_labelValue = RxOpt rx_qualifiedName"

definition dns1123LabelFmt :: string where
  "dns1123LabelFmt = ''[a-z0-9]([-a-z0-9]*[a-z0-9])?''"

definition qualifiedNameFmt :: string where
  "qualifiedNameFmt = ''([A-Za-z0-9][-A-Za-z0-9_.]*)?[A-Za-z0-9]''"

definition qualifiedNameErrMsg :: string where
  "qualifiedNameErrMsg = ''must consist of alphanumeric characters, '' @ [CHR 0x27] @ ''-'' @ [CHR 0x27] @ '', '' @
     [CHR 0x27] @ ''_'' @ [CHR 0x27] @ '' or '' @ [CHR 0x27] @ ''.'' @ [CHR 0x27] @
     '', and must start and end with an alphanumeric character''"

definition IsDNS1123Label :: "string \<Rightarrow> string list" where
  "IsDNS1123Label v =
     (if length v > 63 then [MaxLenError 63] else []) @
     (if \<not> MatchString rx_dns1123Label v
      then [RegexError (''a DNS-1123 label must consist of lower case alphanumeric characters or '' @ [CHR 0x27] @ ''-'' @
              [CHR 0x27] @ '', and must start and end with an alphanumeric character'')
              dns1123LabelFmt [''my-name'', ''123-abc'']]
      else [])"

definition IsDNS1123Subdomain :: "string \<Rightarrow> string list" where
  "IsDNS1123Subdomain v =
     (if length v > 253 then [MaxLenError 253] else []) @
     (if \<not> MatchString rx_dns1123Subdomain v
      then [RegexError (''a DNS-1123 subdomain must consist of lower case alphanumeric characters, '' @ [CHR 0x27] @ ''-'' @
              [CHR 0x27] @ '' or '' @ [CHR 0x27] @ ''.'' @ [CHR 0x27] @
              '', and must start and end with an alphanumeric character'')
              (dns1123LabelFmt @ ''('' @ [CHR 0x5C] @ ''.'' @ dns1123LabelFmt @ '')*'')
 [''example.com'']]
      else [])"

definition IsDNS1035Label :: "string \<Rightarrow> string list" where
  "IsDNS1035Label v =
     (if length v > 63 then [MaxLenError 63] else []) @
     (if \<not> MatchString rx_dns1035Label v
      then [RegexError (''a DNS-1035 label must consist of lower case alphanumeric characters or '' @ [CHR 0x27] @ ''-'' @
              [CHR 0x27] @ '', start with an alphabetic character, and end with an alphanumeric character'')
              ''[a-z]([-a-z0-9]*[a-z0-9])?'' [''my-name'', ''abc-123'']]
      else [])"

text \<open>\<^verbatim>\<open>strings.Split\<close> for a separator of one character.\<close>

fun Split :: "string \<Rightarrow> char \<Rightarrow> string list" where
  "Split [] c = [[]]"
| "Split (x # s) c =
     (if x = c then [] # Split s c
      else (case Split s c of [] \<Rightarrow> [[x]] | part # parts \<Rightarrow> (x # part) # parts))"

definition IsQualifiedName :: "string \<Rightarrow> string list" where
  "IsQualifiedName v =
     (let parts = Split v (CHR ''/'');
          check = (\<lambda>name. (if length name = 0 then [''name part '' @ EmptyError]
               else if length name > 63 then [''name part '' @ MaxLenError 63] else []) @
             (if \<not> MatchString rx_qualifiedName name
              then [''name part '' @ RegexError qualifiedNameErrMsg qualifiedNameFmt [''MyName'', ''my.name'', ''123-abc'']]
              else []))
      in case parts of
           [name] \<Rightarrow> check name
         | [pre, name] \<Rightarrow>
             (if length pre = 0 then [''prefix part '' @ EmptyError]
              else prefixEach (IsDNS1123Subdomain pre) ''prefix part '') @ check name
         | _ \<Rightarrow> [''a qualified name '' @ RegexError qualifiedNameErrMsg qualifiedNameFmt [''MyName'', ''my.name'', ''123-abc''] @
                '' with an optional DNS subdomain prefix and '' @ [CHR 0x27] @ ''/'' @ [CHR 0x27] @
                '' (e.g. '' @ [CHR 0x27] @ ''example.com/MyName'' @ [CHR 0x27] @ '')''])"

definition IsValidLabelValue :: "string \<Rightarrow> string list" where
  "IsValidLabelValue v =
     (if length v > 63 then [MaxLenError 63] else []) @
     (if \<not> MatchString rx_labelValue v
      then [RegexError (''a valid label must be an empty string or consist of alphanumeric characters, '' @
              [CHR 0x27] @ ''-'' @ [CHR 0x27] @ '', '' @ [CHR 0x27] @ ''_'' @ [CHR 0x27] @ '' or '' @ [CHR 0x27] @ ''.'' @
              [CHR 0x27] @ '', and must start and end with an alphanumeric character'')
              (''('' @ qualifiedNameFmt @ '')?'') [''MyValue'', ''my_value'', ''12345'']]
      else [])"

section \<open>Path segments\<close>

definition NameMayNotBe :: "string list" where "NameMayNotBe = [''.'', ''..'']"

definition NameMayNotContain :: "string list" where "NameMayNotContain = [''/'', ''%'']"

definition may_not_contain :: "string \<Rightarrow> string list" where
  "may_not_contain name =
     map (\<lambda>illegal. ''may not contain '' @ [CHR 0x27] @ illegal @ [CHR 0x27])
       (filter (\<lambda>illegal. Contains name illegal) NameMayNotContain)"

definition IsValidPathSegmentName :: "string \<Rightarrow> string list" where
  "IsValidPathSegmentName name =
     (if name \<in> set NameMayNotBe then [''may not be '' @ [CHR 0x27] @ name @ [CHR 0x27]] else may_not_contain name)"

definition IsValidPathSegmentPrefix :: "string \<Rightarrow> string list" where
  "IsValidPathSegmentPrefix name = may_not_contain name"

definition ValidatePathSegmentName :: "string \<Rightarrow> bool \<Rightarrow> string list" where
  "ValidatePathSegmentName name pre = (if pre then IsValidPathSegmentPrefix name else IsValidPathSegmentName name)"

text \<open>
  \<^verbatim>\<open>NameIsDNSLabel\<close>. \<^verbatim>\<open>maskTrailingDash\<close> cuts two characters off a name that ends in a dash, so it panics
  on the name that is a dash.
\<close>

definition maskTrailingDash :: "string \<Rightarrow> string outcome" where
  "maskTrailingDash name =
     (if HasSuffix name ''-'' then
        (if length name < 2 then Panic ''slice bounds out of range''
         else Return (take (length name - 2) name @ ''a''))
      else Return name)"

definition NameIsDNSLabel :: "string \<Rightarrow> bool \<Rightarrow> string list outcome" where
  "NameIsDNSLabel name pre =
     bind_outcome (if pre then maskTrailingDash name else Return name) (\<lambda>n. Return (IsDNS1123Label n))"

definition NameIsDNS1035Label :: "string \<Rightarrow> bool \<Rightarrow> string list outcome" where
  "NameIsDNS1035Label name pre =
     bind_outcome (if pre then maskTrailingDash name else Return name) (\<lambda>n. Return (IsDNS1035Label n))"

section \<open>What the expressions match\<close>

text \<open>The meaning of an expression, and that the matcher decides it.\<close>

inductive rx_matches :: "rx \<Rightarrow> string \<Rightarrow> bool" where
  empty: "rx_matches RxEmpty []"
| char_class: "P c \<Longrightarrow> rx_matches (RxClass P) [c]"
| seq: "rx_matches r u \<Longrightarrow> rx_matches s v \<Longrightarrow> rx_matches (RxSeq r s) (u @ v)"
| alt_left: "rx_matches r u \<Longrightarrow> rx_matches (RxAlt r s) u"
| alt_right: "rx_matches s u \<Longrightarrow> rx_matches (RxAlt r s) u"
| star_nil: "rx_matches (RxStar r) []"
| star_cons: "rx_matches r u \<Longrightarrow> rx_matches (RxStar r) v \<Longrightarrow> rx_matches (RxStar r) (u @ v)"

inductive_simps rx_none: "rx_matches RxNone s"

inductive_simps rx_empty: "rx_matches RxEmpty s"

inductive_simps rx_class: "rx_matches (RxClass P) s"

inductive_simps rx_seq: "rx_matches (RxSeq r r') s"

inductive_simps rx_alt: "rx_matches (RxAlt r r') s"

inductive_cases rx_starE: "rx_matches (RxStar r) s"

lemmas rx_basic = rx_none rx_empty rx_class rx_seq rx_alt

lemma nullable_iff: "nullable r \<longleftrightarrow> rx_matches r []"
  by (induction r) (auto simp: rx_basic intro: rx_matches.intros)

lemma rx_star_Cons:
  "rx_matches (RxStar r) (c # s) \<longleftrightarrow> (\<exists>u v. s = u @ v \<and> rx_matches r (c # u) \<and> rx_matches (RxStar r) v)"
proof
  assume "rx_matches (RxStar r) (c # s)"
  then show "\<exists>u v. s = u @ v \<and> rx_matches r (c # u) \<and> rx_matches (RxStar r) v"
  proof (induction "RxStar r" "c # s" arbitrary: c s rule: rx_matches.induct)
    case (star_cons u v)
    then show ?case by (cases u) auto
  qed
next
  assume "\<exists>u v. s = u @ v \<and> rx_matches r (c # u) \<and> rx_matches (RxStar r) v"
  then show "rx_matches (RxStar r) (c # s)"
    using rx_matches.star_cons by fastforce
qed

lemma rx_seq_of: "rx_matches (seq_of r s) w \<longleftrightarrow> rx_matches (RxSeq r s) w"
  by (cases r) (auto simp: rx_basic)

lemma rx_alt_of: "rx_matches (alt_of r s) w \<longleftrightarrow> rx_matches (RxAlt r s) w"
  by (cases r; cases s) (auto simp: rx_basic)

lemma deriv_iff: "rx_matches (deriv c r) s \<longleftrightarrow> rx_matches r (c # s)"
proof (induction r arbitrary: s)
  case (RxSeq r1 r2)
  have "rx_matches (RxSeq r1 r2) (c # s) \<longleftrightarrow>
      (rx_matches r1 [] \<and> rx_matches r2 (c # s)) \<or> (\<exists>u v. s = u @ v \<and> rx_matches r1 (c # u) \<and> rx_matches r2 v)"
    by (auto simp: rx_seq Cons_eq_append_conv)
  with RxSeq show ?case
    by (auto simp: rx_seq_of rx_alt_of rx_seq rx_alt nullable_iff)
next
  case (RxStar r)
  then show ?case by (auto simp: rx_seq_of rx_seq rx_star_Cons)
qed (auto simp: rx_basic rx_alt_of)

lemma MatchString_iff: "MatchString r s \<longleftrightarrow> rx_matches r s"
  by (induction r s rule: MatchString.induct) (simp_all add: nullable_iff deriv_iff)

lemma rx_star_class: "rx_matches (RxStar (RxClass P)) s \<longleftrightarrow> (\<forall>c \<in> set s. P c)"
  by (induction s) (auto simp: rx_star_Cons rx_class intro: rx_matches.star_nil)

lemma rx_opt: "rx_matches (RxOpt r) s \<longleftrightarrow> s = [] \<or> rx_matches r s"
  by (simp add: RxOpt_def rx_basic)

text \<open>A first character, any middle, and a last character of a class that is part of the middle.\<close>

lemma rx_class_seq:
  "rx_matches (RxSeq (RxClass P) r) s \<longleftrightarrow> (\<exists>c rest. s = c # rest \<and> P c \<and> rx_matches r rest)"
  by (auto simp: rx_seq rx_class) (metis append_Cons append_Nil)

lemma rx_seq_class:
  "rx_matches (RxSeq r (RxClass P)) s \<longleftrightarrow> s \<noteq> [] \<and> rx_matches r (butlast s) \<and> P (last s)"
  by (cases s rule: rev_cases) (auto simp: rx_seq rx_class)

lemma rx_bracketed:
  assumes "\<And>c. last_class c \<Longrightarrow> mid_class c"
  shows "rx_matches (RxSeq (RxClass first_class) (RxOpt (RxSeq (RxStar (RxClass mid_class)) (RxClass last_class)))) s \<longleftrightarrow>
    (\<exists>c rest. s = c # rest \<and> first_class c \<and> (\<forall>d \<in> set rest. mid_class d) \<and> (rest = [] \<or> last_class (last rest)))"
proof -
  have "rest \<noteq> [] \<and> (\<forall>d \<in> set (butlast rest). mid_class d) \<and> last_class (last rest) \<longleftrightarrow>
      rest \<noteq> [] \<and> (\<forall>d \<in> set rest. mid_class d) \<and> last_class (last rest)" for rest
    using assms by (cases rest rule: rev_cases) auto
  then show ?thesis
    unfolding rx_class_seq rx_opt rx_seq_class rx_star_class by auto
qed

lemma dns1123_label_match:
  "MatchString rx_dns1123Label s \<longleftrightarrow> s \<noteq> [] \<and> is_lower_alnum (hd s) \<and> is_lower_alnum (last s) \<and> (\<forall>c \<in> set s. is_label_char c)"
proof -
  have "MatchString rx_dns1123Label s \<longleftrightarrow> (\<exists>c rest. s = c # rest \<and> is_lower_alnum c \<and>
      (\<forall>d \<in> set rest. is_label_char d) \<and> (rest = [] \<or> is_lower_alnum (last rest)))"
    unfolding MatchString_iff rx_dns1123Label_def by (rule rx_bracketed) (simp add: is_label_char_def)
  then show ?thesis
    by (cases s) (auto simp: is_label_char_def)
qed

lemma IsDNS1123Label_iff:
  "IsDNS1123Label s = [] \<longleftrightarrow> s \<noteq> [] \<and> length s \<le> 63 \<and> is_lower_alnum (hd s) \<and> is_lower_alnum (last s) \<and>
     (\<forall>c \<in> set s. is_label_char c)"
proof -
  have "IsDNS1123Label s = [] \<longleftrightarrow> \<not> length s > 63 \<and> MatchString rx_dns1123Label s"
    by (cases "length s > 63"; cases "MatchString rx_dns1123Label s") (simp_all add: IsDNS1123Label_def)
  then show ?thesis
    unfolding dns1123_label_match by (simp add: not_less conj_ac)
qed

lemma may_not_contain_Nil: "may_not_contain name = [] \<longleftrightarrow> CHR ''/'' \<notin> set name \<and> CHR ''%'' \<notin> set name"
  by (auto simp: may_not_contain_def NameMayNotContain_def go_simps filter_empty_conv)

end
