(* ===== verification/MetaValidation.thy ===== *)
theory MetaValidation
  imports NameValidation Stores
begin

text \<open>
  The apimachinery library's validation of object metadata (\<^verbatim>\<open>api/validation/objectmeta.go\<close>), on creation and
  on update. The update validation repairs the metadata it is given, so it returns both objects' metadata
  as it leaves them. Map entries are visited in the order of the list.
\<close>

section \<open>Field errors\<close>

type_synonym error_list = "field_error list"

definition field_Invalid :: "string \<Rightarrow> bad_value \<Rightarrow> string \<Rightarrow> field_error" where
  "field_Invalid fld v detail = \<lparr>fe_Type = ErrorTypeInvalid, fe_Field = fld, fe_BadValue = v, fe_Detail = detail\<rparr>"

definition field_Required :: "string \<Rightarrow> string \<Rightarrow> field_error" where
  "field_Required fld detail = \<lparr>fe_Type = ErrorTypeRequired, fe_Field = fld, fe_BadValue = BadString '''', fe_Detail = detail\<rparr>"

definition field_Forbidden :: "string \<Rightarrow> string \<Rightarrow> field_error" where
  "field_Forbidden fld detail = \<lparr>fe_Type = ErrorTypeForbidden, fe_Field = fld, fe_BadValue = BadString '''', fe_Detail = detail\<rparr>"

definition field_TooLong :: "string \<Rightarrow> bad_value \<Rightarrow> int \<Rightarrow> field_error" where
  "field_TooLong fld v maxLength = \<lparr>fe_Type = ErrorTypeTooLong, fe_Field = fld, fe_BadValue = v,
     fe_Detail = ''must have at most '' @ digits (nat maxLength) @ '' characters''\<rparr>"

text \<open>A path is the string it prints as.\<close>

definition Child :: "string \<Rightarrow> string \<Rightarrow> string" where
  "Child p name = p @ ''.'' @ name"

definition Key :: "string \<Rightarrow> string \<Rightarrow> string" where
  "Key p key = p @ ''['' @ key @ '']''"

definition Index :: "string \<Rightarrow> nat \<Rightarrow> string" where
  "Index p i = p @ ''['' @ digits i @ '']''"

section \<open>Labels, annotations and owners\<close>

text \<open>\<^verbatim>\<open>strings.ToLower\<close> on ASCII letters; other bytes are left, and no qualified name has any.\<close>

definition ToLower :: "string \<Rightarrow> string" where
  "ToLower s = map (\<lambda>c. if is_upper c then char_of (of_char c + (32 :: nat)) else c) s"

fun label_errors :: "strmap \<Rightarrow> string \<Rightarrow> error_list" where
  "label_errors [] fld = []"
| "label_errors ((k, v) # m) fld =
     map (\<lambda>msg. field_Invalid fld (BadString k) msg) (IsQualifiedName k) @
     map (\<lambda>msg. field_Invalid fld (BadString v) msg) (IsValidLabelValue v) @ label_errors m fld"

definition ValidateLabels :: "gomap \<Rightarrow> string \<Rightarrow> error_list" where
  "ValidateLabels m fld = label_errors (gomap_items m) fld"

definition totalAnnotationSizeLimitB :: int where "totalAnnotationSizeLimitB = 256 * (1 * 1024)"

definition ValidateAnnotations :: "gomap \<Rightarrow> string \<Rightarrow> error_list" where
  "ValidateAnnotations m fld =
     concat (map (\<lambda>(k, v). map (\<lambda>msg. field_Invalid fld (BadString k) msg) (IsQualifiedName (ToLower k))) (gomap_items m)) @
     (if sum_list (map (\<lambda>(k, v). int (length k) + int (length v)) (gomap_items m)) > totalAnnotationSizeLimitB
      then [field_TooLong fld (BadString '''') totalAnnotationSizeLimitB] else [])"

text \<open>\<^verbatim>\<open>schema.FromAPIVersionAndKind\<close>: group, version and kind; an unparsable version gives the kind alone.\<close>

definition FromAPIVersionAndKind :: "string \<Rightarrow> string \<Rightarrow> string \<times> string \<times> string" where
  "FromAPIVersionAndKind apiVersion kind =
     (if length apiVersion = 0 \<or> apiVersion = ''/'' then ('''', '''', kind)
      else (case Split apiVersion (CHR ''/'') of
              [version] \<Rightarrow> ('''', version, kind)
            | [grp, version] \<Rightarrow> (grp, version, kind)
            | _ \<Rightarrow> ('''', '''', kind)))"

definition validateOwnerReference :: "owner_reference \<Rightarrow> string \<Rightarrow> error_list" where
  "validateOwnerReference ref fld =
     (let (grp, version, kind) = FromAPIVersionAndKind (or_APIVersion ref) (or_Kind ref) in
      (if length version = 0 then [field_Invalid (Child fld ''apiVersion'') (BadString (or_APIVersion ref)) ''version must not be empty''] else []) @
      (if length kind = 0 then [field_Invalid (Child fld ''kind'') (BadString (or_Kind ref)) ''kind must not be empty''] else []) @
      (if length (or_Name ref) = 0 then [field_Invalid (Child fld ''name'') (BadString (or_Name ref)) ''name must not be empty''] else []) @
      (if length (or_UID ref) = 0 then [field_Invalid (Child fld ''uid'') (BadString (or_UID ref)) ''uid must not be empty''] else []) @
      (if (grp, version, kind) = ('''', ''v1'', ''Event'')
       then [field_Invalid fld (BadOwner ref) (grp @ ''/'' @ version @ '', Kind='' @ kind @ '' is disallowed from being an owner'')] else []))"

fun owner_errors :: "owner_reference list \<Rightarrow> owner_reference list \<Rightarrow> string \<Rightarrow> string \<Rightarrow> error_list" where
  "owner_errors all [] controllerName fld = []"
| "owner_errors all (ref # refs) controllerName fld =
     validateOwnerReference ref fld @
     (if or_Controller ref = Some True then
        (if controllerName \<noteq> '''' then
           field_Invalid fld (BadOwners all) (''Only one reference can have Controller set to true. Found \"true\" in references for '' @
             controllerName @ '' and '' @ or_Name ref) # owner_errors all refs controllerName fld
         else owner_errors all refs (or_Name ref) fld)
      else owner_errors all refs controllerName fld)"

definition ValidateOwnerReferences :: "owner_reference list \<Rightarrow> string \<Rightarrow> error_list" where
  "ValidateOwnerReferences refs fld = owner_errors refs refs '''' fld"

section \<open>Initializers and finalizers\<close>

definition IsFullyQualifiedName :: "string \<Rightarrow> string \<Rightarrow> error_list" where
  "IsFullyQualifiedName fld name =
     (if length name = 0 then [field_Required fld '''']
      else if IsDNS1123Subdomain name \<noteq> [] then [field_Invalid fld (BadString name) (Join (IsDNS1123Subdomain name) '','')]
      else if length (Split name (CHR ''.'')) < 3
        then [field_Invalid fld (BadString name) ''should be a domain with at least three segments separated by dots'']
      else [])"

definition validateInitializersResult :: "(string \<times> string) option \<Rightarrow> string \<Rightarrow> error_list" where
  "validateInitializersResult result fld =
     (case result of
        None \<Rightarrow> []
      | Some (status, rest) \<Rightarrow>
          if status = ''Failure'' then []
          else [field_Invalid (Child fld ''status'') (BadString status)
                  (''must be '' @ [CHR 0x27] @ ''Failure'' @ [CHR 0x27])])"

fun pending_errors :: "string list \<Rightarrow> nat \<Rightarrow> string \<Rightarrow> error_list" where
  "pending_errors [] i fld = []"
| "pending_errors (name # names) i fld =
     IsFullyQualifiedName (Child (Index (Child fld ''pending'') i) ''name'') name @ pending_errors names (Suc i) fld"

definition ValidateInitializers :: "initializers option \<Rightarrow> string \<Rightarrow> error_list" where
  "ValidateInitializers inits fld =
     (case inits of
        None \<Rightarrow> []
      | Some i \<Rightarrow> pending_errors (in_Pending i) 0 fld @ validateInitializersResult (in_Result i) (Child fld ''result''))"

definition ValidateInitializersUpdate :: "initializers option \<Rightarrow> initializers option \<Rightarrow> string \<Rightarrow> error_list" where
  "ValidateInitializersUpdate newInit oldInit fld =
     (case (oldInit, newInit) of
        (None, Some n) \<Rightarrow> [field_Invalid fld BadNil ''field is immutable once initialization has completed'']
      | (Some ol, Some n) \<Rightarrow>
          if in_Result ol = None \<and> in_Result n \<noteq> None
          then validateInitializersResult (in_Result n) (Child fld ''result'')
          else if in_Result ol \<noteq> None
          then (if in_Result ol \<noteq> in_Result n
                then [field_Invalid (Child fld ''result'') (BadResult (in_Result n)) ''field is immutable''] else [])
          else []
      | _ \<Rightarrow> [])"

definition ValidateFinalizers :: "string list \<Rightarrow> string \<Rightarrow> error_list" where
  "ValidateFinalizers finalizers fld =
     concat (map (\<lambda>f. map (\<lambda>msg. field_Invalid fld (BadString f) msg) (IsQualifiedName f)) finalizers) @
     (if ''foregroundDeletion'' \<in> set finalizers \<and> ''orphan'' \<in> set finalizers
      then [field_Invalid fld (BadStrings (Some finalizers)) ''finalizer orphan and foregroundDeletion cannot be both set''] else [])"

definition ValidateNoNewFinalizers :: "string list \<Rightarrow> string list \<Rightarrow> string \<Rightarrow> error_list" where
  "ValidateNoNewFinalizers newFinalizers oldFinalizers fld =
     (let extra = set_Difference (NewString newFinalizers) (NewString oldFinalizers) in
      if length extra \<noteq> 0
      then [field_Forbidden fld (''no new finalizers can be added if the object is being deleted, found new finalizers []string{'' @
              Join (map (\<lambda>f. CHR 0x22 # f @ [CHR 0x22]) (set_List extra)) '', '' @ ''}'')] else [])"

section \<open>Metadata\<close>

definition ValidateObjectMeta :: "object_meta \<Rightarrow> bool \<Rightarrow> (string \<Rightarrow> bool \<Rightarrow> string list) \<Rightarrow> string \<Rightarrow> error_list" where
  "ValidateObjectMeta meta requiresNamespace nameFn fld =
     (if length (om_GenerateName meta) \<noteq> 0
      then map (\<lambda>msg. field_Invalid (Child fld ''generateName'') (BadString (om_GenerateName meta)) msg)
             (nameFn (om_GenerateName meta) True) else []) @
     (if length (om_Name meta) = 0 then [field_Required (Child fld ''name'') ''name or generateName is required'']
      else map (\<lambda>msg. field_Invalid (Child fld ''name'') (BadString (om_Name meta)) msg) (nameFn (om_Name meta) False)) @
     (if requiresNamespace then
        (if length (om_Namespace meta) = 0 then [field_Required (Child fld ''namespace'') '''']
         else map (\<lambda>msg. field_Invalid (Child fld ''namespace'') (BadString (om_Namespace meta)) msg)
                (IsDNS1123Label (om_Namespace meta)))
      else if length (om_Namespace meta) \<noteq> 0 then [field_Forbidden (Child fld ''namespace'') ''not allowed on this type''] else []) @
     (if length (om_ClusterName meta) \<noteq> 0
      then map (\<lambda>msg. field_Invalid (Child fld ''clusterName'') (BadString (om_ClusterName meta)) msg)
             (IsDNS1035Label (om_ClusterName meta)) else []) @
     (if om_Generation meta < 0
      then [field_Invalid (Child fld ''generation'') (BadInt (om_Generation meta)) ''must be greater than or equal to 0''] else []) @
     ValidateLabels (om_Labels meta) (Child fld ''labels'') @
     ValidateAnnotations (om_Annotations meta) (Child fld ''annotations'') @
     ValidateOwnerReferences (om_OwnerReferences meta) (Child fld ''ownerReferences'') @
     ValidateInitializers (om_Initializers meta) (Child fld ''initializers'') @
     ValidateFinalizers (om_Finalizers meta) (Child fld ''finalizers'')"

text \<open>A nil time and the zero time are zero.\<close>

definition IsZero :: "go_time option \<Rightarrow> bool" where
  "IsZero t \<longleftrightarrow> t = None \<or> t = Some 0"

text \<open>The repairs, with \<^verbatim>\<open>RepairMalformedUpdates\<close> set as it is by default.\<close>

definition repair_meta :: "object_meta \<Rightarrow> object_meta \<Rightarrow> object_meta \<times> object_meta" where
  "repair_meta n ol =
     (let n = (if length (om_UID n) = 0 then n\<lparr>om_UID := om_UID ol\<rparr> else n);
          (n, ol) = (if om_CreationTimestamp ol = 0
                     then (n, ol\<lparr>om_CreationTimestamp := om_CreationTimestamp n\<rparr>)
                     else (n\<lparr>om_CreationTimestamp := om_CreationTimestamp ol\<rparr>, ol));
          n = (if \<not> IsZero (om_DeletionTimestamp ol) then n\<lparr>om_DeletionTimestamp := om_DeletionTimestamp ol\<rparr> else n);
          n = (if om_DeletionGracePeriodSeconds ol \<noteq> None \<and> om_DeletionGracePeriodSeconds n = None
               then n\<lparr>om_DeletionGracePeriodSeconds := om_DeletionGracePeriodSeconds ol\<rparr> else n)
      in (n, ol))"

definition immutable_string :: "string \<Rightarrow> string \<Rightarrow> string \<Rightarrow> error_list" where
  "immutable_string newVal oldVal fld =
     (if oldVal \<noteq> newVal then [field_Invalid fld (BadString newVal) ''field is immutable''] else [])"

definition meta_update_errors :: "object_meta \<Rightarrow> object_meta \<Rightarrow> string \<Rightarrow> error_list" where
  "meta_update_errors n ol fld =
     (case om_DeletionGracePeriodSeconds n of
        None \<Rightarrow> []
      | Some s \<Rightarrow> if om_DeletionGracePeriodSeconds ol \<noteq> Some s
          then [field_Invalid (Child fld ''deletionGracePeriodSeconds'') (BadInt s)
                  ''field is immutable; may only be changed via deletion''] else []) @
     (case om_DeletionTimestamp n of
        None \<Rightarrow> []
      | Some t \<Rightarrow> if om_DeletionTimestamp ol \<noteq> Some t
          then [field_Invalid (Child fld ''deletionTimestamp'') (BadTime (Some t))
                  ''field is immutable; may only be changed via deletion''] else []) @
     (if om_DeletionTimestamp ol \<noteq> None
      then ValidateNoNewFinalizers (om_Finalizers n) (om_Finalizers ol) (Child fld ''finalizers'') else []) @
     (if length (om_ResourceVersion n) = 0
      then [field_Invalid (Child fld ''resourceVersion'') (BadString (om_ResourceVersion n)) ''must be specified for an update''] else []) @
     (if om_Generation n < om_Generation ol
      then [field_Invalid (Child fld ''generation'') (BadInt (om_Generation n)) ''must not be decremented''] else []) @
     ValidateInitializersUpdate (om_Initializers n) (om_Initializers ol) (Child fld ''initializers'') @
     immutable_string (om_Name n) (om_Name ol) (Child fld ''name'') @
     immutable_string (om_Namespace n) (om_Namespace ol) (Child fld ''namespace'') @
     immutable_string (om_UID n) (om_UID ol) (Child fld ''uid'') @
     (if om_CreationTimestamp ol \<noteq> om_CreationTimestamp n
      then [field_Invalid (Child fld ''creationTimestamp'') (BadTime (Some (om_CreationTimestamp n))) ''field is immutable''] else []) @
     immutable_string (om_ClusterName n) (om_ClusterName ol) (Child fld ''clusterName'') @
     ValidateLabels (om_Labels n) (Child fld ''labels'') @
     ValidateAnnotations (om_Annotations n) (Child fld ''annotations'') @
     ValidateOwnerReferences (om_OwnerReferences n) (Child fld ''ownerReferences'')"

definition ValidateObjectMetaUpdate :: "object_meta \<Rightarrow> object_meta \<Rightarrow> string \<Rightarrow> error_list \<times> object_meta \<times> object_meta" where
  "ValidateObjectMetaUpdate newMeta oldMeta fld =
     (let (n, ol) = repair_meta newMeta oldMeta in (meta_update_errors n ol fld, n, ol))"

section \<open>What the repairs and the update checks establish\<close>

lemma repair_meta_fields:
  assumes "repair_meta n ol = (n', ol')"
  shows "om_Name n' = om_Name n" "om_Annotations n' = om_Annotations n" "om_Labels n' = om_Labels n"
    "om_Namespace n' = om_Namespace n" "om_ClusterName n' = om_ClusterName n" "om_ResourceVersion n' = om_ResourceVersion n"
    "om_Finalizers n' = om_Finalizers n" "om_OwnerReferences n' = om_OwnerReferences n"
    "om_Name ol' = om_Name ol" "om_Annotations ol' = om_Annotations ol" "om_Labels ol' = om_Labels ol"
    "om_Namespace ol' = om_Namespace ol" "om_ClusterName ol' = om_ClusterName ol" "om_UID ol' = om_UID ol"
    "om_UID n' = (if om_UID n = '''' then om_UID ol else om_UID n)"
    "om_CreationTimestamp ol' = om_CreationTimestamp n'"
  using assms by (auto simp: repair_meta_def Let_def split: if_splits)

lemma meta_update_ok:
  assumes "meta_update_errors n ol fld = []"
  shows "om_Name n = om_Name ol" "om_Namespace n = om_Namespace ol" "om_UID n = om_UID ol"
    "om_CreationTimestamp n = om_CreationTimestamp ol" "om_ClusterName n = om_ClusterName ol"
    "om_ResourceVersion n \<noteq> ''''" "om_Generation ol \<le> om_Generation n"
    "om_DeletionTimestamp n \<in> {None, om_DeletionTimestamp ol}"
  using assms by (auto simp: meta_update_errors_def immutable_string_def split: if_splits option.splits)

end
