(* ===== verification/Validation.thy ===== *)
theory Validation
  imports MetaValidation Convert
begin

text \<open>
  \<^verbatim>\<open>pkg/apis/project/validation/validation.go\<close>: which projects may be created and how a project may change.
  The update validation repairs both projects' metadata while it checks it, so it returns the projects
  too.
\<close>

section \<open>Creation\<close>

text \<open>
  \<^verbatim>\<open>ValidateNamespaceName\<close> is called with a false prefix, for which it is the DNS label rule.
\<close>

definition ValidateProjectName :: "string \<Rightarrow> bool \<Rightarrow> string list" where
  "ValidateProjectName name pre =
     (let reasons = ValidatePathSegmentName name pre in
      if length reasons \<noteq> 0 then reasons
      else if length name < 2 then [''must be at least 2 characters long'']
      else let reasons = (case NameIsDNSLabel name False of Return r \<Rightarrow> r | Panic m \<Rightarrow> [m] | Blocked \<Rightarrow> []) in
           if length reasons \<noteq> 0 then reasons else [])"

definition validateNoNewLineOrTab :: "string \<Rightarrow> bool" where
  "validateNoNewLineOrTab s = (\<not> (Contains s [CHR 0x0A] \<or> Contains s [CHR 0x09]))"

definition ValidateProject :: "project \<Rightarrow> error_list" where
  "ValidateProject p =
     ValidateObjectMeta (pr_ObjectMeta p) False ValidateProjectName ''metadata'' @
     (if \<not> validateNoNewLineOrTab (gomap_index (om_Annotations (pr_ObjectMeta p)) ProjectDisplayName)
      then [field_Invalid (Key ''metadata.annotations'' ProjectDisplayName)
              (BadString (gomap_index (om_Annotations (pr_ObjectMeta p)) ProjectDisplayName)) ''may not contain a new line or tab'']
      else [])"

definition ValidateProjectRequest :: "project_request \<Rightarrow> error_list" where
  "ValidateProjectRequest request =
     ValidateProject \<lparr>pr_ObjectMeta = prq_ObjectMeta request, pr_Spec = \<lparr>ps_Finalizers = None\<rparr>,
       pr_Status = \<lparr>pst_Phase = ''''\<rparr>\<rparr>"

section \<open>Update\<close>

text \<open>The loops over the entries of the new map and over those of the old one.\<close>

fun changed_annotations :: "strmap \<Rightarrow> gomap \<Rightarrow> error_list" where
  "changed_annotations [] oldAnnotations = []"
| "changed_annotations ((name, v) # m) oldAnnotations =
     (if name = ProjectDisplayName \<or> name = ProjectDescription then changed_annotations m oldAnnotations
      else if v \<noteq> gomap_index oldAnnotations name
        then field_Invalid (Key ''metadata.annotations'' name) (BadString v)
               ''field is immutable, try updating the namespace'' # changed_annotations m oldAnnotations
      else changed_annotations m oldAnnotations)"

fun deleted_annotations :: "strmap \<Rightarrow> gomap \<Rightarrow> error_list" where
  "deleted_annotations [] newAnnotations = []"
| "deleted_annotations ((name, v) # m) newAnnotations =
     (if name = ProjectDisplayName \<or> name = ProjectDescription then deleted_annotations m newAnnotations
      else if gomap_lookup newAnnotations name = None
        then field_Invalid (Key ''metadata.annotations'' name) (BadString v)
               ''field is immutable, try updating the namespace'' # deleted_annotations m newAnnotations
      else deleted_annotations m newAnnotations)"

fun changed_labels :: "strmap \<Rightarrow> gomap \<Rightarrow> error_list" where
  "changed_labels [] oldLabels = []"
| "changed_labels ((name, v) # m) oldLabels =
     (if v \<noteq> gomap_index oldLabels name
      then field_Invalid (Key ''metadata.labels'' name) (BadString v)
             ''field is immutable, , try updating the namespace'' # changed_labels m oldLabels
      else changed_labels m oldLabels)"

fun deleted_labels :: "strmap \<Rightarrow> gomap \<Rightarrow> error_list" where
  "deleted_labels [] newLabels = []"
| "deleted_labels ((name, v) # m) newLabels =
     (if gomap_lookup newLabels name = None
      then field_Invalid (Key ''metadata.labels'' name) (BadString v)
             ''field is immutable, try updating the namespace'' # deleted_labels m newLabels
      else deleted_labels m newLabels)"

definition ValidateProjectUpdate :: "project \<Rightarrow> project \<Rightarrow> error_list \<times> project \<times> project" where
  "ValidateProjectUpdate newProject oldProject =
     (let (metaErrs, newMeta, oldMeta) =
            ValidateObjectMetaUpdate (pr_ObjectMeta newProject) (pr_ObjectMeta oldProject) ''metadata'';
          newProject = newProject\<lparr>pr_ObjectMeta := newMeta\<rparr>;
          oldProject = oldProject\<lparr>pr_ObjectMeta := oldMeta\<rparr>
      in (metaErrs @ ValidateProject newProject @
          (if ps_Finalizers (pr_Spec newProject) \<noteq> ps_Finalizers (pr_Spec oldProject)
           then [field_Invalid ''spec.finalizers'' (BadStrings (ps_Finalizers (pr_Spec oldProject))) ''field is immutable'']
           else []) @
          (if pr_Status newProject \<noteq> pr_Status oldProject
           then [field_Invalid ''status'' (BadStrings (ps_Finalizers (pr_Spec oldProject))) ''field is immutable'']
           else []) @
          changed_annotations (gomap_items (om_Annotations newMeta)) (om_Annotations oldMeta) @
          deleted_annotations (gomap_items (om_Annotations oldMeta)) (om_Annotations newMeta) @
          changed_labels (gomap_items (om_Labels newMeta)) (om_Labels oldMeta) @
          deleted_labels (gomap_items (om_Labels oldMeta)) (om_Labels newMeta),
          newProject, oldProject))"

section \<open>What the loops decide\<close>

lemma changed_annotations_Nil:
  "changed_annotations m a = [] \<longleftrightarrow>
     (\<forall>(k, v) \<in> set m. k \<in> {ProjectDisplayName, ProjectDescription} \<or> v = gomap_index a k)"
  by (induction m a rule: changed_annotations.induct) auto

lemma deleted_annotations_Nil:
  "deleted_annotations m a = [] \<longleftrightarrow>
     (\<forall>(k, v) \<in> set m. k \<in> {ProjectDisplayName, ProjectDescription} \<or> gomap_lookup a k \<noteq> None)"
  by (induction m a rule: deleted_annotations.induct) auto

lemma changed_labels_Nil: "changed_labels m a = [] \<longleftrightarrow> (\<forall>(k, v) \<in> set m. v = gomap_index a k)"
  by (induction m a rule: changed_labels.induct) auto

lemma deleted_labels_Nil: "deleted_labels m a = [] \<longleftrightarrow> (\<forall>(k, v) \<in> set m. gomap_lookup a k \<noteq> None)"
  by (induction m a rule: deleted_labels.induct) auto

lemma gomap_lookup_mem: "gomap_lookup m k = Some v \<Longrightarrow> (k, v) \<in> set (gomap_items m)"
  by (cases m) (auto dest: map_of_SomeD)

text \<open>
  What two maps have in common when every entry of the new one has the value of the old, and every key
  of the old one is in the new: they read the same, and the new one may have keys with the empty value
  that the old one lacks.
\<close>

lemma same_readings:
  assumes "\<forall>(k, v) \<in> set (gomap_items m). v = gomap_index a k"
    and "\<forall>(k, v) \<in> set (gomap_items a). gomap_lookup m k \<noteq> None"
  shows "gomap_index m k = gomap_index a k"
proof (cases "gomap_lookup m k")
  case (Some v)
  with assms(1) gomap_lookup_mem [OF Some] show ?thesis by (auto simp: gomap_index_def)
next
  case None
  then have "gomap_lookup a k = None"
    using assms(2) gomap_lookup_mem by (cases "gomap_lookup a k") fastforce+
  with None show ?thesis by (simp add: gomap_index_def)
qed

lemma ValidateProjectUpdate_parts:
  assumes "ValidateProjectUpdate new old = ([], new', old')"
  obtains nm om where "repair_meta (pr_ObjectMeta new) (pr_ObjectMeta old) = (nm, om)"
    "new' = new\<lparr>pr_ObjectMeta := nm\<rparr>" "old' = old\<lparr>pr_ObjectMeta := om\<rparr>"
    "meta_update_errors nm om ''metadata'' = []" "ValidateProject new' = []"
    "ps_Finalizers (pr_Spec new) = ps_Finalizers (pr_Spec old)" "pr_Status new = pr_Status old"
    "changed_annotations (gomap_items (om_Annotations nm)) (om_Annotations om) = []"
    "deleted_annotations (gomap_items (om_Annotations om)) (om_Annotations nm) = []"
    "changed_labels (gomap_items (om_Labels nm)) (om_Labels om) = []"
    "deleted_labels (gomap_items (om_Labels om)) (om_Labels nm) = []"
proof -
  obtain nm om where r: "repair_meta (pr_ObjectMeta new) (pr_ObjectMeta old) = (nm, om)" by fastforce
  show ?thesis
    using assms r by (intro that [of nm om])
      (auto simp: ValidateProjectUpdate_def ValidateObjectMetaUpdate_def Let_def split: if_splits)
qed

section \<open>Properties\<close>

lemma label_chars: "\<forall>c \<in> set s. is_label_char c \<Longrightarrow> CHR ''/'' \<notin> set s \<and> CHR ''%'' \<notin> set s \<and> CHR ''.'' \<notin> set s"
proof -
  assume c: "\<forall>c \<in> set s. is_label_char c"
  have "\<not> is_label_char (CHR ''/'')" "\<not> is_label_char (CHR ''%'')" "\<not> is_label_char (CHR ''.'')"
    by code_simp+
  with c show ?thesis by blast
qed

lemma project_name_valid:
  "ValidateProjectName name pre = [] \<longleftrightarrow> 2 \<le> length name \<and> IsDNS1123Label name = []"
proof -
  have "ValidatePathSegmentName name pre = []" if "IsDNS1123Label name = []"
  proof -
    have c: "\<forall>c \<in> set name. is_label_char c" and ne: "name \<noteq> []"
      using that unfolding IsDNS1123Label_iff by blast+
    have "CHR ''/'' \<notin> set name" "CHR ''%'' \<notin> set name" "CHR ''.'' \<notin> set name"
      using label_chars [OF c] by blast+
    with ne show ?thesis
      by (auto simp: ValidatePathSegmentName_def IsValidPathSegmentName_def IsValidPathSegmentPrefix_def
          may_not_contain_Nil NameMayNotBe_def)
  qed
  then show ?thesis
    by (auto simp: ValidateProjectName_def NameIsDNSLabel_def Let_def)
qed

text \<open>
  C34: A project name is accepted exactly when it has from 2 to 63 characters, all of them lower case
  letters, digits or dashes, and starts and ends with a letter or digit; that the name is only the
  prefix of a generated one makes no difference.
\<close>

theorem ValidateProjectName_iff:
  "ValidateProjectName name pre = [] \<longleftrightarrow>
     length name \<in> {2..63} \<and> is_lower_alnum (hd name) \<and> is_lower_alnum (last name) \<and>
     set name \<subseteq> {c. c = CHR ''-'' \<or> c \<in> {CHR ''a''..CHR ''z''} \<or> c \<in> {CHR ''0''..CHR ''9''}}"
  unfolding project_name_valid IsDNS1123Label_iff
  by (auto simp: is_label_char_def is_lower_alnum_def is_lower_def is_digit_def)


definition sample_project :: "strmap \<Rightarrow> strmap \<Rightarrow> project" where
  "sample_project annotations labels =
     \<lparr>pr_ObjectMeta = empty_meta\<lparr>om_Name := ''shop'', om_UID := ''u1'', om_ResourceVersion := ''7'',
        om_CreationTimestamp := 5, om_Annotations := Some annotations, om_Labels := Some labels\<rparr>,
      pr_Spec = \<lparr>ps_Finalizers = Some [FinalizerOrigin]\<rparr>, pr_Status = \<lparr>pst_Phase = ''Active''\<rparr>\<rparr>"


text \<open>
  Reading the same is not being the same: an update may add a label and an annotation that the
  project did not have, if their value is empty.
\<close>

theorem empty_additions_accepted:
  "\<exists>new old new' old'. ValidateProjectUpdate new old = ([], new', old') \<and>
     gomap_lookup (om_Labels (pr_ObjectMeta new')) ''tier'' = Some '''' \<and>
     gomap_lookup (om_Labels (pr_ObjectMeta old)) ''tier'' = None \<and>
     gomap_lookup (om_Annotations (pr_ObjectMeta new')) ProjectNodeSelector = Some '''' \<and>
     gomap_lookup (om_Annotations (pr_ObjectMeta old)) ProjectNodeSelector = None"
proof -
  let ?new = "sample_project [(ProjectNodeSelector, '''')] [(''tier'', '''')]" and ?old = "sample_project [] []"
  let ?r = "ValidateProjectUpdate ?new ?old"
  have "fst ?r = []" by code_simp
  then have "?r = ([], fst (snd ?r), snd (snd ?r))" by (metis prod.collapse)
  moreover have "gomap_lookup (om_Labels (pr_ObjectMeta (fst (snd ?r)))) ''tier'' = Some ''''" by code_simp
  moreover have "gomap_lookup (om_Annotations (pr_ObjectMeta (fst (snd ?r)))) ProjectNodeSelector = Some ''''" by code_simp
  moreover have "gomap_lookup (om_Labels (pr_ObjectMeta ?old)) ''tier'' = None"
    "gomap_lookup (om_Annotations (pr_ObjectMeta ?old)) ProjectNodeSelector = None"
    by (simp_all add: sample_project_def)
  ultimately show ?thesis by blast
qed

end
