(* ===== verification/Selectors.thy ===== *)
theory Selectors
  imports Stores
begin

text \<open>
  The label and field selectors a list request carries (\<^verbatim>\<open>labels/selector.go\<close> and
  \<^verbatim>\<open>fields/selector.go\<close> of the apimachinery library) and the selection predicate built from them
  (\<^verbatim>\<open>storage/selection_predicate.go\<close> of the apiserver library). Parsing a selector from its text is
  done before the storage is called and is left out.
\<close>

section \<open>Label selectors\<close>

datatype selection_operator = OpDoesNotExist | OpEquals | OpDoubleEquals | OpIn | OpNotEquals | OpNotIn
  | OpExists | OpGreaterThan | OpLessThan | OpUnknown string

record label_requirement =
  rq_key :: string
  rq_operator :: selection_operator
  rq_strValues :: "string list"

datatype label_selector = InternalSelector "label_requirement list" | NothingSelector

text \<open>\<^verbatim>\<open>strconv.ParseInt(s, 10, 64)\<close>, without its error.\<close>

definition digit_value :: "char \<Rightarrow> int option" where
  "digit_value c = (if CHR ''0'' \<le> c \<and> c \<le> CHR ''9'' then Some (of_char c - 48) else None)"

fun parse_digits :: "int \<Rightarrow> string \<Rightarrow> int option" where
  "parse_digits n [] = Some n"
| "parse_digits n (c # s) = (case digit_value c of None \<Rightarrow> None | Some d \<Rightarrow> parse_digits (10 * n + d) s)"

definition ParseInt64 :: "string \<Rightarrow> int option" where
  "ParseInt64 s =
     (let (neg, ds) = (case s of c # t \<Rightarrow> if c = CHR ''-'' then (True, t)
                                           else if c = CHR ''+'' then (False, t) else (False, s)
                               | [] \<Rightarrow> (False, []))
      in if ds = [] then None
         else (case parse_digits 0 ds of
                 None \<Rightarrow> None
               | Some n \<Rightarrow> let v = (if neg then - n else n) in
                   if - (2 ^ 63) \<le> v \<and> v < 2 ^ 63 then Some v else None))"

fun hasValue :: "string list \<Rightarrow> string \<Rightarrow> bool" where
  "hasValue [] v = False"
| "hasValue (x # xs) v = (if x = v then True else hasValue xs v)"

definition label_Has :: "gomap \<Rightarrow> string \<Rightarrow> bool" where
  "label_Has ls k \<longleftrightarrow> gomap_lookup ls k \<noteq> None"

definition requirement_Matches :: "label_requirement \<Rightarrow> gomap \<Rightarrow> bool" where
  "requirement_Matches r ls =
     (let k = rq_key r; vals = rq_strValues r in
      case rq_operator r of
        OpIn \<Rightarrow> label_Has ls k \<and> hasValue vals (gomap_index ls k)
      | OpEquals \<Rightarrow> label_Has ls k \<and> hasValue vals (gomap_index ls k)
      | OpDoubleEquals \<Rightarrow> label_Has ls k \<and> hasValue vals (gomap_index ls k)
      | OpNotIn \<Rightarrow> (if \<not> label_Has ls k then True else \<not> hasValue vals (gomap_index ls k))
      | OpNotEquals \<Rightarrow> (if \<not> label_Has ls k then True else \<not> hasValue vals (gomap_index ls k))
      | OpExists \<Rightarrow> label_Has ls k
      | OpDoesNotExist \<Rightarrow> \<not> label_Has ls k
      | OpUnknown s \<Rightarrow> False
      | compare \<Rightarrow>
          if \<not> label_Has ls k then False
          else (case (ParseInt64 (gomap_index ls k), vals) of
                  (Some lsValue, [val]) \<Rightarrow>
                    (case ParseInt64 val of
                       None \<Rightarrow> False
                     | Some rValue \<Rightarrow> (compare = OpGreaterThan \<and> lsValue > rValue) \<or>
                                     (compare = OpLessThan \<and> lsValue < rValue))
                | _ \<Rightarrow> False))"

fun requirements_Match :: "label_requirement list \<Rightarrow> gomap \<Rightarrow> bool" where
  "requirements_Match [] ls = True"
| "requirements_Match (r # rs) ls = (if \<not> requirement_Matches r ls then False else requirements_Match rs ls)"

fun label_Matches :: "label_selector \<Rightarrow> gomap \<Rightarrow> bool" where
  "label_Matches (InternalSelector rs) ls = requirements_Match rs ls"
| "label_Matches NothingSelector ls = False"

fun label_Empty :: "label_selector \<Rightarrow> bool" where
  "label_Empty (InternalSelector rs) = (length rs = 0)"
| "label_Empty NothingSelector = False"

definition label_Everything :: label_selector where
  "label_Everything = InternalSelector []"

section \<open>Field selectors\<close>

datatype field_selector = HasTerm string string | NotHasTerm string string | AndTerm "field_selector list"

fun field_Matches :: "field_selector \<Rightarrow> strmap \<Rightarrow> bool" where
  "field_Matches (HasTerm fld v) ls = (gomap_index (Some ls) fld = v)"
| "field_Matches (NotHasTerm fld v) ls = (gomap_index (Some ls) fld \<noteq> v)"
| "field_Matches (AndTerm []) ls = True"
| "field_Matches (AndTerm (q # t)) ls = (if \<not> field_Matches q ls then False else field_Matches (AndTerm t) ls)"

fun field_Empty :: "field_selector \<Rightarrow> bool" where
  "field_Empty (HasTerm fld v) = False"
| "field_Empty (NotHasTerm fld v) = False"
| "field_Empty (AndTerm []) = True"
| "field_Empty (AndTerm (q # t)) = (if \<not> field_Empty q then False else field_Empty (AndTerm t))"

definition field_Everything :: field_selector where
  "field_Everything = AndTerm []"

section \<open>The selection predicate\<close>

text \<open>
  The objects the storage code tells apart by their Go type: the internal and the versioned project,
  the project request, the namespace, and any other object.
\<close>

datatype runtime_object = InternalProject project | V1Project project | RequestObject project_request
  | NamespaceObject namespace | OtherObject string

record selection_predicate =
  sp_Label :: label_selector
  sp_Field :: "field_selector option"
  sp_IncludeUninitialized :: bool
  sp_GetAttrs :: "runtime_object \<Rightarrow> go_error + gomap \<times> strmap \<times> bool"

definition predicate_Empty :: "selection_predicate \<Rightarrow> bool outcome" where
  "predicate_Empty sp =
     (if \<not> label_Empty (sp_Label sp) then Return False
      else case sp_Field sp of
        None \<Rightarrow> Panic ''invalid memory address or nil pointer dereference''
      | Some fld \<Rightarrow> Return (field_Empty fld \<and> sp_IncludeUninitialized sp))"

definition Matches :: "selection_predicate \<Rightarrow> runtime_object \<Rightarrow> (go_error + bool) outcome" where
  "Matches sp obj = bind_outcome (predicate_Empty sp) (\<lambda>e.
     if e then Return (Inr True)
     else case sp_GetAttrs sp obj of
       Inl err \<Rightarrow> Return (Inl err)
     | Inr (ls, fs, uninitialized) \<Rightarrow>
         if \<not> sp_IncludeUninitialized sp \<and> uninitialized then Return (Inr False)
         else Return (Inr (label_Matches (sp_Label sp) ls \<and>
                (case sp_Field sp of None \<Rightarrow> True | Some fld \<Rightarrow> field_Matches fld fs))))"

section \<open>Lemmas\<close>

lemma hasValue_iff [go_simps]: "hasValue xs v \<longleftrightarrow> v \<in> set xs"
  by (induction xs) auto

lemma requirements_Match_iff: "requirements_Match rs ls \<longleftrightarrow> (\<forall>r \<in> set rs. requirement_Matches r ls)"
  by (induction rs) auto

lemma field_Matches_And: "field_Matches (AndTerm t) fs \<longleftrightarrow> (\<forall>q \<in> set t. field_Matches q fs)"
  by (induction t) auto

lemma field_Empty_And: "field_Empty (AndTerm t) \<longleftrightarrow> (\<forall>q \<in> set t. field_Empty q)"
  by (induction t) auto

text \<open>Equality, inequality and membership requirements by the label they read.\<close>

lemma requirement_Matches_Equals:
  "requirement_Matches \<lparr>rq_key = k, rq_operator = OpEquals, rq_strValues = [v]\<rparr> ls \<longleftrightarrow> gomap_lookup ls k = Some v"
  by (auto simp: requirement_Matches_def label_Has_def gomap_index_def)

text \<open>
  A selector that says it does not restrict the selection matches everything: the emptiness test of the
  predicate only skips work.
\<close>

lemma label_Empty_Matches: "label_Empty sel \<Longrightarrow> label_Matches sel ls"
  by (cases sel) auto

lemma field_Empty_Matches: "field_Empty sel \<Longrightarrow> field_Matches sel fs"
  by (induction sel fs rule: field_Matches.induct) (auto split: if_splits)

lemma Everything_Matches [simp]: "label_Matches label_Everything ls" "field_Matches field_Everything fs"
  by (simp_all add: label_Everything_def field_Everything_def)

text \<open>What a predicate decides about an object whose attributes can be read.\<close>

lemma Matches_attrs:
  assumes "sp_GetAttrs sp obj = Inr (ls, fs, uninitialized)" and "sp_Field sp = Some fld"
  shows "Matches sp obj = Return (Inr ((sp_IncludeUninitialized sp \<or> \<not> uninitialized) \<and>
     label_Matches (sp_Label sp) ls \<and> field_Matches fld fs))"
  using assms label_Empty_Matches [of "sp_Label sp" ls] field_Empty_Matches [of fld fs]
  by (auto simp: Matches_def predicate_Empty_def)

end
