(* ===== verification/ProjectStorage.thy ===== *)
theory ProjectStorage
  imports CacheProgress Validation Selectors
begin

text \<open>
  \<^verbatim>\<open>pkg/project/registry/project\<close>: the storage behind the \<^verbatim>\<open>projects\<close> resource (\<^verbatim>\<open>storage.go\<close>) and its
  strategy (\<^verbatim>\<open>strategy.go\<close>). Lists and watches are served from the authorization cache; reads and writes
  of one project go to a client of the namespace resource of the remote API server, which is a
  parameter: its operations, over a state of an arbitrary type.
\<close>

section \<open>Request contexts and the namespace client\<close>

record request_context =
  ctx_User :: "user_info option"
  ctx_UID :: "string option"
  ctx_Namespace :: "string option"

record 's namespace_client =
  nc_Get :: "string \<Rightarrow> 's \<Rightarrow> (go_error + namespace) \<times> 's"
  nc_Create :: "namespace \<Rightarrow> 's \<Rightarrow> (go_error + namespace) \<times> 's"
  nc_Update :: "namespace \<Rightarrow> 's \<Rightarrow> (go_error + namespace) \<times> 's"
  nc_Delete :: "string \<Rightarrow> 's \<Rightarrow> go_error option \<times> 's"

text \<open>
  \<^verbatim>\<open>FillObjectMetaSystemFields\<close>: the current time and the UUID that would be drawn are arguments.
\<close>

record system_values =
  sys_Now :: go_time
  sys_NewUUID :: string

definition FillObjectMetaSystemFields :: "system_values \<Rightarrow> request_context \<Rightarrow> object_meta \<Rightarrow> object_meta" where
  "FillObjectMetaSystemFields env ctx meta =
     meta\<lparr>om_CreationTimestamp := sys_Now env,
          om_UID := (case ctx_UID ctx of None \<Rightarrow> sys_NewUUID env | Some uid \<Rightarrow> uid),
          om_SelfLink := ''''\<rparr>"

section \<open>The strategy\<close>

definition type_assertion_panic :: "'a outcome" where
  "type_assertion_panic = Panic ''interface conversion''"

definition strategy_PrepareForCreate :: "runtime_object \<Rightarrow> runtime_object" where
  "strategy_PrepareForCreate obj = obj"

text \<open>Both assertions ask for the versioned type.\<close>

definition strategy_PrepareForUpdate :: "runtime_object \<Rightarrow> runtime_object \<Rightarrow> runtime_object outcome" where
  "strategy_PrepareForUpdate obj old =
     (case obj of
        V1Project newProject \<Rightarrow>
          (case old of
             V1Project oldProject \<Rightarrow>
               Return (V1Project (newProject\<lparr>pr_Spec := (pr_Spec newProject)\<lparr>ps_Finalizers := ps_Finalizers (pr_Spec oldProject)\<rparr>,
                                             pr_Status := pr_Status oldProject\<rparr>))
           | _ \<Rightarrow> type_assertion_panic)
      | _ \<Rightarrow> type_assertion_panic)"

definition strategy_Validate :: "runtime_object \<Rightarrow> error_list outcome" where
  "strategy_Validate obj =
     (case obj of InternalProject p \<Rightarrow> Return (ValidateProject p) | _ \<Rightarrow> type_assertion_panic)"

definition strategy_ValidateUpdate :: "runtime_object \<Rightarrow> runtime_object \<Rightarrow> (error_list \<times> runtime_object \<times> runtime_object) outcome" where
  "strategy_ValidateUpdate obj old =
     (case obj of
        InternalProject newProject \<Rightarrow>
          (case old of
             InternalProject oldProject \<Rightarrow>
               Return (let (errs, n, ol) = ValidateProjectUpdate newProject oldProject
                       in (errs, InternalProject n, InternalProject ol))
           | _ \<Rightarrow> type_assertion_panic)
      | _ \<Rightarrow> type_assertion_panic)"

section \<open>Selecting namespaces\<close>

record list_options =
  lo_LabelSelector :: "label_selector option"
  lo_FieldSelector :: "field_selector option"
  lo_ResourceVersion :: string

definition ListOptionsToSelectors :: "list_options option \<Rightarrow> label_selector \<times> field_selector" where
  "ListOptionsToSelectors options =
     (let label = (case options of
            None \<Rightarrow> label_Everything
          | Some lo \<Rightarrow> (case lo_LabelSelector lo of None \<Rightarrow> label_Everything | Some s \<Rightarrow> s));
          fld = (case options of
            None \<Rightarrow> field_Everything
          | Some lo \<Rightarrow> (case lo_FieldSelector lo of None \<Rightarrow> field_Everything | Some s \<Rightarrow> s))
      in (label, fld))"

definition ObjectMetaFieldsSet :: "object_meta \<Rightarrow> bool \<Rightarrow> strmap" where
  "ObjectMetaFieldsSet meta hasNamespaceField =
     (if \<not> hasNamespaceField then [(''metadata.name'', om_Name meta)]
      else [(''metadata.name'', om_Name meta), (''metadata.namespace'', om_Namespace meta)])"

definition MergeFieldsSets :: "strmap \<Rightarrow> strmap \<Rightarrow> strmap" where
  "MergeFieldsSets source fragment = map_copy source fragment"

definition NamespaceToSelectableFields :: "namespace \<Rightarrow> strmap" where
  "NamespaceToSelectableFields n =
     MergeFieldsSets (ObjectMetaFieldsSet (ns_ObjectMeta n) False)
       [(''status.phase'', ns_Phase n), (''name'', ns_Name n)]"

definition GetAttrs :: "runtime_object \<Rightarrow> go_error + gomap \<times> strmap \<times> bool" where
  "GetAttrs obj =
     (case obj of
        NamespaceObject n \<Rightarrow> Inr (om_Labels (ns_ObjectMeta n), NamespaceToSelectableFields n,
                                om_Initializers (ns_ObjectMeta n) \<noteq> None)
      | _ \<Rightarrow> Inl (ErrorString ''not a namespace''))"

definition MatchNamespace :: "label_selector \<Rightarrow> field_selector \<Rightarrow> selection_predicate" where
  "MatchNamespace label fld =
     \<lparr>sp_Label = label, sp_Field = Some fld, sp_IncludeUninitialized = False, sp_GetAttrs = GetAttrs\<rparr>"

text \<open>
  The loop of \<^verbatim>\<open>filterList\<close> over the items of a namespace list; a decorator may change the item it is
  given.
\<close>

fun filter_loop :: "selection_predicate \<Rightarrow> (namespace \<Rightarrow> go_error + namespace) option \<Rightarrow> namespace list
    \<Rightarrow> namespace list \<Rightarrow> (go_error + namespace list) outcome" where
  "filter_loop m d [] filteredItems = Return (Inr filteredItems)"
| "filter_loop m d (obj # items) filteredItems =
     bind_outcome (Matches m (NamespaceObject obj)) (\<lambda>r.
       case r of
         Inl err \<Rightarrow> Return (Inl err)
       | Inr False \<Rightarrow> filter_loop m d items filteredItems
       | Inr True \<Rightarrow>
           (case d of
              None \<Rightarrow> filter_loop m d items (filteredItems @ [obj])
            | Some decorate \<Rightarrow>
                (case decorate obj of
                   Inl err \<Rightarrow> Return (Inl err)
                 | Inr obj' \<Rightarrow> filter_loop m d items (filteredItems @ [obj']))))"

definition filterList :: "namespace list \<Rightarrow> selection_predicate \<Rightarrow> (namespace \<Rightarrow> go_error + namespace) option
    \<Rightarrow> (go_error + namespace list) outcome" where
  "filterList items m d = filter_loop m d items []"

section \<open>The storage\<close>

definition no_user :: go_error where
  "no_user = Forbidden (SchemeResource ''project'') ''''
     (ErrorString ''unable to list projects without a user on the context'')"

text \<open>
  The storage lists through the interface \<^verbatim>\<open>Lister\<close>; the server gives it the authorization cache.
\<close>

definition rest_List :: "(user_info \<Rightarrow> go_error + namespace list) \<Rightarrow> request_context \<Rightarrow> list_options option
    \<Rightarrow> (go_error + project list) outcome" where
  "rest_List lister ctx options =
     (case ctx_User ctx of
        None \<Rightarrow> Return (Inl no_user)
      | Some user \<Rightarrow>
          (case lister user of
             Inl err \<Rightarrow> Return (Inl err)
           | Inr namespaceList \<Rightarrow>
               let (label, fld) = ListOptionsToSelectors options; m = MatchNamespace label fld in
               bind_outcome (filterList namespaceList m None) (\<lambda>r.
                 case r of
                   Inl err \<Rightarrow> Return (Inl err)
                 | Inr items \<Rightarrow> Return (Inr (ConvertNamespaceList items)))))"

definition projects_List :: "(string \<Rightarrow> go_error + namespace) \<Rightarrow> auth_cache \<Rightarrow> request_context \<Rightarrow> list_options option
    \<Rightarrow> (go_error + project list) outcome" where
  "projects_List nsGet ac = rest_List (cache_List nsGet ac)"

text \<open>
  A watch makes a watcher from the cache's present listing and then adds it to the cache under a new
  address \<open>i\<close>. The two steps are separate definitions: other goroutines may run between them.
\<close>

definition prepare_watch :: "(string \<Rightarrow> go_error + namespace) \<Rightarrow> auth_cache \<Rightarrow> user_info \<Rightarrow> list_options option
    \<Rightarrow> user_project_watcher outcome" where
  "prepare_watch nsGet ac userInfo options =
     (let includeAllExistingProjects = (case options of None \<Rightarrow> False | Some lo \<Rightarrow> lo_ResourceVersion lo = ''0'');
          allowedNamespaces = NewString [''*'']
      in NewUserProjectWatcher userInfo allowedNamespaces (cache_List nsGet ac userInfo) includeAllExistingProjects)"

definition register_watch :: "nat \<Rightarrow> user_project_watcher \<Rightarrow> auth_cache \<Rightarrow> auth_cache outcome" where
  "register_watch i w ac = AddWatcher i (ac\<lparr>ac_watcherObjects := (ac_watcherObjects ac)(i := w)\<rparr>)"

definition projects_Watch :: "(string \<Rightarrow> go_error + namespace) \<Rightarrow> request_context option \<Rightarrow> list_options option \<Rightarrow> nat
    \<Rightarrow> auth_cache \<Rightarrow> ((go_error + nat) \<times> auth_cache) outcome" where
  "projects_Watch nsGet ctx options i ac =
     (case ctx of
        None \<Rightarrow> Return (Inl (Errorf ''Context is nil'' [] []), ac)
      | Some ctx \<Rightarrow>
          (case ctx_User ctx of
             None \<Rightarrow> Return (Inl (Errorf ''no user'' [] []), ac)
           | Some userInfo \<Rightarrow>
               bind_outcome (prepare_watch nsGet ac userInfo options) (\<lambda>watcher.
                 bind_outcome (register_watch i watcher ac) (\<lambda>ac'. Return (Inr i, ac')))))"

definition projects_Get :: "'s namespace_client \<Rightarrow> string \<Rightarrow> 's \<Rightarrow> (go_error + project) \<times> 's" where
  "projects_Get client name s =
     (case nc_Get client name s of
        (Inl err, s') \<Rightarrow> (Inl err, s')
      | (Inr n, s') \<Rightarrow> (Inr (ConvertNamespace n), s'))"

text \<open>
  The hooks of create and update are admission control; they may not change the object
  (\<^verbatim>\<open>rest.ValidateObjectFunc\<close>). \<open>updatedObject\<close> is the request's \<^verbatim>\<open>objInfo.UpdatedObject\<close>.
\<close>

definition projects_Create :: "system_values \<Rightarrow> 's namespace_client \<Rightarrow> request_context \<Rightarrow> runtime_object
    \<Rightarrow> (runtime_object \<Rightarrow> go_error option) \<Rightarrow> 's \<Rightarrow> ((go_error + project) \<times> 's) outcome" where
  "projects_Create env client ctx obj createValidation s =
     (case obj of
        InternalProject project \<Rightarrow>
          (let project = project\<lparr>pr_ObjectMeta := FillObjectMetaSystemFields env ctx (pr_ObjectMeta project)\<rparr>;
               obj = strategy_PrepareForCreate (InternalProject project)
           in bind_outcome (strategy_Validate obj) (\<lambda>errs.
                if length errs > 0
                then Return (Inl (Invalid (SchemeKind ''Project'') (om_Name (pr_ObjectMeta project)) errs), s)
                else case createValidation obj of
                  Some err \<Rightarrow> Return (Inl err, s)
                | None \<Rightarrow>
                    (case nc_Create client (fst (ConvertProject project)) s of
                       (Inl err, s') \<Rightarrow> Return (Inl err, s')
                     | (Inr n, s') \<Rightarrow> Return (Inr (ConvertNamespace n), s'))))
      | _ \<Rightarrow> Return (Inl (Errorf ''not a project: %#v'' [] []), s))"

definition projects_Update :: "'s namespace_client \<Rightarrow> string \<Rightarrow> (runtime_object \<Rightarrow> go_error + runtime_object)
    \<Rightarrow> (runtime_object \<Rightarrow> runtime_object \<Rightarrow> go_error option) \<Rightarrow> 's \<Rightarrow> ((go_error + project) \<times> 's) outcome" where
  "projects_Update client name updatedObject updateValidation s =
     (case projects_Get client name s of
        (Inl err, s') \<Rightarrow> Return (Inl err, s')
      | (Inr oldProject, s') \<Rightarrow>
          let oldObj = InternalProject oldProject in
          (case updatedObject oldObj of
             Inl err \<Rightarrow> Return (Inl err, s')
           | Inr (InternalProject project) \<Rightarrow>
               bind_outcome (strategy_PrepareForUpdate (InternalProject project) oldObj) (\<lambda>obj.
                 bind_outcome (strategy_ValidateUpdate obj oldObj) (\<lambda>(errs, obj, oldObj).
                   if length errs > 0
                   then Return (Inl (Invalid (SchemeKind ''Project'') (om_Name (pr_ObjectMeta project)) errs), s')
                   else case updateValidation obj oldObj of
                     Some err \<Rightarrow> Return (Inl err, s')
                   | None \<Rightarrow>
                       (case obj of
                          InternalProject project \<Rightarrow>
                            (case nc_Update client (fst (ConvertProject project)) s' of
                               (Inl err, s'') \<Rightarrow> Return (Inl err, s'')
                             | (Inr n, s'') \<Rightarrow> Return (Inr (ConvertNamespace n), s''))
                        | _ \<Rightarrow> type_assertion_panic)))
           | Inr obj \<Rightarrow> Return (Inl (Errorf ''not a project: %#v'' [] []), s')))"

definition projects_Delete :: "'s namespace_client \<Rightarrow> string \<Rightarrow> 's \<Rightarrow> (string \<times> go_error option) \<times> 's" where
  "projects_Delete client name s = (let (err, s') = nc_Delete client name s in ((''Success'', err), s'))"

section \<open>Lemmas\<close>

lemma selectable_fields:
  "map_of (NamespaceToSelectableFields n) =
     [''metadata.name'' \<mapsto> ns_Name n, ''status.phase'' \<mapsto> ns_Phase n, ''name'' \<mapsto> ns_Name n]"
  by (simp add: NamespaceToSelectableFields_def MergeFieldsSets_def ObjectMetaFieldsSet_def
      update_conv' fun_upd_twist)

text \<open>What the selectors of a list request accept.\<close>

definition selected :: "list_options option \<Rightarrow> namespace \<Rightarrow> bool" where
  "selected options n \<longleftrightarrow> om_Initializers (ns_ObjectMeta n) = None \<and>
     label_Matches (fst (ListOptionsToSelectors options)) (om_Labels (ns_ObjectMeta n)) \<and>
     field_Matches (snd (ListOptionsToSelectors options)) (NamespaceToSelectableFields n)"

lemma Matches_namespace:
  "Matches (MatchNamespace (fst (ListOptionsToSelectors options)) (snd (ListOptionsToSelectors options)))
     (NamespaceObject n) = Return (Inr (selected options n))"
  by (subst Matches_attrs [where ls = "om_Labels (ns_ObjectMeta n)" and fs = "NamespaceToSelectableFields n"
        and uninitialized = "om_Initializers (ns_ObjectMeta n) \<noteq> None" and fld = "snd (ListOptionsToSelectors options)"])
    (auto simp: MatchNamespace_def GetAttrs_def selected_def)

lemma filter_loop_selected:
  assumes "\<And>n. Matches m (NamespaceObject n) = Return (Inr (P n))"
  shows "filter_loop m None items acc = Return (Inr (acc @ filter P items))"
  by (induction items arbitrary: acc) (simp_all add: assms split: bool.split)

lemma rest_List_result:
  assumes "ctx_User ctx = Some u" and "lister u = Inr listed"
  shows "rest_List lister ctx options = Return (Inr (map ConvertNamespace (filter (selected options) listed)))"
proof -
  have "filterList listed (MatchNamespace (fst (ListOptionsToSelectors options)) (snd (ListOptionsToSelectors options))) None
      = Return (Inr (filter (selected options) listed))"
    unfolding filterList_def using filter_loop_selected [OF Matches_namespace] by simp
  then show ?thesis
    using assms by (simp add: rest_List_def ConvertNamespaceList_map case_prod_beta Let_def)
qed

text \<open>
  The versioned-type assertions of the strategy are never met by the objects the storage passes on.
\<close>

lemma PrepareForUpdate_panics: "strategy_PrepareForUpdate (InternalProject p) old = type_assertion_panic"
  by (simp add: strategy_PrepareForUpdate_def)

lemma map_of_rev_find:
  "distinct (map ns_Name ns) \<Longrightarrow>
   map_of (rev (map (\<lambda>n. (ns_Name n, ns_ResourceVersion n)) ns)) k =
     map_option ns_ResourceVersion (find (\<lambda>m. ns_Name m = k) ns)"
proof (induction ns)
  case (Cons n ns)
  have "find (\<lambda>m. ns_Name m = ns_Name n) ns = None"
    using Cons.prems by (auto simp: find_None_iff image_iff)
  with Cons show ?case by (auto simp: map_add_def split: option.splits)
qed simp

section \<open>The lister interface\<close>

text \<open>The version of the namespace of a name, when it is there and may be seen.\<close>

definition version_seen :: "(string \<Rightarrow> go_error + namespace) \<Rightarrow> (string \<Rightarrow> bool) \<Rightarrow> string \<Rightarrow> string option" where
  "version_seen found sees ns = (case found ns of
     Inl e \<Rightarrow> None | Inr n \<Rightarrow> if sees ns then Some (ns_ResourceVersion n) else None)"

text \<open>
  \<^verbatim>\<open>Lister\<close>, as the storage and the watchers use it, over the states of whatever lists: a valid state lists
  a user exactly the namespaces that are there and that the user may see, each once, without an error.
\<close>

locale project_lister =
  fixes lister :: "'c \<Rightarrow> user_info \<Rightarrow> go_error + namespace list"
    and valid :: "'c \<Rightarrow> bool"
    and found :: "'c \<Rightarrow> string \<Rightarrow> go_error + namespace"
    and sees :: "'c \<Rightarrow> user_info \<Rightarrow> string \<Rightarrow> bool"
  assumes lists: "valid c \<Longrightarrow> \<exists>listed. lister c u = Inr listed \<and> distinct (map ns_Name listed) \<and>
      (\<forall>n. n \<in> set listed \<longleftrightarrow> found c (ns_Name n) = Inr n \<and> sees c u (ns_Name n))"
    and found_name: "found c ns = Inr n \<Longrightarrow> ns_Name n = ns"
begin

lemma listed_versions:
  assumes "distinct (map ns_Name listed)"
    and "\<forall>n. n \<in> set listed \<longleftrightarrow> found c (ns_Name n) = Inr n \<and> sees c u (ns_Name n)"
  shows "map_option ns_ResourceVersion (find (\<lambda>n. ns_Name n = ns) listed) = version_seen (found c) (sees c u) ns"
proof (cases "find (\<lambda>n. ns_Name n = ns) listed")
  case None
  then have "n \<notin> set listed" if "ns_Name n = ns" for n using that by (auto simp: find_None_iff)
  then have "sees c u ns = False" if "found c ns = Inr n" for n
    using that found_name [OF that] assms(2) by blast
  with None show ?thesis by (simp add: version_seen_def split: sum.split)
next
  case (Some n)
  then have "n \<in> set listed" "ns_Name n = ns" by (auto simp: find_Some_iff)
  with assms(2) have "found c ns = Inr n" "sees c u ns" by auto
  with Some show ?thesis by (simp add: version_seen_def)
qed

text \<open>What a list request answers, and what a new watcher knows.\<close>

lemma list_request:
  assumes "valid c" and "ctx_User ctx = Some u"
  shows "\<exists>ns. rest_List (lister c) ctx options = Return (Inr (map ConvertNamespace ns)) \<and> distinct (map ns_Name ns) \<and>
    (\<forall>n. n \<in> set ns \<longleftrightarrow> found c (ns_Name n) = Inr n \<and> sees c u (ns_Name n) \<and> selected options n)"
proof -
  obtain listed where l: "lister c u = Inr listed" "distinct (map ns_Name listed)"
    "\<forall>n. n \<in> set listed \<longleftrightarrow> found c (ns_Name n) = Inr n \<and> sees c u (ns_Name n)"
    using lists [OF assms(1), of u] by blast
  have "distinct (map ns_Name (filter (selected options) listed))"
    using l(2) by (rule distinct_map_filter)
  with l rest_List_result [of ctx u "lister c" listed options] assms(2) show ?thesis
    by (intro exI [of _ "filter (selected options) listed"]) auto
qed

lemma new_watcher:
  assumes "valid c"
  shows "\<exists>w listed. lister c u = Inr listed \<and> NewUserProjectWatcher u names (lister c u) existing = Return w \<and>
    w = \<lparr>w_user = u, w_visibleNamespaces = names, w_cacheIncoming = [], w_cacheError = [],
      w_outgoingClosed = False, w_userStop = False, w_initialProjects = (if existing then listed else []),
      w_knownProjects = known_loop listed []\<rparr> \<and>
    (\<forall>ns. map_of (w_knownProjects w) ns = map_option ns_ResourceVersion (find (\<lambda>n. ns_Name n = ns) listed)) \<and>
    (\<forall>ns. map_of (w_knownProjects w) ns = version_seen (found c) (sees c u) ns)"
proof -
  obtain listed where l: "lister c u = Inr listed" "distinct (map ns_Name listed)"
    "\<forall>n. n \<in> set listed \<longleftrightarrow> found c (ns_Name n) = Inr n \<and> sees c u (ns_Name n)"
    using lists [OF assms, of u] by blast
  have "map_of (known_loop listed []) ns = map_option ns_ResourceVersion (find (\<lambda>n. ns_Name n = ns) listed)" for ns
    by (simp add: known_loop_map_of map_of_rev_find [OF l(2)])
  with l listed_versions [OF l(2,3)] show ?thesis
    by (simp add: NewUserProjectWatcher_def)
qed

end

text \<open>The authorization cache is such a lister, with the namespaces the informers show.\<close>

interpretation cache_lister: project_lister "\<lambda>(items, ac). cache_List (namespace_Get items) ac"
    "\<lambda>(items, ac). index_inv (ac_stores ac)" "\<lambda>(items, ac). namespace_Get items" "\<lambda>(items, ac). may_see (ac_stores ac)"
proof (unfold_locales, goal_cases)
  case (1 c u)
  then show ?case using cache_List_result by (cases c) simp
next
  case (2 c ns n)
  then show ?case using namespace_Get_Inr by (cases c) simp
qed

lemma prepare_watch_result:
  assumes "index_inv (ac_stores ac)"
  obtains listed w where "cache_List (namespace_Get items) ac u = Inr listed"
    "prepare_watch (namespace_Get items) ac u options = Return w"
    "w = \<lparr>w_user = u, w_visibleNamespaces = NewString [''*''], w_cacheIncoming = [], w_cacheError = [],
      w_outgoingClosed = False, w_userStop = False,
      w_initialProjects = (if map_option lo_ResourceVersion options = Some ''0'' then listed else []),
      w_knownProjects = known_loop listed []\<rparr>"
    "\<And>ns. map_of (w_knownProjects w) ns = map_option ns_ResourceVersion (find (\<lambda>n. ns_Name n = ns) listed)"
    "\<And>ns. map_of (w_knownProjects w) ns = version_seen (namespace_Get items) (may_see (ac_stores ac) u) ns"
proof -
  have e: "(case options of None \<Rightarrow> False | Some lo \<Rightarrow> lo_ResourceVersion lo = ''0'') =
      (map_option lo_ResourceVersion options = Some ''0'')"
    by (cases options) simp_all
  from cache_lister.new_watcher [of "(items, ac)" u "NewString [''*'']" "map_option lo_ResourceVersion options = Some ''0''"] assms
  obtain w listed where "cache_List (namespace_Get items) ac u = Inr listed"
    "NewUserProjectWatcher u (NewString [''*'']) (cache_List (namespace_Get items) ac u)
       (map_option lo_ResourceVersion options = Some ''0'') = Return w"
    "w = \<lparr>w_user = u, w_visibleNamespaces = NewString [''*''], w_cacheIncoming = [], w_cacheError = [],
      w_outgoingClosed = False, w_userStop = False,
      w_initialProjects = (if map_option lo_ResourceVersion options = Some ''0'' then listed else []),
      w_knownProjects = known_loop listed []\<rparr>"
    "\<forall>ns. map_of (w_knownProjects w) ns = map_option ns_ResourceVersion (find (\<lambda>n. ns_Name n = ns) listed)"
    "\<forall>ns. map_of (w_knownProjects w) ns = version_seen (namespace_Get items) (may_see (ac_stores ac) u) ns"
    unfolding prod.case by blast
  then show ?thesis
    using e by (intro that [of listed w]) (simp_all only: prepare_watch_def Let_def)
qed

section \<open>Properties of lists and watches\<close>

text \<open>
  C10: Listing projects through the storage, in any state the cache can reach, answers exactly the
  namespaces that the lister knows, that the user may see by the namespace's last review, that the
  label and field selectors accept and that have no initializers, each once and as projects.
\<close>

theorem projects_List_exact:
  assumes "cache_reachable ac" and "ctx_User ctx = Some u"
  shows "\<exists>ns. projects_List (namespace_Get items) ac ctx options = Return (Inr (map ConvertNamespace ns)) \<and>
    distinct (map ns_Name ns) \<and>
    (\<forall>n. n \<in> set ns \<longleftrightarrow> namespace_Get items (ns_Name n) = Inr n \<and> may_see (ac_stores ac) u (ns_Name n) \<and>
       om_Initializers (ns_ObjectMeta n) = None \<and>
       label_Matches (fst (ListOptionsToSelectors options)) (om_Labels (ns_ObjectMeta n)) \<and>
       field_Matches (snd (ListOptionsToSelectors options)) (NamespaceToSelectableFields n))"
proof -
  have "index_inv (ac_stores ac)"
    using reachable_index_inv [OF assms(1)] by blast
  with cache_lister.list_request [of "(items, ac)" ctx u options] assms(2) show ?thesis
    by (simp add: projects_List_def selected_def)
qed

definition sample_context :: "request_context" where
  "sample_context = \<lparr>ctx_User = Some \<lparr>ui_Name = ''ann'', ui_Groups = []\<rparr>, ctx_UID = Some ''u9'', ctx_Namespace = None\<rparr>"

abbreviation sample_cache :: auth_cache where
  "sample_cache \<equiv> run_sync (sample_view ''9'' [sample_binding]) new_cache"

lemma sample_cache_reachable: "cache_reachable sample_cache"
  by (rule cache_reachable.sync [OF cache_reachable.new run_sync_Return]) simp_all

theorem projects_List_exact_witness:
  "projects_List (namespace_Get [named_namespace ''p'' ''7'']) sample_cache sample_context None \<noteq> Return (Inl no_user)"
  using projects_List_exact [OF sample_cache_reachable, of sample_context "\<lparr>ui_Name = ''ann'', ui_Groups = []\<rparr>"
      "[named_namespace ''p'' ''7'']" None] by (auto simp: sample_context_def)

text \<open>
  C18: Watching projects never panics or blocks in a state the cache can reach: it adds one watcher, whose
  channels are empty, that knows the version of exactly the namespaces listed to the user at that moment
  and that will first send them all if the request's resource version is \<^verbatim>\<open>0\<close>.
\<close>

theorem projects_Watch_registers:
  assumes "cache_reachable ac" and "ctx_User ctx = Some u"
  shows "\<exists>listed ac'. cache_List (namespace_Get items) ac u = Inr listed \<and>
    projects_Watch (namespace_Get items) (Some ctx) options i ac = Return (Inr i, ac') \<and>
    ac_watchers ac' = ac_watchers ac @ [i] \<and> ac_stores ac' = ac_stores ac \<and> cache_reachable ac' \<and>
    (let w = ac_watcherObjects ac' i in
       w_user w = u \<and> w_cacheIncoming w = [] \<and> w_cacheError w = [] \<and> \<not> w_userStop w \<and>
       w_initialProjects w = (if map_option lo_ResourceVersion options = Some ''0'' then listed else []) \<and>
       (\<forall>n. map_of (w_knownProjects w) n = map_option ns_ResourceVersion (find (\<lambda>m. ns_Name m = n) listed)))"
proof -
  have inv: "index_inv (ac_stores ac)" and lock: "\<not> watcherLock ac"
    using reachable_index_inv [OF assms(1)] by blast+
  obtain listed w where l: "cache_List (namespace_Get items) ac u = Inr listed"
    and p: "prepare_watch (namespace_Get items) ac u options = Return w"
    and w: "w_user w = u" "w_cacheIncoming w = []" "w_cacheError w = []" "\<not> w_userStop w"
      "w_initialProjects w = (if map_option lo_ResourceVersion options = Some ''0'' then listed else [])"
    and k: "\<And>n. map_of (w_knownProjects w) n = map_option ns_ResourceVersion (find (\<lambda>m. ns_Name m = n) listed)"
    by (rule prepare_watch_result [OF inv, of items u options]) simp
  let ?o = "(ac_watcherObjects ac)(i := w)"
  let ?ac' = "ac\<lparr>ac_watcherObjects := ?o, ac_watchers := ac_watchers ac @ [i]\<rparr>"
  have r: "register_watch i w ac = Return ?ac'"
    using lock by (simp add: register_watch_def AddWatcher_def)
  have "cache_reachable ?ac'"
    using cache_reachable.add [OF cache_reachable.watchers [OF assms(1), of ?o], of i] lock
    by (simp add: AddWatcher_def)
  moreover have "projects_Watch (namespace_Get items) (Some ctx) options i ac = Return (Inr i, ?ac')"
    by (simp add: projects_Watch_def assms(2) p r)
  ultimately show ?thesis
    using l k w by (intro exI [of _ listed] exI [of _ ?ac']) simp
qed

theorem projects_Watch_registers_witness:
  "\<exists>ac'. projects_Watch (namespace_Get [named_namespace ''p'' ''7'']) (Some sample_context) None 3 sample_cache
     = Return (Inr 3, ac') \<and> last (ac_watchers ac') = 3"
  using projects_Watch_registers [OF sample_cache_reachable, of sample_context "\<lparr>ui_Name = ''ann'', ui_Groups = []\<rparr>"
      "[named_namespace ''p'' ''7'']" None 3] by (auto simp: sample_context_def)

text \<open>
  C40: Between the listing a watcher is made from and its registration another goroutine may synchronize
  the cache. What that synchronization changed is never sent to the watcher: it does not know it from
  its listing, it was not registered for the notification, and further synchronizations do nothing as
  long as the resource versions stay as they are.
\<close>

theorem watch_gap:
  assumes "cache_reachable ac" and "prepare_watch (namespace_Get items) ac u options = Return w"
    and "\<not> skips v ac" and "synchronize v ac = Return ac1" and "register_watch i w ac1 = Return ac2"
  shows "synchronize v ac2 = Return ac2 \<and> i \<in> set (ac_watchers ac2) \<and>
    w_cacheIncoming (ac_watcherObjects ac2 i) = [] \<and>
    (\<forall>ns. map_of (w_knownProjects (ac_watcherObjects ac2 i)) ns \<noteq> None \<longleftrightarrow>
       may_see (ac_stores ac) u ns \<and> (\<exists>n. namespace_Get items ns = Inr n)) \<and>
    (\<forall>ns. may_see (ac_stores ac2) u ns \<longleftrightarrow> may_see (ac_stores ac1) u ns)"
proof -
  have inv: "index_inv (ac_stores ac)"
    using reachable_index_inv [OF assms(1)] by blast
  obtain w' where p: "prepare_watch (namespace_Get items) ac u options = Return w'" and c: "w_cacheIncoming w' = []"
    and k: "\<And>ns. map_of (w_knownProjects w') ns = version_seen (namespace_Get items) (may_see (ac_stores ac) u) ns"
    by (rule prepare_watch_result [OF inv, of items u options]) simp
  have w: "w_cacheIncoming w = []"
    using assms(2) p c by simp
  have "w' = w" using assms(2) p by simp
  with k have known: "map_of (w_knownProjects w) ns \<noteq> None \<longleftrightarrow>
      may_see (ac_stores ac) u ns \<and> (\<exists>n. namespace_Get items ns = Inr n)" for ns
    by (auto simp: version_seen_def split: sum.split)
  have "lastState ac1 = Join (current_versions v) '',''"
    using synchronize_state [OF inv assms(3,4)] by blast
  moreover have ac2: "ac2 = ac1\<lparr>ac_watcherObjects := (ac_watcherObjects ac1)(i := w), ac_watchers := ac_watchers ac1 @ [i]\<rparr>"
    using assms(5) by (auto simp: register_watch_def AddWatcher_def split: if_splits)
  ultimately have "skips v ac2"
    by (simp add: skips_def)
  with ac2 w known show ?thesis by (simp add: synchronize_skips)
qed

theorem watch_gap_witness:
  "\<exists>w ac2. prepare_watch (namespace_Get [named_namespace ''p'' ''7'']) new_cache \<lparr>ui_Name = ''ann'', ui_Groups = []\<rparr> None = Return w \<and>
     register_watch 0 w sample_cache = Return ac2 \<and> may_see (ac_stores ac2) \<lparr>ui_Name = ''ann'', ui_Groups = []\<rparr> ''p'' \<and>
     map_of (w_knownProjects (ac_watcherObjects ac2 0)) ''p'' = None \<and>
     synchronize (sample_view ''9'' [sample_binding]) ac2 = Return ac2"
proof -
  let ?u = "\<lparr>ui_Name = ''ann'', ui_Groups = []\<rparr>" and ?v = "sample_view ''9'' [sample_binding]"
    and ?g = "namespace_Get [named_namespace ''p'' ''7'']"
  have "cache_List ?g new_cache ?u = Inr []" by code_simp
  then obtain w where w: "prepare_watch ?g new_cache ?u None = Return w"
    by (simp add: prepare_watch_def NewUserProjectWatcher_def)
  have "\<not> watcherLock sample_cache"
    using reachable_index_inv [OF sample_cache_reachable] by blast
  then obtain ac2 where r: "register_watch 0 w sample_cache = Return ac2"
    by (auto simp: register_watch_def AddWatcher_def)
  have n: "\<not> may_see (ac_stores new_cache) ?u ''p''" by code_simp
  have y: "may_see (ac_stores sample_cache) ?u ''p''" by code_simp
  show ?thesis
    using watch_gap [OF cache_reachable.new w not_skips_new run_sync_Return r] w r n y by auto
qed

section \<open>Properties of writes\<close>


lemma ValidateProject_accepts:
  assumes "ValidateProject p = []"
  shows "2 \<le> length (om_Name (pr_ObjectMeta p)) \<and> IsDNS1123Label (om_Name (pr_ObjectMeta p)) = [] \<and>
    om_Namespace (pr_ObjectMeta p) = '''' \<and>
    set (gomap_index (om_Annotations (pr_ObjectMeta p)) ProjectDisplayName) \<inter> {CHR 0x0A, CHR 0x09} = {} \<and>
    ValidateLabels (om_Labels (pr_ObjectMeta p)) ''metadata.labels'' = []"
proof -
  have "ValidateProjectName (om_Name (pr_ObjectMeta p)) False = []" "om_Namespace (pr_ObjectMeta p) = ''''"
    "ValidateLabels (om_Labels (pr_ObjectMeta p)) ''metadata.labels'' = []"
    using assms by (auto simp: ValidateProject_def ValidateObjectMeta_def Child_def split: if_splits)
  moreover have "validateNoNewLineOrTab (gomap_index (om_Annotations (pr_ObjectMeta p)) ProjectDisplayName)"
    using assms by (auto simp: ValidateProject_def split: if_splits)
  ultimately show ?thesis
    by (auto simp: project_name_valid validateNoNewLineOrTab_def go_simps)
qed

lemma ConvertProject_fields:
  "ns_Name (fst (ConvertProject p)) = om_Name (pr_ObjectMeta p)"
  "ns_ObjectMeta (fst (ConvertProject p)) = (pr_ObjectMeta p)\<lparr>om_Annotations := om_Annotations (ns_ObjectMeta (fst (ConvertProject p)))\<rparr>"
  "ns_Finalizers (fst (ConvertProject p)) = ps_Finalizers (pr_Spec p)"
  "ns_Phase (fst (ConvertProject p)) = pst_Phase (pr_Status p)"
  "gomap_index (om_Annotations (ns_ObjectMeta (fst (ConvertProject p)))) k = gomap_index (om_Annotations (pr_ObjectMeta p)) k"
  by (simp_all add: ConvertProject_def Let_def gomap_index_update split: option.split)
    (auto simp: gomap_index_def update_conv')

lemma projects_Create_writes:
  assumes "projects_Create env client ctx obj admit s = Return (r, s')" and "s' \<noteq> s"
  obtains p q where "obj = InternalProject p"
    "q = p\<lparr>pr_ObjectMeta := FillObjectMetaSystemFields env ctx (pr_ObjectMeta p)\<rparr>"
    "ValidateProject q = []" "admit (InternalProject q) = None"
    "s' = snd (nc_Create client (fst (ConvertProject q)) s)"
    "r = map_sum id ConvertNamespace (fst (nc_Create client (fst (ConvertProject q)) s))"
proof (cases obj)
  case (InternalProject p)
  let ?q = "p\<lparr>pr_ObjectMeta := FillObjectMetaSystemFields env ctx (pr_ObjectMeta p)\<rparr>"
  show ?thesis
    using assms InternalProject
    by (intro that [of p ?q])
      (auto simp: projects_Create_def strategy_PrepareForCreate_def strategy_Validate_def Let_def
        split: if_splits option.splits prod.splits sum.splits)
qed (use assms in \<open>auto simp: projects_Create_def\<close>)


text \<open>A sample client that keeps the namespaces it creates in a list.\<close>

definition sample_client :: "namespace list namespace_client" where
  "sample_client = \<lparr>nc_Get = (\<lambda>name s. (namespace_Get s name, s)), nc_Create = (\<lambda>n s. (Inr n, n # s)),
     nc_Update = (\<lambda>n s. (Inr n, s)), nc_Delete = (\<lambda>name s. (None, filter (\<lambda>n. ns_Name n \<noteq> name) s))\<rparr>"

definition sample_env :: system_values where
  "sample_env = \<lparr>sys_Now = 42, sys_NewUUID = ''fresh''\<rparr>"

definition sample_new_project :: project where
  "sample_new_project = \<lparr>pr_ObjectMeta = empty_meta\<lparr>om_Name := ''shop''\<rparr>,
     pr_Spec = \<lparr>ps_Finalizers = None\<rparr>, pr_Status = \<lparr>pst_Phase = ''''\<rparr>\<rparr>"


end
