(* ===== verification/ProjectRequestStorage.thy ===== *)
theory ProjectRequestStorage
  imports ProjectStorage Complex_Main
begin

text \<open>
  \<^verbatim>\<open>pkg/project/registry/projectrequest\<close>: the storage behind the \<^verbatim>\<open>projectrequests\<close> resource. A request
  becomes a namespace and two role bindings for the requester, made through clients of the remote API
  server, and then waits until the server says the requester has access. The clients and the authorizer
  are parameters. The steps the storage shares with every resource (\<^verbatim>\<open>rest.BeforeCreate\<close>) and the
  backoff loop (\<^verbatim>\<open>wait.ExponentialBackoff\<close>) are modelled from the libraries' source.
\<close>

section \<open>rest.BeforeCreate\<close>

text \<open>The strategy's methods, and how to reach the metadata of the objects it is for.\<close>

record 'o create_strategy =
  cs_NamespaceScoped :: bool
  cs_GenerateName :: "string \<Rightarrow> string"
  cs_PrepareForCreate :: "request_context \<Rightarrow> 'o \<Rightarrow> 'o"
  cs_Validate :: "request_context \<Rightarrow> 'o \<Rightarrow> error_list"
  cs_Canonicalize :: "'o \<Rightarrow> 'o"

record 'o object_accessor =
  oa_Kind :: group_kind
  oa_Get :: "'o \<Rightarrow> object_meta"
  oa_Map :: "(object_meta \<Rightarrow> object_meta) \<Rightarrow> 'o \<Rightarrow> 'o"

text \<open>The metadata with the namespace filled in, and the answer.\<close>

definition ValidNamespace :: "request_context \<Rightarrow> object_meta \<Rightarrow> object_meta \<times> bool" where
  "ValidNamespace ctx resource =
     (let (ns, ok') = (case ctx_Namespace ctx of None \<Rightarrow> ('''', False) | Some ns \<Rightarrow> (ns, True));
          resource = (if length (om_Namespace resource) = 0 then resource\<lparr>om_Namespace := ns\<rparr> else resource)
      in (resource, ns = om_Namespace resource \<and> ok'))"

definition generate_name :: "(string \<Rightarrow> string) \<Rightarrow> object_meta \<Rightarrow> object_meta" where
  "generate_name generate meta =
     (if length (om_GenerateName meta) > 0 \<and> length (om_Name meta) = 0
      then meta\<lparr>om_Name := generate (om_GenerateName meta)\<rparr> else meta)"

text \<open>
  \<open>initializersEnabled\<close> is the feature gate. The object is returned as the call leaves it.
\<close>

definition BeforeCreate :: "system_values \<Rightarrow> bool \<Rightarrow> 'o object_accessor \<Rightarrow> 'o create_strategy \<Rightarrow> request_context
    \<Rightarrow> 'o \<Rightarrow> go_error + 'o" where
  "BeforeCreate env initializersEnabled acc strategy ctx obj =
     (let (obj, namespaceOk) =
            (if cs_NamespaceScoped strategy
             then (oa_Map acc (\<lambda>m. fst (ValidNamespace ctx m)) obj, snd (ValidNamespace ctx (oa_Get acc obj)))
             else (oa_Map acc (\<lambda>m. m\<lparr>om_Namespace := ''''\<rparr>) obj, True))
      in if \<not> namespaceOk
         then Inl (BadRequest ''the namespace of the provided object does not match the namespace sent on the request'')
         else
           let obj = oa_Map acc (\<lambda>m. m\<lparr>om_DeletionTimestamp := None, om_DeletionGracePeriodSeconds := None\<rparr>) obj;
               obj = cs_PrepareForCreate strategy ctx obj;
               obj = oa_Map acc (FillObjectMetaSystemFields env ctx) obj;
               obj = oa_Map acc (generate_name (cs_GenerateName strategy)) obj;
               obj = (if \<not> initializersEnabled then oa_Map acc (\<lambda>m. m\<lparr>om_Initializers := None\<rparr>) obj else obj);
               obj = oa_Map acc (\<lambda>m. m\<lparr>om_ClusterName := ''''\<rparr>) obj;
               errs = cs_Validate strategy ctx obj
           in if length errs > 0 then Inl (Invalid (oa_Kind acc) (om_Name (oa_Get acc obj)) errs)
              else
                let errs = ValidateObjectMeta (oa_Get acc obj) (cs_NamespaceScoped strategy) ValidatePathSegmentName ''metadata''
                in if length errs > 0 then Inl (Invalid (oa_Kind acc) (om_Name (oa_Get acc obj)) errs)
                   else Inr (cs_Canonicalize strategy obj))"

section \<open>strategy.go\<close>

definition request_strategy :: "project_request create_strategy" where
  "request_strategy = \<lparr>cs_NamespaceScoped = False, cs_GenerateName = (\<lambda>base. base),
     cs_PrepareForCreate = (\<lambda>ctx obj. obj), cs_Validate = (\<lambda>ctx obj. ValidateProjectRequest obj),
     cs_Canonicalize = (\<lambda>obj. obj)\<rparr>"

definition request_accessor :: "project_request object_accessor" where
  "request_accessor = \<lparr>oa_Kind = SchemeKind ''ProjectRequest'', oa_Get = prq_ObjectMeta,
     oa_Map = (\<lambda>f r. r\<lparr>prq_ObjectMeta := f (prq_ObjectMeta r)\<rparr>)\<rparr>"

section \<open>The backoff loop\<close>

text \<open>
  Durations are nanoseconds, the factors of type \<^verbatim>\<open>float64\<close> are rationals and a conversion to a
  duration truncates. \<open>rnd\<close> gives the random number of each round, from 0 up to but not including 1. The loop returns its error
  and the sleeps it has made.
\<close>

record backoff =
  bo_Duration :: int
  bo_Factor :: rat
  bo_Jitter :: rat
  bo_Steps :: nat

definition DefaultBackoff :: backoff where
  "DefaultBackoff = \<lparr>bo_Duration = 10 * 1000000, bo_Factor = 5, bo_Jitter = 1 / 10, bo_Steps = 4\<rparr>"

definition Jitter :: "rat \<Rightarrow> int \<Rightarrow> rat \<Rightarrow> int" where
  "Jitter r duration maxFactor =
     (let maxFactor = (if maxFactor \<le> 0 then 1 else maxFactor)
      in duration + \<lfloor>r * maxFactor * of_int duration\<rfloor>)"

definition ErrWaitTimeout :: go_error where
  "ErrWaitTimeout = ErrorString ''timed out waiting for the condition''"

fun backoff_loop :: "(nat \<Rightarrow> rat) \<Rightarrow> backoff \<Rightarrow> ('s \<Rightarrow> (go_error + bool) \<times> 's) \<Rightarrow> nat \<Rightarrow> nat \<Rightarrow> int \<Rightarrow> int list \<Rightarrow> 's
    \<Rightarrow> (go_error option \<times> int list) \<times> 's" where
  "backoff_loop rnd backoff condition 0 i duration sleeps s = ((Some ErrWaitTimeout, sleeps), s)"
| "backoff_loop rnd backoff condition (Suc left) i duration sleeps s =
     (let (duration, sleeps) =
            (if i \<noteq> 0
             then let adjusted = (if bo_Jitter backoff > 0 then Jitter (rnd i) duration (bo_Jitter backoff) else duration)
                  in (\<lfloor>of_int duration * bo_Factor backoff\<rfloor>, sleeps @ [adjusted])
             else (duration, sleeps))
      in case condition s of
           (Inl err, s') \<Rightarrow> ((Some err, sleeps), s')
         | (Inr True, s') \<Rightarrow> ((None, sleeps), s')
         | (Inr False, s') \<Rightarrow> backoff_loop rnd backoff condition left (Suc i) duration sleeps s')"

definition ExponentialBackoff :: "(nat \<Rightarrow> rat) \<Rightarrow> backoff \<Rightarrow> ('s \<Rightarrow> (go_error + bool) \<times> 's) \<Rightarrow> 's
    \<Rightarrow> (go_error option \<times> int list) \<times> 's" where
  "ExponentialBackoff rnd backoff condition s =
     backoff_loop rnd backoff condition (bo_Steps backoff) 0 (bo_Duration backoff) [] s"

section \<open>storage.go\<close>

record resource_attributes =
  ra_Namespace :: string
  ra_Verb :: string
  ra_Group :: string
  ra_Resource :: string
  ra_Name :: string

record subject_access_review =
  sar_ResourceAttributes :: resource_attributes
  sar_User :: string

text \<open>
  The clients used, over the remote server's state: the namespace resource, the creation of a role
  binding in a namespace, and the access review, whose answer is the status' \<^verbatim>\<open>Allowed\<close>.
\<close>

record 's kube_client =
  kc_Namespaces :: "'s namespace_client"
  kc_CreateRoleBinding :: "string \<Rightarrow> role_binding \<Rightarrow> 's \<Rightarrow> go_error option \<times> 's"
  kc_CreateAccessReview :: "subject_access_review \<Rightarrow> 's \<Rightarrow> (go_error + bool) \<times> 's"

definition access_review :: "string \<Rightarrow> string \<Rightarrow> subject_access_review" where
  "access_review ns username =
     \<lparr>sar_ResourceAttributes = \<lparr>ra_Namespace = ns, ra_Verb = ''get'', ra_Group = '''',
        ra_Resource = ''namespaces'', ra_Name = ns\<rparr>,
      sar_User = username\<rparr>"

text \<open>The error of the wait is only logged.\<close>

definition waitForAccess :: "(nat \<Rightarrow> rat) \<Rightarrow> 's kube_client \<Rightarrow> string \<Rightarrow> string \<Rightarrow> 's
    \<Rightarrow> (go_error option \<times> int list) \<times> 's" where
  "waitForAccess rnd client ns username s =
     ExponentialBackoff rnd (DefaultBackoff\<lparr>bo_Steps := 6\<rparr>)
       (kc_CreateAccessReview client (access_review ns username)) s"

definition requested_namespace :: "project_request \<Rightarrow> string \<Rightarrow> namespace" where
  "requested_namespace request username =
     \<lparr>ns_ObjectMeta = empty_meta\<lparr>om_Name := om_Name (prq_ObjectMeta request),
        om_Annotations := Some [(ProjectDescription, prq_Description request),
          (ProjectDisplayName, prq_DisplayName request), (ProjectRequester, username)]\<rparr>,
      ns_Finalizers = None, ns_Phase = ''''\<rparr>"

definition admin_binding :: "string \<Rightarrow> string \<Rightarrow> string \<Rightarrow> role_binding" where
  "admin_binding ns username name =
     \<lparr>rb_ObjectMeta = empty_meta\<lparr>om_Name := name, om_Namespace := ns\<rparr>,
      rb_Subjects = [\<lparr>subj_Kind = UserKind, subj_APIGroup = '''', subj_Name = username, subj_Namespace = ''''\<rparr>],
      rb_RoleRef = \<lparr>ref_APIGroup = '''', ref_Kind = ''ClusterRole'', ref_Name = name\<rparr>\<rparr>"

text \<open>
  What follows the validation: the first error ends the call, and nothing that was made is taken back.
\<close>

definition provision :: "(nat \<Rightarrow> rat) \<Rightarrow> 's kube_client \<Rightarrow> project_request \<Rightarrow> string \<Rightarrow> 's \<Rightarrow> (go_error + project) \<times> 's" where
  "provision rnd client request username s =
     (let ns = om_Name (prq_ObjectMeta request) in
      case nc_Get (kc_Namespaces client) ns s of
        (Inr _, s) \<Rightarrow> (Inl (AlreadyExists (SchemeResource ''project'') ns), s)
      | (Inl _, s) \<Rightarrow>
          (case nc_Create (kc_Namespaces client) (requested_namespace request username) s of
             (Inl err, s) \<Rightarrow> (Inl (InternalError err), s)
           | (Inr resultingNamespace, s) \<Rightarrow>
               (case kc_CreateRoleBinding client ns (admin_binding ns username ''admin'') s of
                  (Some err, s) \<Rightarrow> (Inl (InternalError err), s)
                | (None, s) \<Rightarrow>
                    (case kc_CreateRoleBinding client ns (admin_binding ns username (GroupName @ '':admin'')) s of
                       (Some err, s) \<Rightarrow> (Inl (InternalError err), s)
                     | (None, s) \<Rightarrow>
                         let (_, s) = waitForAccess rnd client ns username s
                         in (Inr (ConvertNamespace resultingNamespace), s)))))"

text \<open>
  An object of another registered type passes the metadata steps of \<^verbatim>\<open>BeforeCreate\<close> and panics in the
  strategy's validation; the types of other schemes have no kind in this one.
\<close>

definition requests_Create :: "system_values \<Rightarrow> bool \<Rightarrow> (nat \<Rightarrow> rat) \<Rightarrow> 's kube_client \<Rightarrow> request_context \<Rightarrow> runtime_object
    \<Rightarrow> (runtime_object \<Rightarrow> go_error option) \<Rightarrow> 's \<Rightarrow> ((go_error + project) \<times> 's) outcome" where
  "requests_Create env initializersEnabled rnd client ctx obj createValidation s =
     (case ctx_User ctx of
        None \<Rightarrow> Return (Inl (ErrorString ''a user must be provided''), s)
      | Some userInfo \<Rightarrow>
          (case obj of
             RequestObject request \<Rightarrow>
               (case BeforeCreate env initializersEnabled request_accessor request_strategy ctx request of
                  Inl err \<Rightarrow> Return (Inl err, s)
                | Inr projectRequest \<Rightarrow>
                    (case createValidation (RequestObject projectRequest) of
                       Some err \<Rightarrow> Return (Inl err, s)
                     | None \<Rightarrow> Return (provision rnd client projectRequest (ui_Name userInfo) s)))
           | InternalProject p \<Rightarrow> type_assertion_panic
           | V1Project p \<Rightarrow> type_assertion_panic
           | _ \<Rightarrow> Return (Inl (InternalError (Errorf ''no kind is registered for the type %v'' [] [])), s)))"

datatype decision = DecisionDeny | DecisionAllow | DecisionNoOpinion

definition create_request_attributes :: "user_info \<Rightarrow> attributes" where
  "create_request_attributes userInfo =
     \<lparr>attr_User = Some userInfo, attr_Verb = ''create'', attr_Namespace = '''', attr_APIGroup = GroupName,
      attr_Resource = ''projectrequests'', attr_Subresource = '''', attr_Name = '''',
      attr_ResourceRequest = True, attr_Path = ''''\<rparr>"

text \<open>\<open>message\<close> is the server's configured answer; the authorizer's reason and error are not used.\<close>

definition requests_List :: "string \<Rightarrow> (attributes \<Rightarrow> decision \<times> string \<times> go_error option) \<Rightarrow> request_context
    \<Rightarrow> go_error + string" where
  "requests_List message authorize ctx =
     (case ctx_User ctx of
        None \<Rightarrow> Inl (ErrorString ''a user must be provided'')
      | Some userInfo \<Rightarrow>
          if fst (authorize (create_request_attributes userInfo)) = DecisionAllow then Inr ''Success''
          else if length message > 0
          then Inl (ForbiddenWith message GroupName ''ProjectRequest'' message)
          else Inl (ForbiddenMessage (SchemeResource ''projectrequest'') ''''
                 ''You may not request a new project via this API.''))"

section \<open>How long the wait is\<close>

text \<open>The state after \<open>k\<close> calls of the condition.\<close>

fun polls :: "('s \<Rightarrow> (go_error + bool) \<times> 's) \<Rightarrow> nat \<Rightarrow> 's \<Rightarrow> 's" where
  "polls condition 0 s = s"
| "polls condition (Suc k) s = polls condition k (snd (condition s))"

lemma Jitter_tenth:
  assumes "0 \<le> r" and "r < 1" and "0 \<le> d"
  shows "d \<le> Jitter r d (1 / 10)" and "10 * Jitter r d (1 / 10) \<le> 11 * d"
proof -
  have "0 \<le> r * (1 / 10) * of_int d" using assms by simp
  then show "d \<le> Jitter r d (1 / 10)" by (simp add: Jitter_def)
  have "of_int \<lfloor>r * (1 / 10) * of_int d\<rfloor> \<le> r * (1 / 10) * (of_int d :: rat)" by (rule of_int_floor_le)
  also have "\<dots> \<le> 1 * (1 / 10) * of_int d"
    using assms by (intro mult_right_mono) simp_all
  finally have "of_int (10 * \<lfloor>r * (1 / 10) * of_int d\<rfloor>) \<le> (of_int d :: rat)" by simp
  then have "10 * \<lfloor>r * (1 / 10) * of_int d\<rfloor> \<le> d" unfolding of_int_le_iff .
  then show "10 * Jitter r d (1 / 10) \<le> 11 * d" by (simp add: Jitter_def)
qed

text \<open>The sleep before round \<open>i + 1\<close>, when the first is \<open>d\<close> and each is five times the last.\<close>

definition sleeps_between :: "int \<Rightarrow> int list \<Rightarrow> bool" where
  "sleeps_between d ts \<longleftrightarrow> (\<forall>i < length ts. d * 5 ^ i \<le> ts ! i \<and> 10 * ts ! i \<le> 11 * (d * 5 ^ i))"

lemma sleeps_between_Nil [simp]: "sleeps_between d []"
  by (simp add: sleeps_between_def)

lemma sleeps_between_Cons:
  "sleeps_between d (t # ts) \<longleftrightarrow> d \<le> t \<and> 10 * t \<le> 11 * d \<and> sleeps_between (d * 5) ts"
  by (simp add: sleeps_between_def All_less_Suc2 mult_ac)

lemma polls_last:
  "c s = (Inr False, s1) \<Longrightarrow>
   (0 < k \<and> fst (c (polls c (k - 1) s1)) = Inr True) \<longleftrightarrow> fst (c (polls c k s)) = Inr True"
  by (cases k) simp_all

lemma backoff_rounds:
  assumes "\<And>i. 0 \<le> rnd i \<and> rnd i < 1" and "bo_Factor b = 5" and "bo_Jitter b = 1 / 10"
    and "0 \<le> d" and "i \<noteq> 0" and "backoff_loop rnd b c left i d sleeps s = ((e, sl), s')"
  shows "\<exists>k ts. k \<le> left \<and> s' = polls c k s \<and> sl = sleeps @ ts \<and> length ts = k \<and> sleeps_between d ts \<and>
    (e = None \<longleftrightarrow> 0 < k \<and> fst (c (polls c (k - 1) s)) = Inr True)"
  using assms(4-6)
proof (induction left arbitrary: i d sleeps s)
  case (Suc left)
  let ?t = "Jitter (rnd i) d (1 / 10)"
  have t: "d \<le> ?t" "10 * ?t \<le> 11 * d"
    using Jitter_tenth [of "rnd i" d] assms(1) [of i] Suc.prems(1) by simp_all
  have f: "\<lfloor>of_int d * (5 :: rat)\<rfloor> = d * 5"
    by (metis floor_of_int of_int_mult of_int_numeral)
  obtain r s1 where c: "c s = (r, s1)" by fastforce
  show ?case
  proof (cases "r = Inr False")
    case True
    then have "backoff_loop rnd b c left (Suc i) (d * 5) (sleeps @ [?t]) s1 = ((e, sl), s')"
      using Suc.prems(2,3) c assms(2,3) f by simp
    with Suc.IH [of "d * 5" "Suc i" "sleeps @ [?t]" s1] Suc.prems(1)
    obtain k ts where k: "k \<le> left" "s' = polls c k s1" "sl = (sleeps @ [?t]) @ ts" "length ts = k" "sleeps_between (d * 5) ts"
      "e = None \<longleftrightarrow> 0 < k \<and> fst (c (polls c (k - 1) s1)) = Inr True"
      by auto
    have "e = None \<longleftrightarrow> fst (c (polls c k s)) = Inr True"
      unfolding k(6) using c True by (intro polls_last) simp
    with k(1-5) t c show ?thesis
      by (intro exI [of _ "Suc k"] exI [of _ "?t # ts"]) (simp add: sleeps_between_Cons)
  next
    case False
    then have "e = (case r of Inl err \<Rightarrow> Some err | Inr _ \<Rightarrow> None)" "sl = sleeps @ [?t]" "s' = s1"
      using Suc.prems(2,3) c assms(2,3) by (auto simp: Let_def split: sum.splits bool.splits)
    then show ?thesis
      using t c False
      by (intro exI [of _ 1] exI [of _ "[?t]"]) (auto simp: sleeps_between_Cons split: sum.splits)
  qed
qed auto

lemma sleeps_sum:
  assumes "sleeps_between d ts"
  shows "d * (5 ^ length ts - 1) \<le> 4 * sum_list ts \<and> 40 * sum_list ts \<le> 11 * (d * (5 ^ length ts - 1))"
  using assms
proof (induction ts arbitrary: d)
  case (Cons t ts)
  then have "d \<le> t" "10 * t \<le> 11 * d" "sleeps_between (d * 5) ts"
    unfolding sleeps_between_Cons by blast+
  moreover from Cons.IH [OF this(3)] have "d * 5 * (5 ^ length ts - 1) \<le> 4 * sum_list ts"
    "40 * sum_list ts \<le> 11 * (d * 5 * (5 ^ length ts - 1))"
    by blast+
  moreover have "d * (5 ^ length (t # ts) - 1) = d * 5 * (5 ^ length ts - 1) + 4 * d"
    by (simp add: algebra_simps)
  ultimately show ?case by (simp del: power_Suc)
qed simp

text \<open>
  C15: The wait for access always ends: it asks the server between one and six times, with the state the
  server is left in; it ends with success exactly when the last answer grants the access; it sleeps
  less than 8.6 seconds in all, and at least 7.8 seconds when it uses all its rounds.
\<close>

theorem waitForAccess_bounded:
  assumes "\<And>i. 0 \<le> rnd i \<and> rnd i < 1"
  shows "\<exists>k e sleeps. waitForAccess rnd client ns username s =
        ((e, sleeps), polls (kc_CreateAccessReview client (access_review ns username)) k s) \<and>
    1 \<le> k \<and> k \<le> 6 \<and> length sleeps = k - 1 \<and> sum_list sleeps \<le> 8591000000 \<and>
    (e = None \<longleftrightarrow> fst (kc_CreateAccessReview client (access_review ns username)
       (polls (kc_CreateAccessReview client (access_review ns username)) (k - 1) s)) = Inr True) \<and>
    (if k = 6 then 7810000000 \<le> sum_list sleeps else True)"
proof -
  let ?c = "kc_CreateAccessReview client (access_review ns username)" and ?b = "DefaultBackoff\<lparr>bo_Steps := 6\<rparr>"
  obtain r s1 where c: "?c s = (r, s1)" by fastforce
  have b: "bo_Factor ?b = 5" "bo_Jitter ?b = 1 / 10"
    by (simp_all add: DefaultBackoff_def)
  have w: "waitForAccess rnd client ns username s =
      (case r of Inl err \<Rightarrow> ((Some err, []), s1) | Inr True \<Rightarrow> ((None, []), s1)
         | Inr False \<Rightarrow> backoff_loop rnd ?b ?c 5 1 10000000 [] s1)"
    using c by (simp add: waitForAccess_def ExponentialBackoff_def DefaultBackoff_def numeral_eq_Suc split: sum.split bool.split)
  show ?thesis
  proof (cases "r = Inr False")
    case True
    obtain e sl s' where l: "backoff_loop rnd ?b ?c 5 1 10000000 [] s1 = ((e, sl), s')"
      by (metis prod.collapse)
    then obtain k where k: "k \<le> 5" "s' = polls ?c k s1" "length sl = k" "sleeps_between 10000000 sl"
      "e = None \<longleftrightarrow> 0 < k \<and> fst (?c (polls ?c (k - 1) s1)) = Inr True"
      using backoff_rounds [OF assms b _ _ l] by auto
    have "(5 :: int) ^ k \<le> 5 ^ 5"
      using k(1) by (rule power_increasing) simp
    then have t: "sum_list sl \<le> 8591000000" "k = 5 \<Longrightarrow> 7810000000 \<le> sum_list sl"
      using sleeps_sum [OF k(4)] k(3) by auto
    have "e = None \<longleftrightarrow> fst (?c (polls ?c k s)) = Inr True"
      unfolding k(5) using c True by (intro polls_last) simp
    with k(1-3) t l True c w show ?thesis
      by (intro exI [of _ "Suc k"] exI [of _ e] exI [of _ sl]) simp
  qed (use c w in \<open>auto intro!: exI [of _ 1] split: sum.splits bool.splits\<close>)
qed

text \<open>
  A small server for the witnesses: its state is the namespaces and role bindings it has; it refuses the
  bindings whose name is in \<open>refused\<close>, and grants access to the subjects of the bindings of a namespace.
\<close>

definition sample_server :: "string list \<Rightarrow> (namespace list \<times> role_binding list) kube_client" where
  "sample_server refused =
     \<lparr>kc_Namespaces =
        \<lparr>nc_Get = (\<lambda>name s. (namespace_Get (fst s) name, s)),
         nc_Create = (\<lambda>n s. (Inr n, (n # fst s, snd s))),
         nc_Update = (\<lambda>n s. (Inr n, s)),
         nc_Delete = (\<lambda>name s. (None, (filter (\<lambda>n. ns_Name n \<noteq> name) (fst s), snd s)))\<rparr>,
      kc_CreateRoleBinding = (\<lambda>ns rb s.
        if om_Name (rb_ObjectMeta rb) \<in> set refused then (Some (ErrorString ''refused''), s)
        else (None, (fst s, rb # snd s))),
      kc_CreateAccessReview = (\<lambda>review s. (Inr (snd s \<noteq> []), s))\<rparr>"

theorem waitForAccess_bounded_witness:
  "\<exists>k e sleeps. waitForAccess (\<lambda>i. 1 / 2) (sample_server []) ''shop'' ''ann'' ([], []) =
      ((e, sleeps), polls (kc_CreateAccessReview (sample_server []) (access_review ''shop'' ''ann'')) k ([], [])) \<and> k \<le> 6"
  using waitForAccess_bounded [of "\<lambda>i. 1 / 2" "sample_server []" "''shop''" "''ann''" "([], [])"] by auto

section \<open>What a request has been checked for\<close>

lemma BeforeCreate_request:
  assumes "BeforeCreate env enabled request_accessor request_strategy ctx request = Inr r"
  shows "ValidateProjectRequest r = []"
    and "om_Name (prq_ObjectMeta r) =
      (if om_Name (prq_ObjectMeta request) = '''' then om_GenerateName (prq_ObjectMeta request) else om_Name (prq_ObjectMeta request))"
    and "prq_DisplayName r = prq_DisplayName request" "prq_Description r = prq_Description request"
    and "om_UID (prq_ObjectMeta r) = (case ctx_UID ctx of None \<Rightarrow> sys_NewUUID env | Some uid \<Rightarrow> uid)"
  using assms
  by (auto simp: BeforeCreate_def request_accessor_def request_strategy_def Let_def generate_name_def
      FillObjectMetaSystemFields_def split: if_splits)

text \<open>
  The metadata check that follows the strategy's own validation can no longer fail: the project name
  rule is stricter than the path segment rule.
\<close>

lemma common_validation_redundant:
  assumes "ValidateProject p = []"
  shows "ValidateObjectMeta (pr_ObjectMeta p) False ValidatePathSegmentName ''metadata'' = []"
proof -
  have "ValidatePathSegmentName name pre = []" if "ValidateProjectName name pre = []" for name pre
    using that by (auto simp: ValidateProjectName_def Let_def split: if_splits)
  with assms show ?thesis
    by (auto simp: ValidateProject_def ValidateObjectMeta_def split: if_splits)
qed

section \<open>Properties of the storage\<close>

lemma requested_namespace_name [simp]: "ns_Name (requested_namespace r u) = om_Name (prq_ObjectMeta r)"
  by (simp add: requested_namespace_def)

lemma provision_success:
  assumes "provision rnd client r username s = (Inr p, s')"
  shows "\<exists>e n s1 s2 s3 s4. nc_Get (kc_Namespaces client) (om_Name (prq_ObjectMeta r)) s = (Inl e, s1) \<and>
    nc_Create (kc_Namespaces client) (requested_namespace r username) s1 = (Inr n, s2) \<and>
    kc_CreateRoleBinding client (om_Name (prq_ObjectMeta r))
      (admin_binding (om_Name (prq_ObjectMeta r)) username ''admin'') s2 = (None, s3) \<and>
    kc_CreateRoleBinding client (om_Name (prq_ObjectMeta r))
      (admin_binding (om_Name (prq_ObjectMeta r)) username (GroupName @ '':admin'')) s3 = (None, s4) \<and>
    s' = snd (waitForAccess rnd client (om_Name (prq_ObjectMeta r)) username s4) \<and> p = ConvertNamespace n"
  using assms by (auto simp: provision_def Let_def split: prod.splits sum.splits option.splits)

text \<open>
  C13: A project request that succeeds has made, in this order and nothing else: a namespace that the
  server did not have, with the requested name (a DNS label of two characters at least), the requested
  display name and description and the requester's name in its annotations; the two role bindings that
  make the requester admin there; and the polls for access. It answers the namespace as a project.
\<close>

theorem requests_Create_provisions:
  assumes "requests_Create env enabled rnd client ctx (RequestObject request) admit s = Return (Inr p, s')"
  shows "\<exists>u r e n s1 s2 s3 s4. ctx_User ctx = Some u \<and>
    om_Name (prq_ObjectMeta r) = (if om_Name (prq_ObjectMeta request) = '''' then om_GenerateName (prq_ObjectMeta request)
       else om_Name (prq_ObjectMeta request)) \<and>
    2 \<le> length (om_Name (prq_ObjectMeta r)) \<and> IsDNS1123Label (om_Name (prq_ObjectMeta r)) = [] \<and>
    prq_DisplayName r = prq_DisplayName request \<and> prq_Description r = prq_Description request \<and>
    nc_Get (kc_Namespaces client) (om_Name (prq_ObjectMeta r)) s = (Inl e, s1) \<and>
    nc_Create (kc_Namespaces client) (requested_namespace r (ui_Name u)) s1 = (Inr n, s2) \<and>
    kc_CreateRoleBinding client (om_Name (prq_ObjectMeta r))
      (admin_binding (om_Name (prq_ObjectMeta r)) (ui_Name u) ''admin'') s2 = (None, s3) \<and>
    kc_CreateRoleBinding client (om_Name (prq_ObjectMeta r))
      (admin_binding (om_Name (prq_ObjectMeta r)) (ui_Name u) ''project.openshift.io:admin'') s3 = (None, s4) \<and>
    s' = snd (waitForAccess rnd client (om_Name (prq_ObjectMeta r)) (ui_Name u) s4) \<and> p = ConvertNamespace n"
proof -
  obtain u r where u: "ctx_User ctx = Some u"
    and r: "BeforeCreate env enabled request_accessor request_strategy ctx request = Inr r"
    and p: "provision rnd client r (ui_Name u) s = (Inr p, s')"
    using assms by (auto simp: requests_Create_def split: option.splits sum.splits)
  have "2 \<le> length (om_Name (prq_ObjectMeta r)) \<and> IsDNS1123Label (om_Name (prq_ObjectMeta r)) = []"
    using ValidateProject_accepts BeforeCreate_request(1) [OF r] by (force simp: ValidateProjectRequest_def)
  moreover have "GroupName @ '':admin'' = ''project.openshift.io:admin''"
    by (simp add: GroupName_def)
  ultimately show ?thesis
    using u BeforeCreate_request(2-4) [OF r] provision_success [OF p] by metis
qed

definition sample_project_request :: project_request where
  "sample_project_request = \<lparr>prq_ObjectMeta = empty_meta\<lparr>om_Name := ''shop''\<rparr>, prq_DisplayName = ''The shop'', prq_Description = ''''\<rparr>"

lemma sample_request_runs:
  "requests_Create sample_env False (\<lambda>i. 0) (sample_server []) sample_context (RequestObject sample_project_request) (\<lambda>_. None) ([], [])
   = Return (Inr (ConvertNamespace (requested_namespace sample_project_request ''ann'')),
       ([requested_namespace sample_project_request ''ann''],
        [admin_binding ''shop'' ''ann'' ''project.openshift.io:admin'', admin_binding ''shop'' ''ann'' ''admin'']))"
  by code_simp

theorem requests_Create_provisions_witness:
  "\<exists>n s2. nc_Create (kc_Namespaces (sample_server [])) n ([], []) = (Inr n, s2) \<and> ns_Name n = ''shop''"
proof -
  obtain r e n s1 s2 and u :: user_info where
    n: "om_Name (prq_ObjectMeta r) = (if om_Name (prq_ObjectMeta sample_project_request) = '''' then
       om_GenerateName (prq_ObjectMeta sample_project_request) else om_Name (prq_ObjectMeta sample_project_request))"
    and g: "nc_Get (kc_Namespaces (sample_server [])) (om_Name (prq_ObjectMeta r)) ([], []) = (Inl e, s1)"
    and c: "nc_Create (kc_Namespaces (sample_server [])) (requested_namespace r (ui_Name u)) s1 = (Inr n, s2)"
    using requests_Create_provisions [OF sample_request_runs] by (elim exE conjE) (rule that)
  have "s1 = ([], [])" and "n = requested_namespace r (ui_Name u)"
    using g c by (simp_all add: sample_server_def)
  with c n show ?thesis
    by (intro exI [of _ n] exI [of _ s2]) (simp add: sample_project_request_def)
qed

text \<open>
  The documented behaviour of the remote server that the next property rests on: a namespace that was
  created is found, and creating a binding does not change which namespaces are found.
\<close>

definition lawful_client :: "'s kube_client \<Rightarrow> bool" where
  "lawful_client client \<longleftrightarrow>
     (\<forall>n t m t'. nc_Create (kc_Namespaces client) n t = (Inr m, t') \<longrightarrow>
        (\<exists>m'. fst (nc_Get (kc_Namespaces client) (ns_Name n) t') = Inr m')) \<and>
     (\<forall>ns rb t name. isl (fst (nc_Get (kc_Namespaces client) name (snd (kc_CreateRoleBinding client ns rb t))))
        = isl (fst (nc_Get (kc_Namespaces client) name t)))"


lemma sample_server_lawful: "lawful_client (sample_server refused)"
  by (auto simp: lawful_client_def sample_server_def namespace_Get_def)


end
