(* ===== verification/WatchSync.thy ===== *)
theory WatchSync
  imports ProjectStorage
begin

text \<open>
  The watchers of the cache during a synchronization: what one notification leaves of a watcher, what
  the reviews and the purge leave of all of them, and that a synchronization whose reviews do not fail
  leaves every registered watcher knowing exactly the projects and versions its user is shown.
\<close>

section \<open>What one notification does to a watcher\<close>

text \<open>
  The notifications of a synchronization that returns, seen from one watcher of a watch request: what it
  knows afterwards, and that each is a step the goroutine's model allows.
\<close>

definition known_after :: "namespace list \<Rightarrow> string \<Rightarrow> strset \<Rightarrow> strset \<Rightarrow> user_project_watcher \<Rightarrow> string \<Rightarrow> string option" where
  "known_after items ns users groups w x =
     (if x \<noteq> ns then map_of (w_knownProjects w) x
      else if \<not> has_access w users groups then None
      else (case namespace_Get items ns of
              Inl e \<Rightarrow> map_of (w_knownProjects w) x
            | Inr n \<Rightarrow> Some (ns_ResourceVersion n)))"

definition notified :: "namespace list \<Rightarrow> string \<Rightarrow> strset \<Rightarrow> strset \<Rightarrow> user_project_watcher \<Rightarrow> user_project_watcher \<Rightarrow> bool" where
  "notified items ns users groups w w' \<longleftrightarrow>
     GroupMembershipChanged (\<lambda>_. Return False) (namespace_Get items) ns users groups True w = Return (True, w')"

definition unscoped :: "user_project_watcher \<Rightarrow> bool" where
  "unscoped w \<longleftrightarrow> ''*'' \<in> set (w_visibleNamespaces w)"

lemma notified_cases:
  assumes "notified items ns users groups w w'"
  obtains (none) "membership_event (namespace_Get items) ns users groups w = None" "w' = w"
    | (sent) ev known err where "membership_event (namespace_Get items) ns users groups w = Some (ev, known, err)"
        "length (w_cacheIncoming w) < cacheIncoming_cap"
        "w' = w\<lparr>w_knownProjects := known, w_cacheIncoming := w_cacheIncoming w @ [ev]\<rparr>"
  using assms
  by (cases "membership_event (namespace_Get items) ns users groups w")
    (auto simp: notified_def GroupMembershipChanged_event send_incoming_def split: if_splits)

lemma notified_frame:
  assumes "notified items ns users groups w w'"
  shows "w_user w' = w_user w" "w_visibleNamespaces w' = w_visibleNamespaces w"
    "prefix (w_cacheIncoming w) (w_cacheIncoming w')"
  using assms by (cases rule: notified_cases; simp)+

lemma notified_known:
  assumes "notified items ns users groups w w'" and "unscoped w"
  shows "map_of (w_knownProjects w') x = known_after items ns users groups w x"
  using assms(1)
proof (cases rule: notified_cases)
  case none
  with assms(2) show ?thesis
    by (auto simp: membership_event_def unscoped_def in_scope_def known_after_def split: if_splits option.splits sum.splits)
next
  case (sent ev known err)
  then have "map_of (w_knownProjects w') x = map_of known x" by simp
  with sent(1) assms(2) show ?thesis
    by (auto simp: membership_event_def unscoped_def in_scope_def known_after_def delete_conv' update_conv'
        split: if_splits option.splits sum.splits)
qed

text \<open>While the cache holds its lock a notification that returns is one of these.\<close>

lemma locked_notified:
  assumes "watcherLock ac"
    and "GroupMembershipChanged (RemoveWatcher i) (namespace_Get items) ns users groups ac w = Return (ac', w')"
  shows "ac' = ac \<and> notified items ns users groups w w'"
  using assms
  by (cases "membership_event (namespace_Get items) ns users groups w")
    (auto simp: notified_def GroupMembershipChanged_event send_incoming_def split: if_splits)

lemma notify_loop_notified:
  assumes "watcherLock ac" and "notify_loop (namespace_Get items) ns users groups ids ac = Return ac'" and "distinct ids"
  shows "(i \<in> set ids \<longrightarrow> notified items ns users groups (ac_watcherObjects ac i) (ac_watcherObjects ac' i)) \<and>
     (i \<notin> set ids \<longrightarrow> ac_watcherObjects ac' i = ac_watcherObjects ac i)"
  using assms
proof (induction ids arbitrary: ac)
  case (Cons j ids)
  from Cons.prems(2) obtain ac1 w' where g: "GroupMembershipChanged (RemoveWatcher j) (namespace_Get items) ns users groups ac
      (ac_watcherObjects ac j) = Return (ac1, w')"
    and l: "notify_loop (namespace_Get items) ns users groups ids (ac1\<lparr>ac_watcherObjects := (ac_watcherObjects ac1)(j := w')\<rparr>) = Return ac'"
    by auto
  have n: "ac1 = ac" "notified items ns users groups (ac_watcherObjects ac j) w'"
    using locked_notified [OF Cons.prems(1) g] by blast+
  let ?o = "(ac_watcherObjects ac)(j := w')"
  have "(i \<in> set ids \<longrightarrow> notified items ns users groups (?o i) (ac_watcherObjects ac' i)) \<and>
     (i \<notin> set ids \<longrightarrow> ac_watcherObjects ac' i = ?o i)"
    using Cons.IH [OF _ l] Cons.prems(1,3) n(1) by simp
  with n(2) Cons.prems(3) show ?case by (cases "i = j") simp_all
qed simp

lemma notifyWatchers_notified:
  assumes "notifyWatchers (namespace_Get items) ns users groups ac = Return ac'" and "distinct (ac_watchers ac)"
    and "i \<in> set (ac_watchers ac)"
  shows "notified items ns users groups (ac_watcherObjects ac i) (ac_watcherObjects ac' i)"
proof -
  obtain ac1 where "notify_loop (namespace_Get items) ns users groups (ac_watchers ac) (ac\<lparr>watcherLock := True\<rparr>) = Return ac1"
    "ac' = ac1\<lparr>watcherLock := False\<rparr>"
    using assms(1) by (auto simp: notifyWatchers_def split: if_splits)
  then show ?thesis
    using notify_loop_notified [of "ac\<lparr>watcherLock := True\<rparr>" items ns users groups "ac_watchers ac" ac1 i] assms(2,3) by simp
qed

text \<open>Any number of notifications from one lister.\<close>

definition informed :: "namespace list \<Rightarrow> user_project_watcher \<Rightarrow> user_project_watcher \<Rightarrow> bool" where
  "informed items = (\<lambda>w w'. \<exists>ns users groups. notified items ns users groups w w')\<^sup>*\<^sup>*"

lemma informed_refl [simp]: "informed items w w"
  by (simp add: informed_def)

lemma informed_step: "informed items w w' \<Longrightarrow> notified items ns users groups w' w'' \<Longrightarrow> informed items w w''"
  unfolding informed_def by (rule rtranclp.rtrancl_into_rtrancl) blast+

lemma informed_trans: "informed items w w' \<Longrightarrow> informed items w' w'' \<Longrightarrow> informed items w w''"
  unfolding informed_def by (rule rtranclp_trans)

definition send_all :: "watch_state \<Rightarrow> user_project_watcher \<Rightarrow> watch_state" where
  "send_all s w' = s\<lparr>ws_watcher := w',
     ws_sent := ws_sent s @ drop (length (w_cacheIncoming (ws_watcher s))) (w_cacheIncoming w')\<rparr>"

lemma informed_prefix: "informed items w w' \<Longrightarrow> prefix (w_cacheIncoming w) (w_cacheIncoming w')"
  unfolding informed_def
proof (induction rule: rtranclp_induct)
  case (step y z)
  then show ?case by (blast intro: prefix_order.trans notified_frame(3))
qed simp

lemma informed_reachable:
  assumes "informed items (ws_watcher s) w'" and "watch_reachable w s" and "ws_registered s"
  shows "watch_reachable w (send_all s w')"
  using assms(1) unfolding informed_def
proof (induction rule: rtranclp_induct)
  case base
  with assms(2) show ?case by (simp add: send_all_def)
next
  case (step y z)
  then obtain ns users groups where n: "notified items ns users groups y z" by blast
  let ?inc = "w_cacheIncoming (ws_watcher s)"
  have "prefix ?inc (w_cacheIncoming y)"
    using step(1) informed_prefix by (simp add: informed_def)
  moreover have "prefix (w_cacheIncoming y) (w_cacheIncoming z)"
    by (rule notified_frame(3) [OF n])
  ultimately have d: "drop (length ?inc) (w_cacheIncoming y) @ drop (length (w_cacheIncoming y)) (w_cacheIncoming z)
      = drop (length ?inc) (w_cacheIncoming z)"
    by (auto simp: prefix_def)
  have eq: "send_all s z = (send_all s y)\<lparr>ws_watcher := z, ws_registered := True, ws_sent := ws_sent (send_all s y) @
      drop (length (w_cacheIncoming (ws_watcher (send_all s y)))) (w_cacheIncoming z)\<rparr>"
    using d assms(3) by (cases s) (simp add: send_all_def)
  have "watch_step (send_all s y) (send_all s z)"
    unfolding eq using n assms(3) by (intro watch_step.notify) (simp_all add: send_all_def notified_def)
  with step(3) show ?case by (rule watch_reachable.step)
qed

section \<open>Watchers during a synchronization\<close>

text \<open>
  The project a user is shown under a name, by the records and the lister; and the names whose record
  is of the lister's version.
\<close>

definition shown :: "namespace list \<Rightarrow> stores \<Rightarrow> user_info \<Rightarrow> string \<Rightarrow> string option" where
  "shown items st u ns =
     (case namespace_Get items ns of
        Inl e \<Rightarrow> None
      | Inr n \<Rightarrow> if may_see st u ns then Some (ns_ResourceVersion n) else None)"

definition up_to_date :: "namespace list \<Rightarrow> stores \<Rightarrow> string \<Rightarrow> bool" where
  "up_to_date items st ns \<longleftrightarrow>
     (\<exists>r n. lastKnown (reviewRecordStore st) ns = Some r \<and> namespace_Get items ns = Inr n \<and>
        rq_namespaceResourceVersion r = ns_ResourceVersion n)"

definition tracked :: "namespace list \<Rightarrow> strset \<Rightarrow> stores \<Rightarrow> user_project_watcher \<Rightarrow> bool" where
  "tracked items old st w \<longleftrightarrow> unscoped w \<and>
     (\<forall>ns. up_to_date items st ns \<longrightarrow> map_of (w_knownProjects w) ns = shown items st (w_user w) ns) \<and>
     (\<forall>ns. map_of (w_knownProjects w) ns \<noteq> None \<longrightarrow> ns \<in> set old \<or> (\<exists>n. namespace_Get items ns = Inr n))"

lemma may_see_update_stores:
  "may_see (update_stores rq lk users groups st) u ns =
     (if ns = rq_namespace rq then ui_Name u \<in> set users \<or> set (ui_Groups u) \<inter> set groups \<noteq> {} else may_see st u ns)"
  by (simp add: may_see_def access_users_def access_groups_def access_of_update_stores)

lemma tracked_notified:
  assumes "tracked items old st w" and n: "notified items (rq_namespace rq) (NewString users) (NewString groups) w w'"
  shows "tracked items old (update_stores rq lk users groups st) w'"
proof -
  let ?st = "update_stores rq lk users groups st" and ?ns = "rq_namespace rq"
  have u: "unscoped w" using assms(1) by (simp add: tracked_def)
  note frame = notified_frame [OF n]
  note known = notified_known [OF n u]
  have access: "has_access w (NewString users) (NewString groups) = may_see ?st (w_user w) ?ns"
    by (simp add: has_access_def may_see_update_stores cache_simps)
  have "map_of (w_knownProjects w') ns = shown items ?st (w_user w') ns" if "up_to_date items ?st ns" for ns
  proof (cases "ns = ?ns")
    case True
    with that obtain n where "namespace_Get items ns = Inr n" by (auto simp: up_to_date_def)
    with True show ?thesis by (simp add: known known_after_def access shown_def frame)
  next
    case False
    with that have "up_to_date items st ns" by (simp add: up_to_date_def lastKnown_update_stores)
    with assms(1) False show ?thesis
      by (simp add: known known_after_def tracked_def shown_def may_see_update_stores frame cong: sum.case_cong)
  qed
  moreover have "ns \<in> set old \<or> (\<exists>n. namespace_Get items ns = Inr n)" if "map_of (w_knownProjects w') ns \<noteq> None" for ns
  proof (rule ccontr)
    assume not: "\<not> (ns \<in> set old \<or> (\<exists>n. namespace_Get items ns = Inr n))"
    then have "map_of (w_knownProjects w) ns = None"
      using assms(1) by (auto simp: tracked_def)
    moreover have "\<exists>e. namespace_Get items ns = Inl e"
      using not by (cases "namespace_Get items ns") auto
    ultimately show False
      using that by (auto simp: known known_after_def split: if_splits)
  qed
  moreover have "unscoped w'" using u frame(2) by (simp add: unscoped_def)
  ultimately show ?thesis by (auto simp: tracked_def)
qed

lemma syncRequest_watcher:
  assumes "syncRequest v rq (ac, st) = Return ((ac', st'), err)" and "v_nsGet v = namespace_Get items"
    and "distinct (ac_watchers ac)" and "i \<in> set (ac_watchers ac)" and "tracked items old st (ac_watcherObjects ac i)"
  shows "tracked items old st' (ac_watcherObjects ac' i) \<and> informed items (ac_watcherObjects ac i) (ac_watcherObjects ac' i)"
  using assms(1)
proof (cases rule: syncRequest_cases)
  case (reviewed users groups objs)
  have "notified items (rq_namespace rq) (NewString users) (NewString groups) (ac_watcherObjects ac i) (ac_watcherObjects ac' i)"
    using reviewed(5) assms(2-4) notifyWatchers_notified by simp
  with tracked_notified [OF assms(5) this] reviewed(3) show ?thesis
    using informed_step [OF informed_refl] by blast
qed (use assms(5) in simp_all)

lemma sync_requests_watcher:
  assumes "sync_requests v rqs (ac, st) = Return (ac', st')" and "v_nsGet v = namespace_Get items"
    and "distinct (ac_watchers ac)" and "i \<in> set (ac_watchers ac)" and "tracked items old st (ac_watcherObjects ac i)"
  shows "tracked items old st' (ac_watcherObjects ac' i) \<and> informed items (ac_watcherObjects ac i) (ac_watcherObjects ac' i)"
  using assms
proof (induction rqs arbitrary: ac st)
  case (Cons rq rqs)
  from Cons.prems(1) obtain ac1 st1 err where s: "syncRequest v rq (ac, st) = Return ((ac1, st1), err)"
    and r: "sync_requests v rqs (ac1, st1) = Return (ac', st')"
    by auto
  note one = syncRequest_watcher [OF s Cons.prems(2-5)]
  obtain objs where "ac1 = ac\<lparr>ac_watcherObjects := objs\<rparr>"
    using syncRequest_frame [OF s] by blast
  then have w: "ac_watchers ac1 = ac_watchers ac" by simp
  have "tracked items old st' (ac_watcherObjects ac' i) \<and> informed items (ac_watcherObjects ac1 i) (ac_watcherObjects ac' i)"
    by (rule Cons.IH [OF r Cons.prems(2)]) (use Cons.prems(3,4) one w in simp_all)
  with one informed_trans show ?case by blast
qed simp

text \<open>The deleted namespaces: nobody has access any more, so each is forgotten.\<close>

lemma notify_deleted_watcher:
  assumes "notify_deleted v nss ac = Return ac'" and "v_nsGet v = namespace_Get items"
    and "distinct (ac_watchers ac)" and "i \<in> set (ac_watchers ac)" and "unscoped (ac_watcherObjects ac i)"
  shows "informed items (ac_watcherObjects ac i) (ac_watcherObjects ac' i) \<and>
    w_user (ac_watcherObjects ac' i) = w_user (ac_watcherObjects ac i) \<and> unscoped (ac_watcherObjects ac' i) \<and>
    (\<forall>x. map_of (w_knownProjects (ac_watcherObjects ac' i)) x =
       (if x \<in> set nss then None else map_of (w_knownProjects (ac_watcherObjects ac i)) x))"
  using assms
proof (induction nss arbitrary: ac)
  case (Cons ns nss)
  from Cons.prems(1) obtain ac1 where n: "notifyWatchers (v_nsGet v) ns [] [] ac = Return ac1"
    and r: "notify_deleted v nss ac1 = Return ac'" by auto
  let ?w = "ac_watcherObjects ac i" and ?w1 = "ac_watcherObjects ac1 i"
  have one: "notified items ns [] [] ?w ?w1"
    using notifyWatchers_notified n Cons.prems(2-4) by simp
  note frame = notified_frame [OF one]
  obtain objs where "ac1 = ac\<lparr>ac_watcherObjects := objs\<rparr>"
    using notifyWatchers_frame [OF n] by blast
  then have w: "ac_watchers ac1 = ac_watchers ac" by simp
  have u: "unscoped ?w1" using Cons.prems(5) frame(2) by (simp add: unscoped_def)
  have IH: "informed items ?w1 (ac_watcherObjects ac' i) \<and>
    w_user (ac_watcherObjects ac' i) = w_user ?w1 \<and> unscoped (ac_watcherObjects ac' i) \<and>
    (\<forall>x. map_of (w_knownProjects (ac_watcherObjects ac' i)) x =
       (if x \<in> set nss then None else map_of (w_knownProjects ?w1) x))"
    by (rule Cons.IH [OF r Cons.prems(2)]) (use Cons.prems(3,4) w u in simp_all)
  have "map_of (w_knownProjects ?w1) x = (if x = ns then None else map_of (w_knownProjects ?w) x)" for x
    using notified_known [OF one Cons.prems(5)] by (simp add: known_after_def has_access_def)
  with IH frame(1) informed_trans [OF informed_step [OF informed_refl one]] show ?case by auto
qed simp

section \<open>Records during a synchronization\<close>

text \<open>The requests for a namespace ask for one version of it, or for none.\<close>

definition versioned :: "string \<Rightarrow> string \<Rightarrow> review_request list \<Rightarrow> bool" where
  "versioned ns x rqs \<longleftrightarrow>
     (\<forall>rq \<in> set rqs. rq_namespace rq = ns \<longrightarrow> rq_namespaceResourceVersion rq \<in> {'''', x})"

definition record_version :: "stores \<Rightarrow> string \<Rightarrow> string option" where
  "record_version st ns = map_option rq_namespaceResourceVersion (lastKnown (reviewRecordStore st) ns)"

lemma record_version_update_stores:
  "record_version (update_stores rq lk users groups st) ns =
     (if ns = rq_namespace rq
      then Some (if rq_namespaceResourceVersion rq \<noteq> '''' then rq_namespaceResourceVersion rq
                 else case lk of None \<Rightarrow> '''' | Some r \<Rightarrow> rq_namespaceResourceVersion r)
      else record_version st ns)"
proof (cases "ns = rq_namespace rq")
  case True
  then show ?thesis
    by (simp add: record_version_def reviewRecordStore_update cacheReviewRecord_def lastKnown_def store_GetByKey_Add
        reviewRecordKeyFn_def split: option.splits)
qed (simp add: record_version_def lastKnown_update_stores)

lemma syncRequest_keeps_version:
  assumes "syncRequest v rq (ac, st) = Return ((ac', st'), err)"
    and "record_version st ns = Some x" and "versioned ns x [rq]"
  shows "record_version st' ns = Some x"
  using assms(1)
proof (cases rule: syncRequest_cases)
  case (reviewed users groups objs)
  with assms(2,3) show ?thesis
    by (auto simp: record_version_update_stores versioned_def record_version_def [of st])
qed (use assms(2) in simp_all)

lemma syncRequest_version:
  assumes "syncRequest v rq (ac, st) = Return ((ac', st'), err)" and "review_of v (rq_namespace rq) \<noteq> None"
    and "rq_namespaceResourceVersion rq \<noteq> ''''"
  shows "record_version st' (rq_namespace rq) = Some (rq_namespaceResourceVersion rq)"
  using assms(1)
proof (cases rule: syncRequest_cases)
  case skipped
  with assms(3) show ?thesis
    by (auto simp: record_version_def skipReview_def split: option.splits if_splits)
next
  case (reviewed users groups objs)
  with assms(3) show ?thesis
    by (simp add: record_version_update_stores)
qed (use assms(2) in simp_all)

lemma sync_requests_version:
  assumes "sync_requests v rqs (ac, st) = Return (ac', st')" and "versioned ns x rqs"
    and "record_version st ns = Some x \<or>
      (\<exists>rq \<in> set rqs. rq_namespace rq = ns \<and> rq_namespaceResourceVersion rq = x) \<and> x \<noteq> '''' \<and> review_of v ns \<noteq> None"
  shows "record_version st' ns = Some x"
  using assms
proof (induction rqs arbitrary: ac st)
  case (Cons rq rqs)
  from Cons.prems(1) obtain ac1 st1 err where s: "syncRequest v rq (ac, st) = Return ((ac1, st1), err)"
    and r: "sync_requests v rqs (ac1, st1) = Return (ac', st')"
    by auto
  have v: "versioned ns x [rq]" "versioned ns x rqs"
    using Cons.prems(2) by (simp_all add: versioned_def)
  have "record_version st1 ns = Some x \<or>
      (\<exists>rq \<in> set rqs. rq_namespace rq = ns \<and> rq_namespaceResourceVersion rq = x) \<and> x \<noteq> '''' \<and> review_of v ns \<noteq> None"
    using Cons.prems(3) syncRequest_keeps_version [OF s _ v(1)] syncRequest_version [OF s] by auto
  then show ?case by (rule Cons.IH [OF r v(2)])
qed simp

lemma purge_loop_keeps:
  "ns \<in> set names \<Longrightarrow> record_version (purge_loop names rs st) ns = record_version st ns"
proof (induction names rs st rule: purge_loop.induct)
  case (2 names r rs st)
  then show ?case
    by (auto simp: record_version_def lastKnown_def store_GetByKey_Delete reviewRecordKeyFn_def cache_simps)
qed simp

section \<open>The watchers of a quiet server\<close>

text \<open>
  What the informers show at a synchronization: the list of namespaces and the lister of the watchers
  agree, names are unique, the remote server has given every namespace a version, and the reviews of
  the namespaces do not fail.
\<close>

definition consistent_view :: "sync_view \<Rightarrow> namespace list \<Rightarrow> bool" where
  "consistent_view v items \<longleftrightarrow>
     v_namespaces v = Inr items \<and> v_nsGet v = namespace_Get items \<and> distinct (map ns_Name items) \<and>
     list_all (\<lambda>n. ns_ResourceVersion n \<noteq> '''' \<and> review_of v (ns_Name n) \<noteq> None) items"

text \<open>
  The state after a synchronization: the records are of the lister's versions and the registered
  watchers know what their users are shown.
\<close>

definition watchers_current :: "namespace list \<Rightarrow> auth_cache \<Rightarrow> bool" where
  "watchers_current items ac \<longleftrightarrow>
     index_inv (ac_stores ac) \<and> \<not> watcherLock ac \<and> distinct (ac_watchers ac) \<and>
     set (allKnownNamespaces ac) = ns_Name ` set items \<and>
     (\<forall>ns. lastKnown (reviewRecordStore (ac_stores ac)) ns \<noteq> None \<longrightarrow> up_to_date items (ac_stores ac) ns) \<and>
     (\<forall>i \<in> set (ac_watchers ac). unscoped (ac_watcherObjects ac i) \<and>
        map_of (w_knownProjects (ac_watcherObjects ac i)) = shown items (ac_stores ac) (w_user (ac_watcherObjects ac i)))"

text \<open>
  The state at any time between synchronizations, when the lister may be ahead of the records: the
  watchers know what their users are shown as far as the records are of the lister's versions.
\<close>

definition watcher_follows :: "namespace list \<Rightarrow> auth_cache \<Rightarrow> user_project_watcher \<Rightarrow> bool" where
  "watcher_follows items ac w \<longleftrightarrow> unscoped w \<and>
     (\<forall>ns. up_to_date items (ac_stores ac) ns \<longrightarrow>
        map_of (w_knownProjects w) ns = shown items (ac_stores ac) (w_user w) ns) \<and>
     (\<forall>ns. map_of (w_knownProjects w) ns \<noteq> None \<longrightarrow> ns \<in> set (allKnownNamespaces ac))"

definition watchers_follow :: "namespace list \<Rightarrow> auth_cache \<Rightarrow> bool" where
  "watchers_follow items ac \<longleftrightarrow>
     index_inv (ac_stores ac) \<and> \<not> watcherLock ac \<and> distinct (ac_watchers ac) \<and>
     (\<forall>ns. lastKnown (reviewRecordStore (ac_stores ac)) ns \<noteq> None \<longrightarrow> ns \<in> set (allKnownNamespaces ac)) \<and>
     (\<forall>i \<in> set (ac_watchers ac). watcher_follows items ac (ac_watcherObjects ac i))"

lemma may_see_recorded: "may_see st u ns \<Longrightarrow> lastKnown (reviewRecordStore st) ns \<noteq> None"
  by (auto simp: may_see_def access_users_lastKnown access_groups_lastKnown split: option.splits)

lemma shown_recorded: "shown items st u ns \<noteq> None \<Longrightarrow> lastKnown (reviewRecordStore st) ns \<noteq> None"
  by (auto simp: shown_def dest: may_see_recorded split: sum.splits if_splits)

text \<open>A watcher that knows what its user is shown follows the cache.\<close>

lemma shown_follows:
  assumes "unscoped w" and "map_of (w_knownProjects w) = shown items (ac_stores ac) (w_user w)"
    and "\<And>ns. lastKnown (reviewRecordStore (ac_stores ac)) ns \<noteq> None \<Longrightarrow> ns \<in> set (allKnownNamespaces ac)"
  shows "watcher_follows items ac w"
  using assms shown_recorded [of items "ac_stores ac" "w_user w"] by (auto simp: watcher_follows_def)

lemma current_follows:
  assumes "watchers_current items ac"
  shows "watchers_follow items ac"
proof -
  have known: "ns \<in> set (allKnownNamespaces ac)" if "lastKnown (reviewRecordStore (ac_stores ac)) ns \<noteq> None" for ns
  proof -
    from that assms obtain n where "namespace_Get items ns = Inr n"
      unfolding watchers_current_def up_to_date_def by blast
    from namespace_Get_Inr [OF this] assms show ?thesis by (auto simp: watchers_current_def)
  qed
  have "watcher_follows items ac (ac_watcherObjects ac i)" if "i \<in> set (ac_watchers ac)" for i
    using assms that known by (intro shown_follows) (simp_all add: watchers_current_def)
  with known assms show ?thesis
    unfolding watchers_follow_def watchers_current_def by blast
qed

lemma up_to_date_version:
  "up_to_date items st ns \<longleftrightarrow> (\<exists>n. namespace_Get items ns = Inr n \<and> record_version st ns = Some (ns_ResourceVersion n))"
  by (auto simp: up_to_date_def record_version_def)

lemma namespace_Get_distinct:
  assumes "distinct (map ns_Name items)" and "n \<in> set items"
  shows "namespace_Get items (ns_Name n) = Inr n"
proof -
  obtain m where m: "namespace_Get items (ns_Name n) = Inr m"
    using namespace_Get_mem [OF assms(2)] by blast
  with namespace_Get_Inr [OF m] assms have "m = n"
    by (metis distinct_map inj_on_def)
  with m show ?thesis by simp
qed

lemma tracked_start:
  assumes "watchers_follow items ac" and "i \<in> set (ac_watchers ac)"
  shows "tracked items (allKnownNamespaces ac) (base_stores v ac) (ac_watcherObjects ac i)"
proof -
  let ?w = "ac_watcherObjects ac i" and ?b = "base_stores v ac"
  have w: "watcher_follows items ac ?w"
    using assms by (simp add: watchers_follow_def)
  have "map_of (w_knownProjects ?w) ns = shown items ?b (w_user ?w) ns" if u: "up_to_date items ?b ns" for ns
  proof -
    have "?b = ac_stores ac"
      using u by (auto simp: base_stores_def up_to_date_def split: if_splits)
    with u w show ?thesis by (simp add: watcher_follows_def)
  qed
  with w show ?thesis unfolding tracked_def watcher_follows_def by blast
qed

lemma versioned_requests:
  assumes "consistent_view v items" and "n \<in> set items"
  shows "versioned (ns_Name n) (ns_ResourceVersion n) (all_requests v)"
proof -
  have d: "distinct (map ns_Name items)" and v: "v_namespaces v = Inr items"
    using assms(1) by (simp_all add: consistent_view_def)
  have same: "ns_ResourceVersion m = ns_ResourceVersion n" if "m \<in> set items" "ns_Name m = ns_Name n" for m
    using namespace_Get_distinct [OF d that(1), unfolded that(2)] namespace_Get_distinct [OF d assms(2)] by simp
  have 1: "versioned (ns_Name n) (ns_ResourceVersion n) (map namespace_request items)"
    unfolding versioned_def
  proof (intro ballI impI)
    fix rq
    assume "rq \<in> set (map namespace_request items)" and "rq_namespace rq = ns_Name n"
    then obtain m where m: "rq = namespace_request m" "m \<in> set items" "ns_Name m = ns_Name n"
      by (auto simp: namespace_request_def)
    then show "rq_namespaceResourceVersion rq \<in> {'''', ns_ResourceVersion n}"
      using same [OF m(2,3)] by (simp add: namespace_request_def)
  qed
  have 2: "versioned ns x (map role_request rs)" "versioned ns x (map binding_request bs)" "versioned ns x []" for ns x rs bs
    by (simp_all add: versioned_def role_request_def binding_request_def)
  have 3: "versioned ns x (as @ bs) \<longleftrightarrow> versioned ns x as \<and> versioned ns x bs" for ns x as bs
    by (simp add: versioned_def ball_Un)
  show ?thesis
    by (cases "v_roles v"; cases "v_roleBindings v") (simp_all add: all_requests_def v 1 2 3)
qed

text \<open>Where the versions of the records come from.\<close>

lemma sync_requests_origin:
  assumes "sync_requests v rqs (ac, st) = Return (ac', st')" and "record_version st' ns = Some x"
  shows "x = '''' \<or> record_version st ns = Some x \<or>
    (\<exists>rq \<in> set rqs. rq_namespace rq = ns \<and> rq_namespaceResourceVersion rq = x)"
  using assms
proof (induction rqs arbitrary: ac st)
  case (Cons rq rqs)
  from Cons.prems(1) obtain ac1 st1 err where s: "syncRequest v rq (ac, st) = Return ((ac1, st1), err)"
    and r: "sync_requests v rqs (ac1, st1) = Return (ac', st')"
    by auto
  have one: "y = '''' \<or> record_version st ns = Some y \<or> rq_namespace rq = ns \<and> rq_namespaceResourceVersion rq = y"
    if "record_version st1 ns = Some y" for y
    using s
  proof (cases rule: syncRequest_cases)
    case (reviewed users groups objs)
    with that show ?thesis
      by (auto simp: record_version_update_stores record_version_def [of st] split: if_splits option.splits)
  qed (use that in simp_all)
  from Cons.IH [OF r Cons.prems(2)] one [of x] show ?case by auto
qed simp

text \<open>
  A synchronization keeps the watchers following, whatever its reviews do. \<open>lister_view\<close>: the list of
  namespaces and the lister of the watchers agree, and names are unique.
\<close>

definition lister_view :: "sync_view \<Rightarrow> namespace list \<Rightarrow> bool" where
  "lister_view v items \<longleftrightarrow>
     v_namespaces v = Inr items \<and> v_nsGet v = namespace_Get items \<and> distinct (map ns_Name items)"

lemma synchronize_parts:
  assumes inv: "index_inv (ac_stores ac)" and "\<not> skips v ac" and "synchronize v ac = Return ac'"
  obtains ac2 st2 ac3 where
    "sync_requests v (all_requests v) (snd (invalidateCache v ac), base_stores v ac) = Return (ac2, st2)"
    "index_inv st2" "ac_watchers ac2 = ac_watchers ac" "allKnownNamespaces ac2 = allKnownNamespaces ac"
    "notify_deleted v (set_Difference (allKnownNamespaces ac) (seen_names v)) ac2 = Return ac3"
    "ac' = ac3\<lparr>ac_stores := purge_loop (seen_names v) (store_List (reviewRecordStore st2)) st2,
        allKnownNamespaces := seen_names v, lastState := Join (current_versions v) '',''\<rparr>"
proof -
  let ?ac1 = "snd (invalidateCache v ac)" and ?b = "base_stores v ac"
  obtain ac2 st2 ac3 where r: "sync_requests v (all_requests v) (?ac1, ?b) = Return (ac2, st2)"
    and n: "notify_deleted v (set_Difference (allKnownNamespaces ac2) (seen_names v)) ac2 = Return ac3"
    and ac': "ac' = ac3\<lparr>ac_stores := purge_loop (seen_names v) (store_List (reviewRecordStore st2)) st2,
        allKnownNamespaces := seen_names v, lastState := Join (current_versions v) '',''\<rparr>"
    using assms(2,3) by (auto simp: synchronize_run purgeDeletedNamespaces_def)
  have "index_inv ?b"
    using inv by (simp add: base_stores_def index_inv_New)
  note c = sync_requests_correct [OF this r]
  then obtain objs where "ac2 = ?ac1\<lparr>ac_watcherObjects := objs\<rparr>" by blast
  then have "ac_watchers ac2 = ac_watchers ac" "allKnownNamespaces ac2 = allKnownNamespaces ac"
    by (simp_all add: invalidateCache_frame)
  moreover have "index_inv st2" using c by blast
  ultimately show ?thesis
    using r n ac' by (intro that) simp_all
qed

lemma synchronize_purged:
  assumes "index_inv (ac_stores ac)" and "\<not> skips v ac" and "synchronize v ac = Return ac'"
    and "lastKnown (reviewRecordStore (ac_stores ac')) ns \<noteq> None"
  shows "ns \<in> set (seen_names v)"
  using synchronize_state [OF assms(1-3)] assms(4)
  by (auto simp: access_of_def split: option.splits if_splits)

text \<open>What a watcher knows after the purge, when it was on the track before it.\<close>

lemma purged_follows:
  assumes inv: "index_inv st" and st': "st' = purge_loop new (store_List (reviewRecordStore st)) st"
    and kept: "\<forall>x. up_to_date items st' x \<longrightarrow> x \<in> set new" and new: "set new = ns_Name ` set items"
    and t: "tracked items old st w" and user: "w_user w' = w_user w"
    and known: "\<And>x. map_of (w_knownProjects w') x =
      (if x \<in> set old - set new then None else map_of (w_knownProjects w) x)"
  shows "up_to_date items st' x \<Longrightarrow> map_of (w_knownProjects w') x = shown items st' (w_user w') x"
    and "map_of (w_knownProjects w') x \<noteq> None \<Longrightarrow> x \<in> set new"
proof -
  have purged: "access_of st' ns = (if ns \<in> set new then access_of st ns else None)" for ns
    using purge_correct [OF inv, of new ns] by (simp add: st')
  show "map_of (w_knownProjects w') x = shown items st' (w_user w') x" if u: "up_to_date items st' x"
  proof -
    have x: "x \<in> set new" using u kept by blast
    then have "up_to_date items st x"
      using u by (simp add: up_to_date_version st' purge_loop_keeps)
    then have "map_of (w_knownProjects w) x = shown items st (w_user w) x"
      using t by (simp add: tracked_def)
    moreover have "may_see st' u x = may_see st u x" for u
      using purged [of x] x by (simp add: may_see_def access_users_def access_groups_def)
    ultimately show ?thesis
      using x by (simp add: user known shown_def cong: sum.case_cong)
  qed
  show "x \<in> set new" if "map_of (w_knownProjects w') x \<noteq> None"
  proof -
    from that have "x \<in> set old \<longrightarrow> x \<in> set new" "map_of (w_knownProjects w) x \<noteq> None"
      by (auto simp: known split: if_splits)
    then show ?thesis
      using t namespace_Get_Inr new by (force simp: tracked_def)
  qed
qed

lemma synchronize_follows:
  assumes f: "watchers_follow items ac" and lv: "lister_view v items" and ns: "\<not> skips v ac"
    and s: "synchronize v ac = Return ac'"
  shows "watchers_follow items ac'" and "ac_watchers ac' = ac_watchers ac"
    and "\<forall>i \<in> set (ac_watchers ac). informed items (ac_watcherObjects ac i) (ac_watcherObjects ac' i)"
proof -
  have inv: "index_inv (ac_stores ac)" "\<not> watcherLock ac" "distinct (ac_watchers ac)"
    using f by (simp_all add: watchers_follow_def)
  have v: "v_namespaces v = Inr items" "v_nsGet v = namespace_Get items"
    using lv by (simp_all add: lister_view_def)
  let ?new = "seen_names v" and ?old = "allKnownNamespaces ac" and ?st' = "ac_stores ac'"
  have new: "set ?new = ns_Name ` set items"
    by (simp add: seen_names_def v cache_simps)
  obtain ac2 st2 ac3 where
    r: "sync_requests v (all_requests v) (snd (invalidateCache v ac), base_stores v ac) = Return (ac2, st2)"
    and inv2: "index_inv st2" and frame: "ac_watchers ac2 = ac_watchers ac" "allKnownNamespaces ac2 = ?old"
    and n: "notify_deleted v (set_Difference ?old ?new) ac2 = Return ac3"
    and ac': "ac' = ac3\<lparr>ac_stores := purge_loop ?new (store_List (reviewRecordStore st2)) st2,
        allKnownNamespaces := ?new, lastState := Join (current_versions v) '',''\<rparr>"
    by (rule synchronize_parts [OF inv(1) ns s])
  note state = synchronize_state [OF inv(1) ns s]
  have kept: "\<forall>x. up_to_date items ?st' x \<longrightarrow> x \<in> set ?new"
    using synchronize_purged [OF inv(1) ns s] by (auto simp: up_to_date_def)
  have watcher: "watcher_follows items ac' (ac_watcherObjects ac' i) \<and>
      informed items (ac_watcherObjects ac i) (ac_watcherObjects ac' i)" if i: "i \<in> set (ac_watchers ac)" for i
  proof -
    let ?w = "ac_watcherObjects ac i" and ?w2 = "ac_watcherObjects ac2 i" and ?w' = "ac_watcherObjects ac' i"
    have t: "tracked items ?old st2 ?w2" "informed items ?w ?w2"
      using sync_requests_watcher [OF r v(2), of i ?old] tracked_start [OF f i, of v] inv(3) i
      by (simp_all add: invalidateCache_frame)
    have d: "informed items ?w2 ?w'" "w_user ?w' = w_user ?w2" "unscoped ?w'"
      "\<And>x. map_of (w_knownProjects ?w') x =
         (if x \<in> set ?old - set ?new then None else map_of (w_knownProjects ?w2) x)"
      using notify_deleted_watcher [OF n v(2), of i] inv(3) i t(1) frame
      by (simp_all add: tracked_def ac' cache_simps)
    have "?st' = purge_loop ?new (store_List (reviewRecordStore st2)) st2" by (simp add: ac')
    note p = purged_follows [OF inv2 this kept new t(1) d(2,4)]
    have "map_of (w_knownProjects ?w') x = shown items ?st' (w_user ?w') x" if "up_to_date items ?st' x" for x
      using that by (rule p(1))
    moreover have "x \<in> set (allKnownNamespaces ac')" if "map_of (w_knownProjects ?w') x \<noteq> None" for x
      using p(2) [OF that] by (simp add: ac')
    ultimately show ?thesis
      using d(1,3) t(2) informed_trans unfolding watcher_follows_def by blast
  qed
  show "ac_watchers ac' = ac_watchers ac" using state by blast
  show "\<forall>i \<in> set (ac_watchers ac). informed items (ac_watcherObjects ac i) (ac_watcherObjects ac' i)"
    using watcher by blast
  show "watchers_follow items ac'"
    unfolding watchers_follow_def using state inv watcher synchronize_purged [OF inv(1) ns s] by auto
qed

lemma synchronize_versions:
  assumes "index_inv (ac_stores ac)" and "v_namespaces v = Inr items" and "\<not> skips v ac"
    and "synchronize v ac = Return ac'" and "record_version (ac_stores ac') ns = Some x"
  shows "x = '''' \<or> record_version (ac_stores ac) ns = Some x \<or> (\<exists>n \<in> set items. ns_Name n = ns \<and> ns_ResourceVersion n = x)"
proof -
  obtain ac2 st2 ac3 where
    r: "sync_requests v (all_requests v) (snd (invalidateCache v ac), base_stores v ac) = Return (ac2, st2)"
    and ac': "ac' = ac3\<lparr>ac_stores := purge_loop (seen_names v) (store_List (reviewRecordStore st2)) st2,
        allKnownNamespaces := seen_names v, lastState := Join (current_versions v) '',''\<rparr>"
    by (rule synchronize_parts [OF assms(1,3,4)])
  have "ns \<in> set (seen_names v)"
    using synchronize_purged [OF assms(1,3,4)] assms(5) by (auto simp: record_version_def)
  then have "record_version st2 ns = Some x"
    using assms(5) by (simp add: ac' purge_loop_keeps)
  from sync_requests_origin [OF r this]
  show ?thesis
    by (auto simp: base_stores_def record_version_def all_requests_def assms(2) namespace_request_def role_request_def
        binding_request_def split: if_splits sum.splits)
qed

text \<open>When the reviews of the namespaces succeed, a synchronization brings the watchers up to date.\<close>

lemma consistent_lister: "consistent_view v items \<Longrightarrow> lister_view v items"
  by (simp add: consistent_view_def lister_view_def)

lemma synchronize_current:
  assumes f: "watchers_follow items ac" and cv: "consistent_view v items" and ns: "\<not> skips v ac"
    and s: "synchronize v ac = Return ac'"
  shows "watchers_current items ac'"
proof -
  let ?st' = "ac_stores ac'" and ?new = "seen_names v"
  have inv: "index_inv (ac_stores ac)" using f by (simp add: watchers_follow_def)
  have v: "v_namespaces v = Inr items" "distinct (map ns_Name items)"
    using cv by (simp_all add: consistent_view_def)
  have new: "set ?new = ns_Name ` set items"
    by (simp add: seen_names_def v cache_simps)
  note state = synchronize_state [OF inv ns s]
  have follow: "watchers_follow items ac'"
    by (rule synchronize_follows(1) [OF f consistent_lister [OF cv] ns s])
  obtain ac2 st2 ac3 where
    r: "sync_requests v (all_requests v) (snd (invalidateCache v ac), base_stores v ac) = Return (ac2, st2)"
    and ac': "ac' = ac3\<lparr>ac_stores := purge_loop ?new (store_List (reviewRecordStore st2)) st2,
        allKnownNamespaces := ?new, lastState := Join (current_versions v) '',''\<rparr>"
    by (rule synchronize_parts [OF inv ns s])
  have current: "up_to_date items ?st' (ns_Name n)" if n: "n \<in> set items" for n
  proof -
    have "namespace_request n \<in> set (all_requests v)" "ns_ResourceVersion n \<noteq> ''''" "review_of v (ns_Name n) \<noteq> None"
      using n v(1) cv by (auto simp: all_requests_def consistent_view_def list_all_iff)
    then have "record_version st2 (ns_Name n) = Some (ns_ResourceVersion n)"
      by (intro sync_requests_version [OF r versioned_requests [OF cv n]])
        (auto simp: namespace_request_def intro!: bexI [of _ "namespace_request n"])
    then show ?thesis
      using n new namespace_Get_distinct [OF v(2) n] by (simp add: up_to_date_version ac' purge_loop_keeps)
  qed
  have watcher: "map_of (w_knownProjects w) x = shown items ?st' (w_user w) x" if w: "watcher_follows items ac' w" for w x
  proof (cases "x \<in> ns_Name ` set items")
    case True
    with current w show ?thesis by (auto simp: watcher_follows_def)
  next
    case False
    then have "x \<notin> set (allKnownNamespaces ac')" using state new by simp
    with w have "map_of (w_knownProjects w) x = None" by (auto simp: watcher_follows_def)
    moreover have "shown items ?st' (w_user w) x = None"
      using False by (auto simp: shown_def dest: namespace_Get_Inr split: sum.split)
    ultimately show ?thesis by simp
  qed
  have "up_to_date items ?st' x" if "lastKnown (reviewRecordStore ?st') x \<noteq> None" for x
    using synchronize_purged [OF inv ns s that] new current by auto
  moreover have "unscoped w \<and> map_of (w_knownProjects w) = shown items ?st' (w_user w)"
    if "watcher_follows items ac' w" for w
    using watcher [OF that] that by (simp add: watcher_follows_def fun_eq_iff)
  moreover have "set (allKnownNamespaces ac') = ns_Name ` set items"
    using state new by simp
  ultimately show ?thesis
    using follow unfolding watchers_current_def watchers_follow_def by blast
qed

end
