(* ===== verification/Server.thy ===== *)
theory Server
  imports WatchSync
begin

text \<open>
  The cache together with the watches its clients have opened: the goroutines of
  \<^verbatim>\<open>pkg/project/auth/watch.go\<close> interleaved with synchronizations, watch requests and removals, and the
  agreement of what a client is told with what a list request answers.
\<close>

section \<open>The server\<close>

text \<open>
  The cache with the watches its clients have opened: the namespaces the informers show, the state of
  each watch's goroutine, and whether the watch asked for the existing projects. As history, the names
  and versions the informers have shown, and whether a synchronization has reviewed all of what they
  show now.
\<close>

record server =
  sv_items :: "namespace list"
  sv_past :: "(string \<times> string) set"
  sv_fresh :: bool
  sv_cache :: auth_cache
  sv_watches :: "nat \<Rightarrow> watch_state"
  sv_asked :: "nat \<Rightarrow> bool"

definition asks_existing :: "list_options option \<Rightarrow> bool" where
  "asks_existing options \<longleftrightarrow> map_option lo_ResourceVersion options = Some ''0''"

definition shown_versions :: "namespace list \<Rightarrow> (string \<times> string) set" where
  "shown_versions items = (\<lambda>n. (ns_Name n, ns_ResourceVersion n)) ` set items"

definition reviews_succeed :: "sync_view \<Rightarrow> namespace list \<Rightarrow> bool" where
  "reviews_succeed v items \<longleftrightarrow> list_all (\<lambda>n. review_of v (ns_Name n) \<noteq> None) items"

text \<open>
  The steps: the informers show other namespaces, where a version that a namespace has left does not
  come back; a synchronization that does not skip, whatever its reviews find, which sends each registered
  watch its events; a watch request; a step of a goroutine that neither sends for the cache nor
  unregisters; and the goroutine's removal of its watcher.
\<close>

inductive server_reachable :: "server \<Rightarrow> bool" where
  start:
  "server_reachable \<lparr>sv_items = [], sv_past = {}, sv_fresh = True, sv_cache = NewAuthorizationCache objs,
     sv_watches = ss, sv_asked = as\<rparr>"
| informers:
  "server_reachable sv \<Longrightarrow> distinct (map ns_Name items) \<Longrightarrow> list_all (\<lambda>n. ns_ResourceVersion n \<noteq> '''') items \<Longrightarrow>
   shown_versions items \<inter> sv_past sv \<subseteq> shown_versions (sv_items sv) \<Longrightarrow>
   server_reachable (sv\<lparr>sv_items := items, sv_past := sv_past sv \<union> shown_versions items, sv_fresh := False\<rparr>)"
| sync:
  "server_reachable sv \<Longrightarrow> lister_view v (sv_items sv) \<Longrightarrow> \<not> skips v (sv_cache sv) \<Longrightarrow>
   synchronize v (sv_cache sv) = Return ac \<Longrightarrow>
   server_reachable (sv\<lparr>sv_fresh := reviews_succeed v (sv_items sv), sv_cache := ac,
     sv_watches := \<lambda>i. if i \<in> set (ac_watchers ac) then send_all (sv_watches sv i) (ac_watcherObjects ac i)
                        else sv_watches sv i\<rparr>)"
| watch:
  "server_reachable sv \<Longrightarrow> i \<notin> set (ac_watchers (sv_cache sv)) \<Longrightarrow>
   projects_Watch (namespace_Get (sv_items sv)) ctx options i (sv_cache sv) = Return (Inr i, ac) \<Longrightarrow>
   server_reachable (sv\<lparr>sv_cache := ac, sv_watches := (sv_watches sv)(i := watch_start (ac_watcherObjects ac i) hwm),
     sv_asked := (sv_asked sv)(i := asks_existing options)\<rparr>)"
| goroutine:
  "server_reachable sv \<Longrightarrow> watch_step (sv_watches sv i) t \<Longrightarrow> ws_sent t = ws_sent (sv_watches sv i) \<Longrightarrow>
   ws_registered t = ws_registered (sv_watches sv i) \<Longrightarrow>
   server_reachable (sv\<lparr>sv_watches := (sv_watches sv)(i := t),
     sv_cache := (sv_cache sv)\<lparr>ac_watcherObjects := (ac_watcherObjects (sv_cache sv))(i := ws_watcher t)\<rparr>\<rparr>)"
| removed:
  "server_reachable sv \<Longrightarrow> ws_pc (sv_watches sv i) = Removing \<Longrightarrow> RemoveWatcher i (sv_cache sv) = Return ac \<Longrightarrow>
   server_reachable (sv\<lparr>sv_cache := ac,
     sv_watches := (sv_watches sv)(i := (sv_watches sv i)\<lparr>ws_pc := Closing, ws_registered := False\<rparr>)\<rparr>)"

definition watch_ok :: "bool \<Rightarrow> user_project_watcher \<Rightarrow> watch_state \<Rightarrow> bool" where
  "watch_ok asked obj s \<longleftrightarrow> ws_watcher s = obj \<and> ws_registered s \<and>
     (\<exists>user visible listed w. NewUserProjectWatcher user visible listed asked = Return w \<and> watch_reachable w s)"

definition versions_inv :: "server \<Rightarrow> bool" where
  "versions_inv sv \<longleftrightarrow>
     distinct (map ns_Name (sv_items sv)) \<and> list_all (\<lambda>n. ns_ResourceVersion n \<noteq> '''') (sv_items sv) \<and>
     shown_versions (sv_items sv) \<subseteq> sv_past sv \<and>
     (\<forall>ns x. record_version (ac_stores (sv_cache sv)) ns = Some x \<longrightarrow> x = '''' \<or> (ns, x) \<in> sv_past sv)"

definition cache_ok :: "namespace list \<Rightarrow> bool \<Rightarrow> auth_cache \<Rightarrow> bool" where
  "cache_ok items fresh ac \<longleftrightarrow> watchers_follow items ac \<and> (fresh \<longrightarrow> watchers_current items ac)"

definition server_inv :: "server \<Rightarrow> bool" where
  "server_inv sv \<longleftrightarrow> cache_ok (sv_items sv) (sv_fresh sv) (sv_cache sv) \<and> versions_inv sv \<and>
     (\<forall>i \<in> set (ac_watchers (sv_cache sv)). watch_ok (sv_asked sv i) (ac_watcherObjects (sv_cache sv) i) (sv_watches sv i))"

lemma watchers_current_new: "watchers_current [] (NewAuthorizationCache objs)"
  by (simp add: watchers_current_def NewAuthorizationCache_def index_inv_New)

lemma goroutine_frame:
  assumes "watch_step s t" and "ws_sent t = ws_sent s" and "ws_registered t = ws_registered s"
  shows "w_knownProjects (ws_watcher t) = w_knownProjects (ws_watcher s) \<and> w_user (ws_watcher t) = w_user (ws_watcher s) \<and>
    w_visibleNamespaces (ws_watcher t) = w_visibleNamespaces (ws_watcher s)"
  using assms
proof cases
  case (notify items ns users groups registered w')
  from notify(3) show ?thesis
    using assms(2,3) notify(1,2) by (cases rule: notify_cases) auto
qed (auto simp: Stop_def)

lemma shown_version_seen: "shown items st u ns = version_seen (namespace_Get items) (may_see st u) ns"
  by (simp add: shown_def version_seen_def)

lemma find_shown:
  assumes "distinct (map ns_Name listed)"
    and "\<forall>n. n \<in> set listed \<longleftrightarrow> namespace_Get items (ns_Name n) = Inr n \<and> may_see (ac_stores (ac :: auth_cache)) u (ns_Name n)"
  shows "map_option ns_ResourceVersion (find (\<lambda>n. ns_Name n = ns) listed) = shown items (ac_stores ac) u ns"
  using cache_lister.listed_versions [OF assms(1), of "(items, ac)" u ns] assms(2) by (simp add: shown_version_seen)

lemma watch_current:
  assumes inv: "index_inv (ac_stores ac)"
    and w: "projects_Watch (namespace_Get items) ctx options i ac = Return (Inr i, ac')"
  shows "\<exists>w user listed. NewUserProjectWatcher user (NewString [''*'']) listed (asks_existing options) = Return w \<and>
    \<not> watcherLock ac \<and> ac' = ac\<lparr>ac_watcherObjects := (ac_watcherObjects ac)(i := w), ac_watchers := ac_watchers ac @ [i]\<rparr> \<and>
    unscoped w \<and> map_of (w_knownProjects w) = shown items (ac_stores ac) (w_user w)"
proof -
  from w obtain user w where p: "prepare_watch (namespace_Get items) ac user options = Return w"
    and r: "register_watch i w ac = Return ac'"
    by (auto simp: projects_Watch_def split: option.splits)
  obtain listed w' where l: "cache_List (namespace_Get items) ac user = Inr listed"
    and "prepare_watch (namespace_Get items) ac user options = Return w'"
    and w': "w_user w' = user" "w_visibleNamespaces w' = NewString [''*'']"
      "\<And>ns. map_of (w_knownProjects w') ns = version_seen (namespace_Get items) (may_see (ac_stores ac) user) ns"
    by (rule prepare_watch_result [OF inv, of items user options]) simp
  with p have "w' = w" by simp
  have "NewUserProjectWatcher user (NewString [''*'']) (Inr listed) (asks_existing options) = Return w"
    using p l by (cases options) (simp_all add: prepare_watch_def asks_existing_def)
  moreover have "unscoped w" "map_of (w_knownProjects w) = shown items (ac_stores ac) (w_user w)"
    using w' \<open>w' = w\<close> by (simp_all add: unscoped_def cache_simps shown_version_seen fun_eq_iff)
  ultimately show ?thesis
    using r by (auto simp: register_watch_def AddWatcher_def split: if_splits)
qed

text \<open>
  Everything but the informers and the synchronization leaves what the invariant of the cache reads as it
  was, but for a new watcher that knows what its user is shown.
\<close>

definition same_view :: "user_project_watcher \<Rightarrow> user_project_watcher \<Rightarrow> bool" where
  "same_view w w' \<longleftrightarrow> w_knownProjects w' = w_knownProjects w \<and> w_user w' = w_user w \<and>
     w_visibleNamespaces w' = w_visibleNamespaces w"

lemma cache_ok_cong:
  assumes ok: "cache_ok items fresh ac" and st: "ac_stores ac' = ac_stores ac" and "\<not> watcherLock ac'"
    and known: "allKnownNamespaces ac' = allKnownNamespaces ac" and "distinct (ac_watchers ac')"
    and w: "\<And>i. i \<in> set (ac_watchers ac') \<Longrightarrow>
      i \<in> set (ac_watchers ac) \<and> same_view (ac_watcherObjects ac i) (ac_watcherObjects ac' i) \<or>
      unscoped (ac_watcherObjects ac' i) \<and>
      map_of (w_knownProjects (ac_watcherObjects ac' i)) = shown items (ac_stores ac) (w_user (ac_watcherObjects ac' i))"
  shows "cache_ok items fresh ac'"
proof -
  have f: "watchers_follow items ac" using ok by (simp add: cache_ok_def)
  have rec: "lastKnown (reviewRecordStore (ac_stores ac)) ns \<noteq> None \<Longrightarrow> ns \<in> set (allKnownNamespaces ac)" for ns
    using f by (simp add: watchers_follow_def)
  have "watcher_follows items ac' (ac_watcherObjects ac' i)" if i: "i \<in> set (ac_watchers ac')" for i
    using w [OF i]
  proof
    assume "i \<in> set (ac_watchers ac) \<and> same_view (ac_watcherObjects ac i) (ac_watcherObjects ac' i)"
    moreover from this f have "watcher_follows items ac (ac_watcherObjects ac i)"
      by (simp add: watchers_follow_def)
    ultimately show ?thesis
      unfolding watcher_follows_def same_view_def unscoped_def st known by metis
  next
    assume "unscoped (ac_watcherObjects ac' i) \<and>
      map_of (w_knownProjects (ac_watcherObjects ac' i)) = shown items (ac_stores ac) (w_user (ac_watcherObjects ac' i))"
    then show ?thesis
      using rec by (intro shown_follows) (simp_all add: st known)
  qed
  then have "watchers_follow items ac'"
    using f assms(3,5) by (simp add: watchers_follow_def st known)
  moreover have "watchers_current items ac'" if c: "watchers_current items ac"
  proof -
    have "unscoped (ac_watcherObjects ac' i) \<and>
        map_of (w_knownProjects (ac_watcherObjects ac' i)) = shown items (ac_stores ac) (w_user (ac_watcherObjects ac' i))"
      if i: "i \<in> set (ac_watchers ac')" for i
      using w [OF i] c by (auto simp: watchers_current_def same_view_def unscoped_def)
    with c assms(3,5) show ?thesis by (simp add: watchers_current_def st known)
  qed
  ultimately show ?thesis using ok by (simp add: cache_ok_def)
qed

lemma cache_ok_unlocked: "cache_ok items fresh ac \<Longrightarrow>
    index_inv (ac_stores ac) \<and> \<not> watcherLock ac \<and> distinct (ac_watchers ac)"
  by (simp add: cache_ok_def watchers_follow_def)

lemma watch_ok_step:
  "watch_ok asked obj s \<Longrightarrow> watch_step s t \<Longrightarrow> ws_registered t \<Longrightarrow> watch_ok asked (ws_watcher t) t"
  unfolding watch_ok_def by (blast intro: watch_reachable.step)

lemma watch_ok_informed:
  assumes "watch_ok asked obj s" and "informed items obj w'"
  shows "watch_ok asked w' (send_all s w')"
proof -
  from assms(1) obtain user visible listed w where "ws_watcher s = obj" "ws_registered s"
    "NewUserProjectWatcher user visible listed asked = Return w" "watch_reachable w s"
    by (auto simp: watch_ok_def)
  moreover have "watch_reachable w (send_all s w')"
    using informed_reachable assms(2) calculation by blast
  moreover have "ws_watcher (send_all s w') = w' \<and> ws_registered (send_all s w') = ws_registered s"
    by (simp add: send_all_def)
  ultimately show ?thesis unfolding watch_ok_def by blast
qed

lemma server_inv_cong:
  assumes "server_inv sv" and "sv_items sv' = sv_items sv" and "sv_past sv' = sv_past sv" and "sv_fresh sv' = sv_fresh sv"
    and "cache_ok (sv_items sv) (sv_fresh sv) (sv_cache sv')" and "ac_stores (sv_cache sv') = ac_stores (sv_cache sv)"
    and "\<And>i. i \<in> set (ac_watchers (sv_cache sv')) \<Longrightarrow>
      watch_ok (sv_asked sv' i) (ac_watcherObjects (sv_cache sv') i) (sv_watches sv' i)"
  shows "server_inv sv'"
  using assms by (simp add: server_inv_def versions_inv_def)

text \<open>The informers: what is up to date afterwards was so before.\<close>

lemma informers_before:
  assumes inv: "versions_inv sv" and pos: "list_all (\<lambda>n. ns_ResourceVersion n \<noteq> '''') items"
    and move: "shown_versions items \<inter> sv_past sv \<subseteq> shown_versions (sv_items sv)"
    and u: "up_to_date items (ac_stores (sv_cache sv)) ns"
  shows "up_to_date (sv_items sv) (ac_stores (sv_cache sv)) ns \<and>
    shown items (ac_stores (sv_cache sv)) user ns = shown (sv_items sv) (ac_stores (sv_cache sv)) user ns"
proof -
  obtain n where n: "namespace_Get items ns = Inr n"
    "record_version (ac_stores (sv_cache sv)) ns = Some (ns_ResourceVersion n)"
    using u by (auto simp: up_to_date_version)
  have mem: "ns_Name n = ns" "n \<in> set items"
    using namespace_Get_Inr [OF n(1)] by blast+
  then have "ns_ResourceVersion n \<noteq> ''''" using pos by (simp add: list_all_iff)
  then have "(ns, ns_ResourceVersion n) \<in> sv_past sv"
    using inv n(2) by (auto simp: versions_inv_def)
  moreover have "(ns, ns_ResourceVersion n) \<in> shown_versions items"
    using mem by (auto simp: shown_versions_def)
  ultimately have "(ns, ns_ResourceVersion n) \<in> shown_versions (sv_items sv)" using move by blast
  then obtain m where m: "m \<in> set (sv_items sv)" "ns_Name m = ns" "ns_ResourceVersion m = ns_ResourceVersion n"
    by (auto simp: shown_versions_def)
  have "namespace_Get (sv_items sv) ns = Inr m"
    using namespace_Get_distinct [OF _ m(1)] inv m(2) by (simp add: versions_inv_def)
  with n m(3) show ?thesis by (simp add: up_to_date_version shown_def)
qed

lemma server_inv_informers:
  assumes inv: "server_inv sv" and d: "distinct (map ns_Name items)" and pos: "list_all (\<lambda>n. ns_ResourceVersion n \<noteq> '''') items"
    and move: "shown_versions items \<inter> sv_past sv \<subseteq> shown_versions (sv_items sv)"
  shows "server_inv (sv\<lparr>sv_items := items, sv_past := sv_past sv \<union> shown_versions items, sv_fresh := False\<rparr>)"
proof -
  have vi: "versions_inv sv" and f: "watchers_follow (sv_items sv) (sv_cache sv)"
    using inv by (simp_all add: server_inv_def cache_ok_def)
  note before = informers_before [OF vi pos move]
  have "watcher_follows items (sv_cache sv) w" if "watcher_follows (sv_items sv) (sv_cache sv) w" for w
    using that before unfolding watcher_follows_def by metis
  then have "watchers_follow items (sv_cache sv)"
    using f by (simp add: watchers_follow_def)
  with inv vi d pos show ?thesis
    by (auto simp: server_inv_def cache_ok_def versions_inv_def)
qed

lemma server_inv_sync:
  assumes inv: "server_inv sv" and lv: "lister_view v (sv_items sv)" and ns: "\<not> skips v (sv_cache sv)"
    and s: "synchronize v (sv_cache sv) = Return ac"
  shows "server_inv (sv\<lparr>sv_fresh := reviews_succeed v (sv_items sv), sv_cache := ac,
     sv_watches := \<lambda>i. if i \<in> set (ac_watchers ac) then send_all (sv_watches sv i) (ac_watcherObjects ac i)
                        else sv_watches sv i\<rparr>)"
proof -
  have f: "watchers_follow (sv_items sv) (sv_cache sv)" and vi: "versions_inv sv"
    using inv by (simp_all add: server_inv_def cache_ok_def)
  note follows = synchronize_follows [OF f lv ns s]
  have "consistent_view v (sv_items sv)" if "reviews_succeed v (sv_items sv)"
    using that lv vi by (auto simp: consistent_view_def lister_view_def reviews_succeed_def versions_inv_def list_all_iff)
  then have "cache_ok (sv_items sv) (reviews_succeed v (sv_items sv)) ac"
    using follows(1) synchronize_current [OF f _ ns s] by (simp add: cache_ok_def)
  moreover have "x = '''' \<or> (name, x) \<in> sv_past sv" if "record_version (ac_stores ac) name = Some x" for name x
  proof -
    have "index_inv (ac_stores (sv_cache sv))" "v_namespaces v = Inr (sv_items sv)"
      using f lv by (simp_all add: watchers_follow_def lister_view_def)
    from synchronize_versions [OF this ns s that] vi show ?thesis
      unfolding versions_inv_def shown_versions_def by blast
  qed
  moreover have "watch_ok (sv_asked sv i) (ac_watcherObjects ac i) (send_all (sv_watches sv i) (ac_watcherObjects ac i))"
    if "i \<in> set (ac_watchers ac)" for i
    using that follows(2,3) inv
    by (intro watch_ok_informed [of _ "ac_watcherObjects (sv_cache sv) i" _ "sv_items sv"]) (simp_all add: server_inv_def)
  ultimately show ?thesis
    using vi by (simp add: server_inv_def versions_inv_def)
qed

lemma server_inv_watch:
  assumes inv: "server_inv sv" and i: "i \<notin> set (ac_watchers (sv_cache sv))"
    and p: "projects_Watch (namespace_Get (sv_items sv)) ctx options i (sv_cache sv) = Return (Inr i, ac)"
  shows "server_inv (sv\<lparr>sv_cache := ac, sv_watches := (sv_watches sv)(i := watch_start (ac_watcherObjects ac i) hwm),
     sv_asked := (sv_asked sv)(i := asks_existing options)\<rparr>)"
proof -
  let ?old = "sv_cache sv"
  have c: "cache_ok (sv_items sv) (sv_fresh sv) ?old"
    using inv by (simp add: server_inv_def)
  note u = cache_ok_unlocked [OF c]
  from u have "index_inv (ac_stores ?old)" by blast
  from watch_current [OF this p] obtain w user listed where
    w: "NewUserProjectWatcher user (NewString [''*'']) listed (asks_existing options) = Return w"
      "unscoped w" "map_of (w_knownProjects w) = shown (sv_items sv) (ac_stores ?old) (w_user w)"
    and ac: "ac = ?old\<lparr>ac_watcherObjects := (ac_watcherObjects ?old)(i := w), ac_watchers := ac_watchers ?old @ [i]\<rparr>"
    by blast
  have "cache_ok (sv_items sv) (sv_fresh sv) ac"
    by (rule cache_ok_cong [OF c]) (use u i w(2,3) in \<open>auto simp: ac same_view_def\<close>)
  moreover have "watch_ok (asks_existing options) w (watch_start w hwm)"
    unfolding watch_ok_def using w(1) watch_reachable.start [of w hwm] by (auto simp: watch_start_def)
  ultimately show ?thesis
    using inv i by (intro server_inv_cong [OF inv]) (auto simp: ac server_inv_def)
qed

lemma server_inv_goroutine:
  assumes inv: "server_inv sv" and step: "watch_step (sv_watches sv i) t"
    and keep: "ws_sent t = ws_sent (sv_watches sv i)" "ws_registered t = ws_registered (sv_watches sv i)"
  shows "server_inv (sv\<lparr>sv_watches := (sv_watches sv)(i := t),
     sv_cache := (sv_cache sv)\<lparr>ac_watcherObjects := (ac_watcherObjects (sv_cache sv))(i := ws_watcher t)\<rparr>\<rparr>)"
proof -
  let ?old = "sv_cache sv"
  let ?ac = "?old\<lparr>ac_watcherObjects := (ac_watcherObjects ?old)(i := ws_watcher t)\<rparr>"
  have c: "cache_ok (sv_items sv) (sv_fresh sv) ?old"
    and ok: "\<And>j. j \<in> set (ac_watchers ?old) \<Longrightarrow> watch_ok (sv_asked sv j) (ac_watcherObjects ?old j) (sv_watches sv j)"
    using inv by (simp_all add: server_inv_def)
  have "same_view (ac_watcherObjects ?old j) (ac_watcherObjects ?ac j)" if "j \<in> set (ac_watchers ?old)" for j
    using goroutine_frame [OF step keep] ok [OF that] by (auto simp: same_view_def watch_ok_def)
  then have "cache_ok (sv_items sv) (sv_fresh sv) ?ac"
    by (intro cache_ok_cong [OF c]) (use cache_ok_unlocked [OF c] in simp_all)
  moreover have "watch_ok (sv_asked sv i) (ws_watcher t) t" if "i \<in> set (ac_watchers ?old)"
    using watch_ok_step [OF ok [OF that] step] ok [OF that] keep(2) by (simp add: watch_ok_def)
  ultimately show ?thesis
    using ok by (intro server_inv_cong [OF inv]) auto
qed

lemma server_inv_removed:
  assumes inv: "server_inv sv" and r: "RemoveWatcher i (sv_cache sv) = Return ac"
  shows "server_inv (sv\<lparr>sv_cache := ac,
     sv_watches := (sv_watches sv)(i := (sv_watches sv i)\<lparr>ws_pc := Closing, ws_registered := False\<rparr>)\<rparr>)"
proof -
  let ?old = "sv_cache sv"
  have ac: "ac = ?old\<lparr>ac_watchers := remove1 i (ac_watchers ?old)\<rparr>"
    using r by (auto simp: RemoveWatcher_def remove_watcher_remove1 split: if_splits)
  have c: "cache_ok (sv_items sv) (sv_fresh sv) ?old"
    using inv by (simp add: server_inv_def)
  note u = cache_ok_unlocked [OF c]
  then have mem: "set (remove1 i (ac_watchers ?old)) = set (ac_watchers ?old) - {i}" by simp
  have "cache_ok (sv_items sv) (sv_fresh sv) ac"
    by (rule cache_ok_cong [OF c]) (use u mem in \<open>simp_all add: ac same_view_def\<close>)
  with inv mem show ?thesis
    by (intro server_inv_cong [OF inv]) (simp_all add: ac server_inv_def)
qed

lemma server_reachable_inv: "server_reachable sv \<Longrightarrow> server_inv sv"
proof (induction rule: server_reachable.induct)
  case (start objs ss as)
  have "cache_ok [] True (NewAuthorizationCache objs)"
    by (simp add: cache_ok_def current_follows watchers_current_new)
  then show ?case
    by (simp add: server_inv_def versions_inv_def shown_versions_def)
      (simp add: NewAuthorizationCache_def record_version_def)
next
  case (informers sv items)
  then show ?case by (intro server_inv_informers)
next
  case (sync sv v ac)
  then show ?case by (intro server_inv_sync)
next
  case (watch sv i ctx options ac hwm)
  then show ?case by (intro server_inv_watch)
next
  case (goroutine sv i t)
  then show ?case by (intro server_inv_goroutine)
next
  case (removed sv i ac)
  then show ?case by (intro server_inv_removed)
qed

section \<open>Listing and watching agree\<close>


definition sample_options :: list_options where
  "sample_options = \<lparr>lo_LabelSelector = None, lo_FieldSelector = None, lo_ResourceVersion = ''0''\<rparr>"

definition quiet_server :: server where
  "quiet_server = \<lparr>sv_items = [], sv_past = {}, sv_fresh = True, sv_cache = new_cache, sv_watches = \<lambda>i. watch_start (sample_watcher False) 0,
     sv_asked = \<lambda>i. False\<rparr>"

definition first_watcher :: user_project_watcher where
  "first_watcher = \<lparr>w_user = \<lparr>ui_Name = ''ann'', ui_Groups = []\<rparr>, w_visibleNamespaces = [''*''], w_cacheIncoming = [],
      w_cacheError = [], w_outgoingClosed = False, w_userStop = False, w_initialProjects = [], w_knownProjects = []\<rparr>"

definition first_cache :: auth_cache where
  "first_cache = new_cache\<lparr>ac_watcherObjects := (\<lambda>i. sample_watcher False)(0 := first_watcher), ac_watchers := [0]\<rparr>"

lemma first_watch:
  "projects_Watch (namespace_Get []) (Some sample_context) (Some sample_options) 0 new_cache = Return (Inr 0, first_cache)"
proof -
  have "cache_List (namespace_Get []) new_cache \<lparr>ui_Name = ''ann'', ui_Groups = []\<rparr> = Inr []" by code_simp
  then show ?thesis
    by (simp add: projects_Watch_def prepare_watch_def register_watch_def AddWatcher_def NewUserProjectWatcher_def
        sample_context_def sample_options_def first_cache_def first_watcher_def NewAuthorizationCache_def NewString_def)
qed

lemma sample_lister:
  "lister_view (sample_view ''9'' [sample_binding]) [named_namespace ''p'' ''7'']"
  "reviews_succeed (sample_view ''9'' [sample_binding]) [named_namespace ''p'' ''7'']"
  by (simp_all add: lister_view_def reviews_succeed_def sample_view_def review_of_def named_namespace_def)

lemma first_sync:
  "case synchronize (sample_view ''9'' [sample_binding]) first_cache of
     Return ac \<Rightarrow> w_cacheIncoming (ac_watcherObjects ac 0) = [initial_event (named_namespace ''p'' ''7'')] \<and>
       \<not> w_userStop (ac_watcherObjects ac 0) \<and> ac_watchers ac = [0]
   | _ \<Rightarrow> False"
  by code_simp

text \<open>The goroutine of a watch delivers the next event of its buffer.\<close>

lemma server_delivers:
  assumes "server_reachable sv" and "ws_pc (sv_watches sv i) = AtLoop"
    and "w_cacheIncoming (ws_watcher (sv_watches sv i)) = e # rest"
  obtains sv' where "server_reachable sv'" "ac_watchers (sv_cache sv') = ac_watchers (sv_cache sv)"
    "sv_asked sv' = sv_asked sv" "sv_fresh sv' = sv_fresh sv" "ws_pc (sv_watches sv' i) = AtLoop"
    "w_userStop (ws_watcher (sv_watches sv' i)) = w_userStop (ws_watcher (sv_watches sv i))"
    "w_cacheIncoming (ws_watcher (sv_watches sv' i)) = rest"
    "ws_received (sv_watches sv' i) = ws_received (sv_watches sv i) @ [e]"
proof -
  let ?s = "sv_watches sv i"
  define s1 where "s1 = ?s\<lparr>ws_pc := Emitting e AtLoop, ws_watcher := (ws_watcher ?s)\<lparr>w_cacheIncoming := rest\<rparr>,
     ws_hwm := snd (HighWaterMark_Update (ws_hwm ?s) (int (length rest)))\<rparr>"
  define s2 where "s2 = s1\<lparr>ws_pc := AtLoop, ws_received := ws_received s1 @ [e]\<rparr>"
  define move where "move = (\<lambda>t (sv :: server). sv\<lparr>sv_watches := (sv_watches sv)(i := t),
     sv_cache := (sv_cache sv)\<lparr>ac_watcherObjects := (ac_watcherObjects (sv_cache sv))(i := ws_watcher t)\<rparr>\<rparr>)"
  have "watch_step ?s s1"
    unfolding s1_def by (rule watch_step.loop_event [OF assms(2,3)])
  from server_reachable.goroutine [OF assms(1) this]
  have 1: "server_reachable (move s1 sv)"
    by (simp add: move_def s1_def)
  have "watch_step (sv_watches (move s1 sv) i) s2"
    using watch_step.emit_send [of s1 e AtLoop] by (simp add: move_def s2_def s1_def)
  from server_reachable.goroutine [OF 1 this]
  have "server_reachable (move s2 (move s1 sv))"
    by (simp add: move_def s2_def)
  then show ?thesis
    by (rule that) (simp_all add: move_def s2_def s1_def)
qed

text \<open>A watch on the new cache, whose goroutine has nothing to do.\<close>

lemma first_server:
  obtains sv where "server_reachable sv" "sv_cache sv = first_cache" "sv_items sv = []" "sv_past sv = {}" "sv_asked sv 0"
    "sv_watches sv 0 = (watch_start first_watcher 0)\<lparr>ws_pc := AtLoop\<rparr>"
proof -
  let ?s = "watch_start first_watcher 0"
  define sv1 where "sv1 = \<lparr>sv_items = [], sv_past = {}, sv_fresh = True, sv_cache = first_cache,
     sv_watches = (\<lambda>i. watch_start (sample_watcher False) 0)(0 := ?s), sv_asked = (\<lambda>i. False)(0 := True)\<rparr>"
  have o: "ac_watcherObjects first_cache 0 = first_watcher" by (simp add: first_cache_def)
  have a: "asks_existing (Some sample_options)" by (simp add: asks_existing_def sample_options_def)
  have q: "server_reachable quiet_server"
    unfolding quiet_server_def by (rule server_reachable.start)
  have "projects_Watch (namespace_Get (sv_items quiet_server)) (Some sample_context) (Some sample_options) 0
      (sv_cache quiet_server) = Return (Inr 0, first_cache)"
    by (simp add: quiet_server_def first_watch)
  from server_reachable.watch [OF q _ this, of 0]
  have 1: "server_reachable sv1"
    by (simp add: quiet_server_def sv1_def o a)
  have "watch_step (sv_watches sv1 0) (?s\<lparr>ws_pc := AtLoop\<rparr>)"
    using watch_step.initial_done [of ?s 0] by (simp add: sv1_def watch_start_def first_watcher_def)
  from server_reachable.goroutine [OF 1 this]
  have "server_reachable (sv1\<lparr>sv_watches := (sv_watches sv1)(0 := ?s\<lparr>ws_pc := AtLoop\<rparr>), sv_cache := first_cache\<rparr>)"
    by (simp add: sv1_def watch_start_def fun_upd_idem o)
  then show ?thesis
    by (rule that) (simp_all add: sv1_def)
qed

text \<open>
  The informers then show a project, a synchronization reviews it, and the goroutine delivers its event.
\<close>

lemma sample_server:
  obtains sv where "server_reachable sv" "ac_watchers (sv_cache sv) = [0]" "sv_asked sv 0" "sv_fresh sv"
    "\<not> w_userStop (ws_watcher (sv_watches sv 0))" "ws_pc (sv_watches sv 0) = AtLoop"
    "w_cacheIncoming (ws_watcher (sv_watches sv 0)) = []"
    "ws_received (sv_watches sv 0) = [initial_event (named_namespace ''p'' ''7'')]"
proof -
  let ?v = "sample_view ''9'' [sample_binding]"
  obtain ac where ac: "synchronize ?v first_cache = Return ac"
    "w_cacheIncoming (ac_watcherObjects ac 0) = [initial_event (named_namespace ''p'' ''7'')]"
    "\<not> w_userStop (ac_watcherObjects ac 0)" "ac_watchers ac = [0]"
    using first_sync by (auto split: outcome.splits)
  obtain sv where sv: "server_reachable sv" "sv_cache sv = first_cache" "sv_items sv = []" "sv_past sv = {}" "sv_asked sv 0"
    "sv_watches sv 0 = (watch_start first_watcher 0)\<lparr>ws_pc := AtLoop\<rparr>"
    by (rule first_server)
  have n: "\<not> skips ?v (sv_cache sv)"
    unfolding sv(2) by code_simp
  let ?items = "[named_namespace ''p'' ''7'']"
  define sv1 where "sv1 = sv\<lparr>sv_items := ?items, sv_past := sv_past sv \<union> shown_versions ?items, sv_fresh := False\<rparr>"
  have 1: "server_reachable sv1"
    unfolding sv1_def by (rule server_reachable.informers [OF sv(1)]) (simp_all add: sv(4))
  have i: "sv_items sv1 = ?items" "sv_cache sv1 = first_cache" by (simp_all add: sv1_def sv(2))
  define sv2 where "sv2 = sv1\<lparr>sv_fresh := reviews_succeed ?v (sv_items sv1), sv_cache := ac,
      sv_watches := \<lambda>i. if i \<in> set (ac_watchers ac) then send_all (sv_watches sv1 i) (ac_watcherObjects ac i)
                        else sv_watches sv1 i\<rparr>"
  have r: "server_reachable sv2"
    unfolding sv2_def
    by (rule server_reachable.sync [OF 1]) (use sample_lister(1) n ac(1) in \<open>simp_all add: i sv(2)\<close>)
  have s: "sv_watches sv2 0 = send_all ((watch_start first_watcher 0)\<lparr>ws_pc := AtLoop\<rparr>) (ac_watcherObjects ac 0)"
    and f: "sv_cache sv2 = ac" "sv_asked sv2 = sv_asked sv" "sv_fresh sv2"
    using sample_lister(2) by (simp_all add: ac(4) sv(6) sv2_def i) (simp_all add: sv1_def sv(6))
  have "ws_pc (sv_watches sv2 0) = AtLoop"
    "w_cacheIncoming (ws_watcher (sv_watches sv2 0)) = [initial_event (named_namespace ''p'' ''7'')]"
    by (simp_all add: s send_all_def ac(2))
  from server_delivers [OF r this] obtain sv' where
    "server_reachable sv'" "ac_watchers (sv_cache sv') = ac_watchers (sv_cache sv2)"
    "sv_asked sv' = sv_asked sv2" "sv_fresh sv' = sv_fresh sv2" "ws_pc (sv_watches sv' 0) = AtLoop"
    "w_userStop (ws_watcher (sv_watches sv' 0)) = w_userStop (ws_watcher (sv_watches sv2 0))"
    "w_cacheIncoming (ws_watcher (sv_watches sv' 0)) = []"
    "ws_received (sv_watches sv' 0) = ws_received (sv_watches sv2 0) @ [initial_event (named_namespace ''p'' ''7'')]"
    .
  then show ?thesis
    by (intro that [of sv']) (simp_all add: f s ac sv(5) send_all_def watch_start_def)
qed


end
