(* ===== verification/Startup.thy ===== *)
theory Startup
  imports ProjectRequestStorage Server
begin

text \<open>
  \<^verbatim>\<open>cmd/project-server/server.go\<close>, \<^verbatim>\<open>pkg/cmd/server/start.go\<close> and \<^verbatim>\<open>pkg/apiserver/apiserver.go\<close>: how the
  process sets the server up and serves. The generic API server, the client and the flags are libraries:
  their calls are the operations of \<open>server_lib\<close>, on a state \<open>'s\<close> of the process.
\<close>

section \<open>What is installed\<close>

text \<open>
  The storages with what they are wired to: the client and its namespaces, the server's authorizer, the
  authorization cache and the namespace lister of the informers.
\<close>

datatype dependency = KubeClient | KubeNamespaces | GenericAuthorizer | SharedAuthCache | SharedNamespaceLister

datatype rest_strategy = ProjectStrategy

record project_REST =
  rest_client :: dependency
  rest_lister :: dependency
  rest_createStrategy :: rest_strategy
  rest_updateStrategy :: rest_strategy
  rest_authCache :: dependency
  rest_nsLister :: dependency

record request_REST =
  rr_message :: string
  rr_authorizer :: dependency
  rr_kubeClient :: dependency

definition projects_NewREST :: "dependency \<Rightarrow> dependency \<Rightarrow> dependency \<Rightarrow> dependency \<Rightarrow> project_REST" where
  "projects_NewREST client lister authCache nsLister =
     \<lparr>rest_client = client, rest_lister = lister, rest_createStrategy = ProjectStrategy, rest_updateStrategy = ProjectStrategy,
      rest_authCache = authCache, rest_nsLister = nsLister\<rparr>"

definition requests_NewREST :: "string \<Rightarrow> dependency \<Rightarrow> dependency \<Rightarrow> request_REST" where
  "requests_NewREST message authorizer kubeClient =
     \<lparr>rr_message = message, rr_authorizer = authorizer, rr_kubeClient = kubeClient\<rparr>"

datatype rest_storage = RequestREST request_REST | ProjectREST project_REST

record api_group_info =
  ag_Group :: string
  ag_Version :: string
  ag_Storage :: "(string \<times> (string \<times> rest_storage) list) list"

datatype post_start_hook = StartInformers | StartAuthorizationCache

text \<open>The recommended options, with or without those of etcd; the flags change others, in the state.\<close>

record project_server_options =
  opt_Etcd :: bool
  opt_DefaultOffPlugins :: "string list"

record 's server_lib =
  lib_ParseFlags :: "string list \<Rightarrow> 's \<Rightarrow> go_error option \<times> 's"
  lib_SelfSignedCerts :: "string \<Rightarrow> 's \<Rightarrow> go_error option \<times> 's"
  lib_ApplyRecommended :: "bool \<Rightarrow> 's \<Rightarrow> go_error option \<times> 's"
  lib_AdmissionToScheme :: "'s \<Rightarrow> go_error option \<times> 's"
  lib_ApplyAdmission :: "string list \<Rightarrow> 's \<Rightarrow> go_error option \<times> 's"
  lib_CompleteConfig :: "'s \<Rightarrow> 's"
  lib_InClusterConfig :: "'s \<Rightarrow> go_error option \<times> 's"
  lib_NewForConfig :: "'s \<Rightarrow> go_error option \<times> 's"
  lib_NewGenericServer :: "string \<Rightarrow> 's \<Rightarrow> go_error option \<times> 's"
  lib_InstallAPIGroup :: "api_group_info \<Rightarrow> 's \<Rightarrow> go_error option \<times> 's"
  lib_AddPostStartHook :: "string \<Rightarrow> post_start_hook \<Rightarrow> 's \<Rightarrow> go_error option \<times> 's"
  lib_Serve :: "'s \<Rightarrow> go_error option \<times> 's"

section \<open>Setting up\<close>

text \<open>\<^verbatim>\<open>if err := m(); err != nil { return err }\<close>.\<close>

fun check_error :: "('s \<Rightarrow> go_error option \<times> 's) \<Rightarrow> ('s \<Rightarrow> go_error option \<times> 's) \<Rightarrow> 's \<Rightarrow> go_error option \<times> 's" where
  "check_error m k s = (case m s of (Some err, s') \<Rightarrow> (Some err, s') | (None, s') \<Rightarrow> k s')"

definition NewCommandOptions :: project_server_options where
  "NewCommandOptions = \<lparr>opt_Etcd = False, opt_DefaultOffPlugins = [''Initializers'', ''NamespaceLifecycle'']\<rparr>"

text \<open>\<^verbatim>\<open>completedConfig.New\<close>, but for the subject locator and the cache (\<open>server_evaluator\<close>, \<open>server_reviewer\<close>).\<close>

definition project_group_info :: api_group_info where
  "project_group_info =
     \<lparr>ag_Group = GroupName, ag_Version = ''v1'',
      ag_Storage =
        [(''v1'',
          [(''projectrequests'', RequestREST (requests_NewREST '''' GenericAuthorizer KubeClient)),
           (''projects'', ProjectREST (projects_NewREST KubeNamespaces SharedAuthCache SharedAuthCache SharedNamespaceLister))])]\<rparr>"

definition New_server :: "'s server_lib \<Rightarrow> 's \<Rightarrow> go_error option \<times> 's" where
  "New_server lib =
     check_error (lib_InClusterConfig lib)
       (check_error (lib_NewForConfig lib)
         (check_error (lib_NewGenericServer lib ''kube-project-apiserver'')
           (check_error (lib_InstallAPIGroup lib project_group_info)
             (\<lambda>s. let (_, s) = lib_AddPostStartHook lib ''start-informers'' StartInformers s;
                      (_, s) = lib_AddPostStartHook lib ''start-authorization-cache'' StartAuthorizationCache s
                  in (None, s)))))"

definition RunProjectServer :: "project_server_options \<Rightarrow> 's server_lib \<Rightarrow> 's \<Rightarrow> go_error option \<times> 's" where
  "RunProjectServer options lib s =
     (case lib_SelfSignedCerts lib ''localhost'' s of
        (Some err, s) \<Rightarrow> (Some (Errorf ''error creating self-signed certificates: %v'' [] [err]), s)
      | (None, s) \<Rightarrow>
          check_error (lib_ApplyRecommended lib (opt_Etcd options))
            (\<lambda>s. let (_, s) = lib_AdmissionToScheme lib s
                 in check_error (lib_ApplyAdmission lib (opt_DefaultOffPlugins options))
                      (\<lambda>s. check_error (New_server lib)
                        (\<lambda>s. let (_, s) = lib_Serve lib s in (None, s)) (lib_CompleteConfig lib s)) s) s)"

section \<open>The command\<close>

text \<open>
  The process ends with an exit status: \<^verbatim>\<open>glog.Fatal\<close> exits with 255, \<^verbatim>\<open>main\<close> with 1 when the command does
  not execute, and returns otherwise.
\<close>

definition options_Complete :: "project_server_options \<Rightarrow> go_error option" where
  "options_Complete opts = None"

definition options_Validate :: "project_server_options \<Rightarrow> string list \<Rightarrow> go_error option" where
  "options_Validate opts args = None"

definition command_Run :: "project_server_options \<Rightarrow> 's server_lib \<Rightarrow> string list \<Rightarrow> 's \<Rightarrow> int \<times> 's" where
  "command_Run opts lib args s =
     (if options_Complete opts \<noteq> None then (255, s)
      else if options_Validate opts args \<noteq> None then (255, s)
      else case RunProjectServer opts lib s of
             (Some err, s) \<Rightarrow> (255, s)
           | (None, s) \<Rightarrow> (0, s))"

definition main :: "'s server_lib \<Rightarrow> string list \<Rightarrow> 's \<Rightarrow> int \<times> 's" where
  "main lib args s =
     (case lib_ParseFlags lib args s of
        (Some err, s) \<Rightarrow> (1, s)
      | (None, s) \<Rightarrow> command_Run NewCommandOptions lib args s)"

section \<open>The cache's goroutine\<close>

text \<open>
  \<^verbatim>\<open>Run\<close> starts a goroutine that synchronizes for ever; its first rounds, with what the informers show at
  each of them.
\<close>

fun cache_Run :: "sync_view list \<Rightarrow> auth_cache \<Rightarrow> auth_cache outcome" where
  "cache_Run [] ac = Return ac"
| "cache_Run (v # vs) ac = bind_outcome (synchronize v ac) (cache_Run vs)"

lemma cache_Run_append: "cache_Run (vs @ vs') ac = bind_outcome (cache_Run vs ac) (cache_Run vs')"
  by (induction vs ac rule: cache_Run.induct) (simp_all add: bind_outcome_assoc cong: bind_outcome_cong)

lemma cache_Run_reachable: "cache_reachable ac \<Longrightarrow> cache_Run vs ac = Return ac' \<Longrightarrow> cache_reachable ac'"
  by (induction vs ac rule: cache_Run.induct) (auto intro: cache_reachable.sync)

lemma cache_Run_same: "synchronize v ac = Return ac \<Longrightarrow> cache_Run (replicate n v) ac = Return ac"
  by (induction n) simp_all

lemma synchronize_again:
  assumes "synchronize v ac = Return ac'"
  shows "synchronize v ac' = Return ac'"
  using synchronize_lastState [OF assms] by (intro synchronize_skips) (simp add: skips_def)

text \<open>Once the informers rest, one round is enough: the rounds after it change nothing.\<close>

lemma cache_Run_settles:
  "cache_Run (vs @ replicate (Suc n) v) ac = cache_Run (vs @ [v]) ac"
proof (cases "cache_Run vs ac")
  case (Return ac1)
  show ?thesis
  proof (cases "synchronize v ac1")
    case (Return ac2)
    with synchronize_again [OF Return] cache_Run_same
 [of v ac2 n] show ?thesis
      by (simp add: cache_Run_append \<open>cache_Run vs ac = Return ac1\<close>)
  qed (simp_all add: cache_Run_append Return)
qed (simp_all add: cache_Run_append)

section \<open>Properties\<close>

text \<open>
  The reference: a list of calls, each with whether its error is looked at, run up to the first error.
\<close>

datatype 's startup_step =
    Checked "'s \<Rightarrow> go_error option \<times> 's"
  | Unchecked "'s \<Rightarrow> go_error option \<times> 's"
  | Always "'s \<Rightarrow> 's"

fun run_steps :: "'s startup_step list \<Rightarrow> 's \<Rightarrow> bool \<times> 's" where
  "run_steps [] s = (True, s)"
| "run_steps (Checked m # ms) s = (case m s of (Some err, s') \<Rightarrow> (False, s') | (None, s') \<Rightarrow> run_steps ms s')"
| "run_steps (Unchecked m # ms) s = run_steps ms (snd (m s))"
| "run_steps (Always m # ms) s = run_steps ms (m s)"

definition startup_steps :: "'s server_lib \<Rightarrow> 's startup_step list" where
  "startup_steps lib =
     [Checked (lib_SelfSignedCerts lib ''localhost''), Checked (lib_ApplyRecommended lib False),
      Unchecked (lib_AdmissionToScheme lib), Checked (lib_ApplyAdmission lib [''Initializers'', ''NamespaceLifecycle'']),
      Always (lib_CompleteConfig lib), Checked (lib_InClusterConfig lib), Checked (lib_NewForConfig lib),
      Checked (lib_NewGenericServer lib ''kube-project-apiserver''), Checked (lib_InstallAPIGroup lib project_group_info),
      Unchecked (lib_AddPostStartHook lib ''start-informers'' StartInformers),
      Unchecked (lib_AddPostStartHook lib ''start-authorization-cache'' StartAuthorizationCache),
      Unchecked (lib_Serve lib)]"


end
