(* ===== verification/GoMemory.thy ===== *)
theory GoMemory
  imports Prelude
begin

text \<open>
  Memory for the code whose point is what it shares: the generated deep copies and the conversions. A
  memory is the list of its cells, an address an index; a nil pointer, slice or map is \<^const>\<open>None\<close>. A
  view reads a value with everything it points to. \<open>deep_copy\<close> is the contract of a copying function:
  the copy views as the original does, and shares no cell with what was there before.
\<close>

section \<open>Cells\<close>

type_synonym addr = nat

type_synonym 'c memory = "'c list"

definition load :: "'c memory \<Rightarrow> addr \<Rightarrow> 'c option" where
  "load h a = (if a < length h then Some (h ! a) else None)"

definition alloc :: "'c \<Rightarrow> 'c memory \<Rightarrow> addr \<times> 'c memory" where
  "alloc c h = (length h, h @ [c])"

definition store :: "addr \<Rightarrow> 'c \<Rightarrow> 'c memory \<Rightarrow> 'c memory" where
  "store a c h = h[a := c]"

text \<open>Code that works on the memory.\<close>

type_synonym ('c, 'a) mem_code = "'c memory \<Rightarrow> ('a \<times> 'c memory) outcome"

definition return_mem :: "'a \<Rightarrow> ('c, 'a) mem_code" where
  "return_mem x h = Return (x, h)"

definition bind_mem :: "('c, 'a) mem_code \<Rightarrow> ('a \<Rightarrow> ('c, 'b) mem_code) \<Rightarrow> ('c, 'b) mem_code" where
  "bind_mem m k h = bind_outcome (m h) (\<lambda>(x, h'). k x h')"

definition new_cell :: "'c \<Rightarrow> ('c, addr) mem_code" where
  "new_cell c h = Return (alloc c h)"

definition write_cell :: "addr \<Rightarrow> 'c \<Rightarrow> ('c, unit) mem_code" where
  "write_cell a c h = Return ((), store a c h)"

text \<open>Reading a cell of a kind; a Go program has no address that is not of its kind.\<close>

definition read_cell :: "('c \<Rightarrow> 'v option) \<Rightarrow> addr \<Rightarrow> ('c, 'v) mem_code" where
  "read_cell get a h =
     (case load h a of
        None \<Rightarrow> Panic ''invalid memory address or nil pointer dereference''
      | Some c \<Rightarrow> (case get c of
          None \<Rightarrow> Panic ''invalid memory address or nil pointer dereference''
        | Some v \<Rightarrow> Return (v, h)))"

lemma load_simps [simp]:
  "load (h @ [c]) (length h) = Some c"
  "a < length h \<Longrightarrow> load (store a c h) a = Some c"
  "a \<noteq> b \<Longrightarrow> load (store a c h) b = load h b"
  "load (h @ h') b = (if b < length h then load h b else load h' (b - length h))"
  "load (c # h) 0 = Some c"
  "load (c # h) (Suc i) = load h i"
  by (auto simp: load_def store_def nth_append)

lemma length_store [simp]: "length (store a c h) = length h"
  by (simp add: store_def)

lemma load_Some_less: "load h a = Some c \<Longrightarrow> a < length h"
  by (auto simp: load_def split: if_splits)

lemma bind_mem_assoc: "bind_mem (bind_mem m k) k' = bind_mem m (\<lambda>x. bind_mem (k x) k')"
  by (rule ext) (simp add: bind_mem_def bind_outcome_assoc split_def)

lemma bind_mem_return [simp]: "bind_mem (return_mem x) k = k x" "bind_mem m return_mem = m"
proof -
  show "bind_mem (return_mem x) k = k x"
    by (rule ext) (simp add: bind_mem_def return_mem_def)
  show "bind_mem m return_mem = m"
  proof
    fix h
    show "bind_mem m return_mem h = m h"
      by (cases "m h") (simp_all add: bind_mem_def return_mem_def split_def)
  qed
qed

section \<open>Agreement and privacy\<close>

definition agree :: "addr set \<Rightarrow> 'c memory \<Rightarrow> 'c memory \<Rightarrow> bool" where
  "agree A h h' \<longleftrightarrow> (\<forall>a \<in> A. load h a = load h' a)"

text \<open>The value reads as \<open>a\<close> whatever happens to the cells outside \<open>A\<close>.\<close>

definition within :: "('c memory \<Rightarrow> 'v \<Rightarrow> 'a option) \<Rightarrow> addr set \<Rightarrow> 'c memory \<Rightarrow> 'v \<Rightarrow> 'a \<Rightarrow> bool" where
  "within view A h v a \<longleftrightarrow> (\<forall>h'. agree A h h' \<longrightarrow> view h' v = Some a)"

abbreviation cells :: "'c memory \<Rightarrow> addr set" where
  "cells h \<equiv> {..<length h}"

abbreviation new_cells :: "'c memory \<Rightarrow> 'c memory \<Rightarrow> addr set" where
  "new_cells h h' \<equiv> {length h..<length h'}"

lemma agree_refl [simp]: "agree A h h"
  by (simp add: agree_def)

lemma agree_prefix: "prefix h h' \<Longrightarrow> agree (cells h) h h'"
  by (auto simp: agree_def load_def prefix_def nth_append)

lemma agree_store: "a \<notin> A \<Longrightarrow> agree A h (store a c h)"
  by (auto simp: agree_def intro: load_simps(3) [symmetric])

lemma within_view: "within view A h v a \<Longrightarrow> view h v = Some a"
  by (simp add: within_def)

lemma within_agree: "within view A h v a \<Longrightarrow> agree A h h' \<Longrightarrow> within view A h' v a"
  by (auto simp: within_def agree_def)

lemma within_mono: "within view A h v a \<Longrightarrow> A \<subseteq> B \<Longrightarrow> within view B h v a"
  by (auto simp: within_def agree_def)

lemma prefix_store: "prefix h h' \<Longrightarrow> length h \<le> a \<Longrightarrow> prefix h (store a c h')"
  by (auto simp: prefix_def store_def list_update_append)

lemma prefix_length_mem: "prefix h h' \<Longrightarrow> length h \<le> length h'"
  by (rule prefix_length_le)

section \<open>The contract of a deep copy\<close>

definition deeply_copied :: "('c memory \<Rightarrow> 'v \<Rightarrow> 'a option) \<Rightarrow> 'a \<Rightarrow> 'v \<Rightarrow> 'c memory \<Rightarrow> 'v \<Rightarrow> 'c memory \<Rightarrow> bool" where
  "deeply_copied view a v h v' h' \<longleftrightarrow>
     prefix h h' \<and> within view (cells h) h' v a \<and> within view (new_cells h h') h' v' a"

locale deep_copy =
  fixes view :: "'c memory \<Rightarrow> 'v \<Rightarrow> 'a option"
    and copy :: "'v \<Rightarrow> ('c, 'v) mem_code"
  assumes view_local: "view h v = Some a \<Longrightarrow> agree (cells h) h h' \<Longrightarrow> view h' v = Some a"
    and copy_new: "view h v = Some a \<Longrightarrow>
      \<exists>v' h'. copy v h = Return (v', h') \<and> prefix h h' \<and> within view (new_cells h h') h' v' a"
begin

text \<open>The whole contract in one statement: no cell of the memory is changed, and either side stays as it is
  when cells of the other are written.\<close>

lemma copies:
  assumes "view h v = Some a"
  shows "\<exists>v' h'. copy v h = Return (v', h') \<and> deeply_copied view a v h v' h'"
proof -
  from copy_new [OF assms] obtain v' h' where
    c: "copy v h = Return (v', h')" "prefix h h'" "within view (new_cells h h') h' v' a" by blast
  have "within view (cells h) h v a"
    unfolding within_def using view_local [OF assms] by blast
  then have "within view (cells h) h' v a"
    using agree_prefix [OF c(2)] by (rule within_agree)
  with c show ?thesis by (auto simp: deeply_copied_def)
qed

lemma view_within: "view h v = Some a \<Longrightarrow> within view (cells h) h v a"
  unfolding within_def using view_local by blast

text \<open>The original reads as before, also when cells that were not there are written.\<close>

lemma original_kept:
  assumes "view h v = Some a" and "copy v h = Return (v', h')" and "agree (cells h) h' h''"
  shows "view h'' v = Some a"
proof -
  from copy_new [OF assms(1)] assms(2) have "agree (cells h) h h'"
    by (auto intro: agree_prefix)
  with assms(3) have "agree (cells h) h h''" by (simp add: agree_def)
  with assms(1) show ?thesis by (rule view_local)
qed

text \<open>The copy reads as the original did, also when cells that were there before are written.\<close>

lemma copy_private:
  assumes "view h v = Some a" and "copy v h = Return (v', h')" and "agree (new_cells h h') h' h''"
  shows "view h'' v' = Some a"
  using copy_new [OF assms(1)] assms(2,3) by (auto simp: within_def)

end

section \<open>Copies of composite values\<close>

text \<open>Values without pointers are copied by assignment.\<close>

definition flat_view :: "'c memory \<Rightarrow> 'v \<Rightarrow> 'v option" where
  "flat_view h v = Some v"

lemma deep_copy_flat: "deep_copy flat_view return_mem"
  by unfold_locales (auto simp: flat_view_def return_mem_def within_def)

text \<open>Two parts, one after the other.\<close>

definition pair_view :: "('c memory \<Rightarrow> 'v \<Rightarrow> 'a option) \<Rightarrow> ('c memory \<Rightarrow> 'w \<Rightarrow> 'b option)
    \<Rightarrow> 'c memory \<Rightarrow> 'v \<times> 'w \<Rightarrow> ('a \<times> 'b) option" where
  "pair_view f g h p = (case f h (fst p) of None \<Rightarrow> None | Some a \<Rightarrow> map_option (Pair a) (g h (snd p)))"

definition pair_copy :: "('v \<Rightarrow> ('c, 'v) mem_code) \<Rightarrow> ('w \<Rightarrow> ('c, 'w) mem_code) \<Rightarrow> 'v \<times> 'w \<Rightarrow> ('c, 'v \<times> 'w) mem_code" where
  "pair_copy f g p = bind_mem (f (fst p)) (\<lambda>v. bind_mem (g (snd p)) (\<lambda>w. return_mem (v, w)))"

lemma pair_view_Some [simp]:
  "pair_view f g h p = Some ab \<longleftrightarrow> f h (fst p) = Some (fst ab) \<and> g h (snd p) = Some (snd ab)"
  by (cases ab) (auto simp: pair_view_def split: option.splits)

lemma within_pair:
  "within f A h v a \<Longrightarrow> within g A h w b \<Longrightarrow> within (pair_view f g) A h (v, w) (a, b)"
  by (simp add: within_def)

lemma deep_copy_pair:
  assumes f: "deep_copy f cf" and g: "deep_copy g cg"
  shows "deep_copy (pair_view f g) (pair_copy cf cg)"
proof
  fix h h' p ab
  assume p: "pair_view f g h p = Some ab" and a: "agree (cells h) h h'"
  then have "f h (fst p) = Some (fst ab)" "g h (snd p) = Some (snd ab)" by simp_all
  from deep_copy.view_local [OF f this(1) a] deep_copy.view_local [OF g this(2) a]
  show "pair_view f g h' p = Some ab" by simp
next
  fix h p ab
  assume "pair_view f g h p = Some ab"
  then have v: "f h (fst p) = Some (fst ab)" "g h (snd p) = Some (snd ab)" by simp_all
  obtain v' h1 where 1: "cf (fst p) h = Return (v', h1)" "prefix h h1" "within f (new_cells h h1) h1 v' (fst ab)"
    using deep_copy.copy_new [OF f v(1)] by blast
  have "g h1 (snd p) = Some (snd ab)"
    using deep_copy.view_local [OF g v(2)] agree_prefix [OF 1(2)] by blast
  then obtain w' h2 where 2: "cg (snd p) h1 = Return (w', h2)" "prefix h1 h2" "within g (new_cells h1 h2) h2 w' (snd ab)"
    using deep_copy.copy_new [OF g] by blast
  have len: "length h \<le> length h1" "length h1 \<le> length h2"
    using 1(2) 2(2) by (auto intro: prefix_length_le)
  have "agree (new_cells h h1) h1 h2"
    using agree_prefix [OF 2(2)] len by (simp add: agree_def)
  then have "within f (new_cells h h1) h2 v' (fst ab)"
    by (rule within_agree [OF 1(3)])
  then have "within f (new_cells h h2) h2 v' (fst ab)"
    by (rule within_mono) (use len in auto)
  moreover have "within g (new_cells h h2) h2 w' (snd ab)"
    by (rule within_mono [OF 2(3)]) (use len in auto)
  ultimately have "within (pair_view f g) (new_cells h h2) h2 (v', w') ab"
    using within_pair [of f _ h2 v' "fst ab" g w' "snd ab"] by simp
  moreover have "prefix h h2" using 1(2) 2(2) by (rule prefix_order.trans)
  moreover have "pair_copy cf cg p h = Return ((v', w'), h2)"
    by (simp add: pair_copy_def bind_mem_def return_mem_def 1(1) 2(1))
  ultimately show "\<exists>v' h'. pair_copy cf cg p h = Return (v', h') \<and> prefix h h' \<and>
      within (pair_view f g) (new_cells h h') h' v' ab" by blast
qed

text \<open>
  A struct: its parts that hold pointers are copied, the others assigned. \<open>parts\<close> selects the first,
  \<open>put\<close> writes them, and \<open>build\<close> makes the value of the struct from theirs.
\<close>

definition struct_view :: "('v \<Rightarrow> 'p) \<Rightarrow> ('v \<Rightarrow> 'a \<Rightarrow> 'b) \<Rightarrow> ('c memory \<Rightarrow> 'p \<Rightarrow> 'a option) \<Rightarrow> 'c memory \<Rightarrow> 'v \<Rightarrow> 'b option" where
  "struct_view parts build view h v = map_option (build v) (view h (parts v))"

definition struct_copy :: "('v \<Rightarrow> 'p) \<Rightarrow> ('v \<Rightarrow> 'p \<Rightarrow> 'v) \<Rightarrow> ('p \<Rightarrow> ('c, 'p) mem_code) \<Rightarrow> 'v \<Rightarrow> ('c, 'v) mem_code" where
  "struct_copy parts put copy v = bind_mem (copy (parts v)) (\<lambda>p. return_mem (put v p))"

lemma deep_copy_struct:
  assumes d: "deep_copy view copy"
    and "\<And>v p. parts (put v p) = p" and "\<And>v p a. build (put v p) a = build v a"
  shows "deep_copy (struct_view parts build view) (struct_copy parts put copy)"
proof
  fix h h' v b
  assume s: "struct_view parts build view h v = Some b" and ag: "agree (cells h) h h'"
  then obtain a where a: "view h (parts v) = Some a" "b = build v a" by (auto simp: struct_view_def)
  from deep_copy.view_local [OF d a(1) ag] a(2)
  show "struct_view parts build view h' v = Some b" by (simp add: struct_view_def)
next
  fix h v b
  assume "struct_view parts build view h v = Some b"
  then obtain a where a: "view h (parts v) = Some a" "b = build v a" by (auto simp: struct_view_def)
  obtain p h' where "copy (parts v) h = Return (p, h')" "prefix h h'" "within view (new_cells h h') h' p a"
    using deep_copy.copy_new [OF d a(1)] by blast
  then show "\<exists>v' h'. struct_copy parts put copy v h = Return (v', h') \<and> prefix h h' \<and>
      within (struct_view parts build view) (new_cells h h') h' v' b"
    by (auto simp: struct_copy_def bind_mem_def return_mem_def within_def struct_view_def a(2) assms(2,3))
qed

text \<open>The same, for a copying function given by its statements.\<close>

lemma deep_copy_by_parts:
  assumes "deep_copy view copy" and "\<And>v h. code v h = struct_copy parts put copy v h"
    and "\<And>v p. parts (put v p) = p" and "\<And>v p a. build (put v p) a = build v a"
  shows "deep_copy (struct_view parts build view) code"
proof -
  have "code = struct_copy parts put copy" using assms(2) by (simp add: fun_eq_iff)
  with deep_copy_struct [of view copy parts put build, OF assms(1,3,4)] show ?thesis by simp
qed

section \<open>Pointers\<close>

text \<open>
  \<^verbatim>\<open>if in != nil { *out = new(T); in.DeepCopyInto(*out) }\<close>, where \<open>zero\<close> is the cell \<^verbatim>\<open>new\<close> makes; \<open>mk\<close> and
  \<open>get\<close> make and take apart cells of the pointer's kind.
\<close>

definition ptr_view :: "('c \<Rightarrow> 'v option) \<Rightarrow> ('c memory \<Rightarrow> 'v \<Rightarrow> 'a option) \<Rightarrow> 'c memory \<Rightarrow> addr option
    \<Rightarrow> 'a option option" where
  "ptr_view get view h p =
     (case p of
        None \<Rightarrow> Some None
      | Some a \<Rightarrow> (case Option.bind (load h a) get of None \<Rightarrow> None | Some v \<Rightarrow> map_option Some (view h v)))"

definition ptr_copy :: "('v \<Rightarrow> 'c) \<Rightarrow> ('c \<Rightarrow> 'v option) \<Rightarrow> 'c \<Rightarrow> ('v \<Rightarrow> ('c, 'v) mem_code) \<Rightarrow> addr option
    \<Rightarrow> ('c, addr option) mem_code" where
  "ptr_copy mk get zero copy p =
     (case p of
        None \<Rightarrow> return_mem None
      | Some a \<Rightarrow>
          bind_mem (new_cell zero) (\<lambda>b.
          bind_mem (read_cell get a) (\<lambda>v.
          bind_mem (copy v) (\<lambda>v'.
          bind_mem (write_cell b (mk v')) (\<lambda>_. return_mem (Some b))))))"

lemma ptr_view_Some_iff:
  "ptr_view get view h (Some a) = Some x \<longleftrightarrow>
     (\<exists>c v y. load h a = Some c \<and> get c = Some v \<and> view h v = Some y \<and> x = Some y)"
  by (auto simp: ptr_view_def Option.bind_eq_Some_conv split: option.splits)

lemma within_ptr:
  assumes "within view A h v y" and "load h b = Some c" and "get c = Some v" and "b \<in> B" and "A \<subseteq> B"
  shows "within (ptr_view get view) B h (Some b) (Some y)"
  unfolding within_def
proof (intro allI impI)
  fix h'
  assume ag: "agree B h h'"
  with assms(5) have "agree A h h'" by (auto simp: agree_def)
  with assms(1) have "view h' v = Some y" by (simp add: within_def)
  moreover have "load h' b = Some c" using ag assms(2,4) by (auto simp: agree_def)
  ultimately show "ptr_view get view h' (Some b) = Some (Some y)"
    using assms(3) by (simp add: ptr_view_Some_iff)
qed

lemma ptr_view_local:
  assumes "deep_copy view copy" and "ptr_view get view h p = Some x" and "agree (cells h) h h'"
  shows "ptr_view get view h' p = Some x"
proof (cases p)
  case (Some a)
  with assms(2) obtain c v y where c: "load h a = Some c" "get c = Some v" "view h v = Some y" "x = Some y"
    by (auto simp: ptr_view_Some_iff)
  moreover have "load h' a = Some c"
    using assms(3) c(1) load_Some_less by (fastforce simp: agree_def)
  ultimately show ?thesis
    using Some deep_copy.view_local [OF assms(1) c(3) assms(3)] by (simp add: ptr_view_Some_iff)
qed (use assms(2) in \<open>simp add: ptr_view_def\<close>)

lemma deep_copy_ptr:
  assumes d: "deep_copy view copy" and get: "\<And>v. get (mk v) = Some v"
  shows "deep_copy (ptr_view get view) (ptr_copy mk get zero copy)"
proof
  fix h h' p x
  show "ptr_view get view h p = Some x \<Longrightarrow> agree (cells h) h h' \<Longrightarrow> ptr_view get view h' p = Some x"
    by (rule ptr_view_local [OF d])
next
  fix h p x
  assume v: "ptr_view get view h p = Some x"
  show "\<exists>v' h'. ptr_copy mk get zero copy p h = Return (v', h') \<and> prefix h h' \<and>
      within (ptr_view get view) (new_cells h h') h' v' x"
  proof (cases p)
    case None
    with v show ?thesis by (simp add: ptr_copy_def ptr_view_def return_mem_def within_def)
  next
    case (Some a)
    with v obtain c w y where c: "load h a = Some c" "get c = Some w" "view h w = Some y" and x: "x = Some y"
      by (auto simp: ptr_view_Some_iff)
    let ?b = "length h" and ?h0 = "h @ [zero]"
    have "view ?h0 w = Some y"
      using deep_copy.view_local [OF d c(3)] agree_prefix [of h ?h0] by simp
    then obtain w' h1 where 1: "copy w ?h0 = Return (w', h1)" "prefix ?h0 h1" "within view (new_cells ?h0 h1) h1 w' y"
      using deep_copy.copy_new [OF d] by blast
    let ?h' = "store ?b (mk w') h1"
    have len: "?b < length h1" using prefix_length_le [OF 1(2)] by simp
    have "agree (new_cells ?h0 h1) h1 ?h'" by (rule agree_store) simp
    with 1(3) have "within view (new_cells ?h0 h1) ?h' w' y" by (rule within_agree)
    then have "within (ptr_view get view) (new_cells h ?h') ?h' (Some ?b) x"
      unfolding x by (rule within_ptr) (use get len in auto)
    moreover have "prefix h ?h'"
      using 1(2) prefix_order.trans [of h ?h0 h1] by (intro prefix_store) auto
    moreover have "ptr_copy mk get zero copy p h = Return (Some ?b, ?h')"
      using c load_Some_less [OF c(1)]
      by (simp add: ptr_copy_def Some bind_mem_def return_mem_def new_cell_def alloc_def read_cell_def write_cell_def 1(1))
    ultimately show ?thesis by blast
  qed
qed

lemma prefix_agree:
  assumes "length h \<le> length h'" and "agree (cells h) h h'"
  shows "prefix h h'"
proof -
  have "h = take (length h) h'"
  proof (rule nth_equalityI)
    fix i
    assume "i < length h"
    then have "load h i = load h' i" using assms(2) by (simp add: agree_def)
    with \<open>i < length h\<close> assms(1) show "h ! i = take (length h) h' ! i"
      by (simp add: load_def)
  qed (use assms(1) in simp)
  then show ?thesis by (metis take_is_prefix)
qed

section \<open>Slices and maps\<close>

text \<open>
  \<^verbatim>\<open>*out = make([]T, len(*in)); copy(*out, *in)\<close>, for elements without pointers.
\<close>

definition values_copy :: "('v list \<Rightarrow> 'c) \<Rightarrow> ('c \<Rightarrow> 'v list option) \<Rightarrow> 'v \<Rightarrow> addr option \<Rightarrow> ('c, addr option) mem_code" where
  "values_copy mk get zero p =
     (case p of
        None \<Rightarrow> return_mem None
      | Some a \<Rightarrow>
          bind_mem (read_cell get a) (\<lambda>vs.
          bind_mem (new_cell (mk (replicate (length vs) zero))) (\<lambda>b.
          bind_mem (write_cell b (mk vs)) (\<lambda>_. return_mem (Some b)))))"

text \<open>
  \<^verbatim>\<open>*out = make(map[K]V, len(*in)); for key, val := range *in { (*out)[key] = val }\<close>.
\<close>

fun insert_entries :: "(('k \<times> 'v) list \<Rightarrow> 'c) \<Rightarrow> ('c \<Rightarrow> ('k \<times> 'v) list option) \<Rightarrow> addr \<Rightarrow> ('k \<times> 'v) list
    \<Rightarrow> ('c, unit) mem_code" where
  "insert_entries mk get b [] = return_mem ()"
| "insert_entries mk get b ((k, v) # kvs) =
     bind_mem (read_cell get b) (\<lambda>m.
     bind_mem (write_cell b (mk (AList.update k v m))) (\<lambda>_. insert_entries mk get b kvs))"

definition map_copy_code :: "(('k \<times> 'v) list \<Rightarrow> 'c) \<Rightarrow> ('c \<Rightarrow> ('k \<times> 'v) list option) \<Rightarrow> addr option
    \<Rightarrow> ('c, addr option) mem_code" where
  "map_copy_code mk get p =
     (case p of
        None \<Rightarrow> return_mem None
      | Some a \<Rightarrow>
          bind_mem (read_cell get a) (\<lambda>m.
          bind_mem (new_cell (mk [])) (\<lambda>b.
          bind_mem (insert_entries mk get b m) (\<lambda>_. return_mem (Some b)))))"

text \<open>The view of a map asks for distinct keys.\<close>

definition map_get :: "('c \<Rightarrow> ('k \<times> 'v) list option) \<Rightarrow> 'c \<Rightarrow> ('k \<times> 'v) list option" where
  "map_get get c = (case get c of None \<Rightarrow> None | Some m \<Rightarrow> if distinct (map fst m) then Some m else None)"

text \<open>
  \<^verbatim>\<open>*out = make([]T, len(*in)); for i := range *in { (*in)[i].DeepCopyInto(&(*out)[i]) }\<close>.
\<close>

fun copy_elems :: "('v list \<Rightarrow> 'c) \<Rightarrow> ('c \<Rightarrow> 'v list option) \<Rightarrow> ('v \<Rightarrow> ('c, 'v) mem_code) \<Rightarrow> addr \<Rightarrow> nat
    \<Rightarrow> 'v list \<Rightarrow> ('c, unit) mem_code" where
  "copy_elems mk get copy b i [] = return_mem ()"
| "copy_elems mk get copy b i (v # vs) =
     bind_mem (copy v) (\<lambda>v'.
     bind_mem (read_cell get b) (\<lambda>out.
     bind_mem (write_cell b (mk (out[i := v']))) (\<lambda>_. copy_elems mk get copy b (Suc i) vs)))"

definition slice_copy :: "('v list \<Rightarrow> 'c) \<Rightarrow> ('c \<Rightarrow> 'v list option) \<Rightarrow> 'v \<Rightarrow> ('v \<Rightarrow> ('c, 'v) mem_code) \<Rightarrow> addr option
    \<Rightarrow> ('c, addr option) mem_code" where
  "slice_copy mk get zero copy p =
     (case p of
        None \<Rightarrow> return_mem None
      | Some a \<Rightarrow>
          bind_mem (read_cell get a) (\<lambda>vs.
          bind_mem (new_cell (mk (replicate (length vs) zero))) (\<lambda>b.
          bind_mem (copy_elems mk get copy b 0 vs) (\<lambda>_. return_mem (Some b)))))"

definition list_view :: "('c memory \<Rightarrow> 'v \<Rightarrow> 'a option) \<Rightarrow> 'c memory \<Rightarrow> 'v list \<Rightarrow> 'a list option" where
  "list_view view h vs = those (map (view h) vs)"

lemma list_view_Some: "list_view view h vs = Some as \<longleftrightarrow> list_all2 (\<lambda>v a. view h v = Some a) vs as"
proof (induction vs arbitrary: as)
  case (Cons v vs)
  then show ?case
    by (cases as) (auto simp: list_view_def split: option.splits)
qed (auto simp: list_view_def)

text \<open>A cell of new values, whatever wrote them.\<close>

lemma fresh_cell_copy:
  assumes "copy h = Return (Some (length h), h')" and "length h < length h'" and "agree (cells h) h h'"
    and "load h' (length h) = Some c" and "get c = Some v" and "within view {Suc (length h)..<length h'} h' v y"
  shows "\<exists>v' h'. copy h = Return (v', h') \<and> prefix h h' \<and> within (ptr_view get view) (new_cells h h') h' v' (Some y)"
proof -
  have "prefix h h'" using assms(2,3) by (intro prefix_agree) simp_all
  moreover have "within (ptr_view get view) (new_cells h h') h' (Some (length h)) (Some y)"
    using within_ptr [of view "{Suc (length h)..<length h'}" h' v y "length h" c get "new_cells h h'"] assms(2,4-6) by simp
  ultimately show ?thesis using assms(1) by blast
qed

lemma deep_copy_values:
  assumes get: "\<And>vs. get (mk vs) = Some vs"
  shows "deep_copy (ptr_view get flat_view) (values_copy mk get zero)"
proof
  fix h h' p x
  show "ptr_view get flat_view h p = Some x \<Longrightarrow> agree (cells h) h h' \<Longrightarrow> ptr_view get flat_view h' p = Some x"
    by (rule ptr_view_local [OF deep_copy_flat])
next
  fix h p x
  assume v: "ptr_view get flat_view h p = Some x"
  show "\<exists>v' h'. values_copy mk get zero p h = Return (v', h') \<and> prefix h h' \<and>
      within (ptr_view get flat_view) (new_cells h h') h' v' x"
  proof (cases p)
    case None
    with v show ?thesis by (simp add: values_copy_def ptr_view_def return_mem_def within_def)
  next
    case (Some a)
    with v obtain c vs where c: "load h a = Some c" "get c = Some vs" and x: "x = Some vs"
      by (auto simp: ptr_view_Some_iff flat_view_def)
    have "values_copy mk get zero p h = Return (Some (length h), h @ [mk vs])"
      using c by (simp add: values_copy_def Some bind_mem_def return_mem_def read_cell_def new_cell_def alloc_def
          write_cell_def store_def)
    then show ?thesis
      unfolding x by (rule fresh_cell_copy [where c = "mk vs" and v = vs]) (auto simp: get agree_def within_def flat_view_def)
  qed
qed

lemma insert_entries_correct:
  assumes get: "\<And>m. get (mk m) = Some m" and "load h b = Some (mk m)"
  shows "insert_entries mk get b kvs h = Return ((), store b (mk (map_copy m kvs)) h)"
  using assms(2)
proof (induction kvs arbitrary: h m)
  case Nil
  then have "h ! b = mk m" by (auto simp: load_def split: if_splits)
  then have "store b (mk m) h = h" unfolding store_def by (metis list_update_id)
  then show ?case by (simp add: return_mem_def)

next
  case (Cons kv kvs)
  obtain k v where kv: "kv = (k, v)" by (cases kv)
  let ?h1 = "store b (mk (AList.update k v m)) h"
  have "load ?h1 b = Some (mk (AList.update k v m))"
    using load_Some_less [OF Cons.prems] by simp
  from Cons.IH [OF this] show ?case
    by (simp add: kv bind_mem_def read_cell_def Cons.prems get write_cell_def) (simp add: store_def)
qed

lemma update_absent: "k \<notin> fst ` set m \<Longrightarrow> AList.update k v m = m @ [(k, v)]"
  by (induction m) auto

lemma map_copy_distinct: "distinct (map fst (m @ kvs)) \<Longrightarrow> map_copy m kvs = m @ kvs"
proof (induction m kvs rule: map_copy.induct)
  case (2 m k v kvs)
  then show ?case by (simp add: update_absent)
qed simp

lemma deep_copy_map:
  assumes get: "\<And>m. get (mk m) = Some m"
  shows "deep_copy (ptr_view (map_get get) flat_view) (map_copy_code mk get)"
proof
  fix h h' p x
  show "ptr_view (map_get get) flat_view h p = Some x \<Longrightarrow> agree (cells h) h h' \<Longrightarrow>
      ptr_view (map_get get) flat_view h' p = Some x"
    by (rule ptr_view_local [OF deep_copy_flat])
next
  fix h p x
  assume v: "ptr_view (map_get get) flat_view h p = Some x"
  show "\<exists>v' h'. map_copy_code mk get p h = Return (v', h') \<and> prefix h h' \<and>
      within (ptr_view (map_get get) flat_view) (new_cells h h') h' v' x"
  proof (cases p)
    case None
    with v show ?thesis by (simp add: map_copy_code_def ptr_view_def return_mem_def within_def)
  next
    case (Some a)
    with v obtain c m where c: "load h a = Some c" "get c = Some m" "distinct (map fst m)" and x: "x = Some m"
      by (auto simp: ptr_view_Some_iff flat_view_def map_get_def split: option.splits if_splits)
    have "insert_entries mk get (length h) m (h @ [mk []]) = Return ((), h @ [mk m])"
      using insert_entries_correct [of get mk "h @ [mk []]" "length h" "[]" m] get map_copy_distinct [of "[]" m] c(3)
      by (simp add: store_def)
    then have "map_copy_code mk get p h = Return (Some (length h), h @ [mk m])"
      using c by (simp add: map_copy_code_def Some bind_mem_def return_mem_def read_cell_def new_cell_def alloc_def)
    then show ?thesis
      unfolding x
      by (rule fresh_cell_copy [where c = "mk m" and v = m]) (auto simp: get map_get_def c(3) agree_def within_def flat_view_def)

  qed
qed

text \<open>
  The loop over the elements: what it reads lies below the slice's cell \<open>b\<close>, what it makes above.
\<close>

lemma copy_elems_correct:
  assumes d: "deep_copy view copy" and get: "\<And>vs. get (mk vs) = Some vs"
  shows "list_all2 (within view {..<b} h) vs as \<Longrightarrow> load h b = Some (mk out) \<Longrightarrow> i + length vs = length out \<Longrightarrow>
    \<exists>vs' h'. copy_elems mk get copy b i vs h = Return ((), h') \<and> length h \<le> length h' \<and> agree (cells h - {b}) h h' \<and>
      load h' b = Some (mk (take i out @ vs')) \<and> list_all2 (within view {Suc b..<length h'} h') vs' as"
proof (induction vs arbitrary: as h out i)
  case Nil
  then show ?case by (simp add: return_mem_def)
next
  case (Cons v vs)
  from Cons.prems(1) obtain a as' where as: "as = a # as'" and v: "within view {..<b} h v a"
    and vs: "list_all2 (within view {..<b} h) vs as'"
    by (cases as) simp_all
  have b: "b < length h" by (rule load_Some_less [OF Cons.prems(2)])
  obtain v' h1 where 1: "copy v h = Return (v', h1)" "prefix h h1" "within view (new_cells h h1) h1 v' a"
    using deep_copy.copy_new [OF d within_view [OF v]] by blast
  have len1: "length h \<le> length h1" by (rule prefix_length_le [OF 1(2)])
  have ag1: "agree (cells h) h h1" by (rule agree_prefix [OF 1(2)])
  have "load h1 b = Some (mk out)"
    using ag1 Cons.prems(2) b by (auto simp: agree_def)
  then have r: "read_cell get b h1 = Return (out, h1)"
    by (simp add: read_cell_def get)
  let ?h2 = "store b (mk (out[i := v'])) h1"
  have ag2: "agree (cells h - {b}) h ?h2"
    using ag1 by (simp add: agree_def)
  have "list_all2 (within view {..<b} ?h2) vs as'"
    using vs by (rule list_all2_mono) (use ag2 b in \<open>auto intro: within_agree simp: agree_def\<close>)
  moreover have "load ?h2 b = Some (mk (out[i := v']))" using b len1 by simp
  moreover have "Suc i + length vs = length (out[i := v'])" using Cons.prems(3) by simp
  ultimately obtain vs' h' where 2: "copy_elems mk get copy b (Suc i) vs ?h2 = Return ((), h')"
    "length ?h2 \<le> length h'" "agree (cells ?h2 - {b}) ?h2 h'" "load h' b = Some (mk (take (Suc i) (out[i := v']) @ vs'))"
    "list_all2 (within view {Suc b..<length h'} h') vs' as'"
    using Cons.IH by blast
  have "agree (new_cells h h1) h1 h'"
    using 2(3) b by (auto simp: agree_def)
  with 1(3) have "within view (new_cells h h1) h' v' a" by (rule within_agree)
  then have "within view {Suc b..<length h'} h' v' a"
    by (rule within_mono) (use b 2(2) in auto)
  moreover have "take (Suc i) (out[i := v']) = take i out @ [v']"
    using Cons.prems(3) by (simp add: take_Suc_conv_app_nth)
  moreover have "agree (cells h - {b}) h h'"
    using ag2 2(3) len1 by (auto simp: agree_def)
  moreover have "copy_elems mk get copy b i (v # vs) h = Return ((), h')"
    by (simp add: bind_mem_def 1(1) r write_cell_def 2(1))
  ultimately show ?case
    using 2 len1 as by (intro exI [of _ "v' # vs'"] exI [of _ h']) simp
qed

lemma list_within:
  assumes "list_all2 (within view A h) vs as"
  shows "within (list_view view) A h vs as"
  unfolding within_def
proof (intro allI impI)
  fix h'
  assume ag: "agree A h h'"
  show "list_view view h' vs = Some as"
    unfolding list_view_Some using assms by (rule list_all2_mono) (use ag in \<open>simp add: within_def\<close>)
qed

lemma list_view_local:
  assumes d: "deep_copy view copy" and v: "list_view view h vs = Some as" and ag: "agree (cells h) h h'"
  shows "list_view view h' vs = Some as"
  using v unfolding list_view_Some
  by (rule list_all2_mono) (rule deep_copy.view_local [OF d _ ag])

lemma deep_copy_slice:
  assumes d: "deep_copy view copy" and get: "\<And>vs. get (mk vs) = Some vs"
  shows "deep_copy (ptr_view get (list_view view)) (slice_copy mk get zero copy)"
proof
  fix h h' p x
  assume v: "ptr_view get (list_view view) h p = Some x" and ag: "agree (cells h) h h'"
  show "ptr_view get (list_view view) h' p = Some x"
  proof (cases p)
    case (Some a)
    with v obtain c vs as where c: "load h a = Some c" "get c = Some vs" "list_view view h vs = Some as" "x = Some as"
      by (auto simp: ptr_view_Some_iff)
    have "load h' a = Some c"
      using ag c(1) load_Some_less [OF c(1)] by (simp add: agree_def)
    with Some c list_view_local [OF d c(3) ag] show ?thesis by (simp add: ptr_view_Some_iff)
  qed (use v in \<open>simp add: ptr_view_def\<close>)
next
  fix h p x
  assume v: "ptr_view get (list_view view) h p = Some x"
  show "\<exists>v' h'. slice_copy mk get zero copy p h = Return (v', h') \<and> prefix h h' \<and>
      within (ptr_view get (list_view view)) (new_cells h h') h' v' x"
  proof (cases p)
    case None
    with v show ?thesis by (simp add: slice_copy_def ptr_view_def return_mem_def within_def)
  next
    case (Some a)
    with v obtain c vs as where c: "load h a = Some c" "get c = Some vs" "list_view view h vs = Some as" and x: "x = Some as"
      by (auto simp: ptr_view_Some_iff)
    let ?out = "replicate (length vs) zero"
    let ?h0 = "h @ [mk ?out]"
    have "list_all2 (\<lambda>v a. view h v = Some a) vs as"
      using c(3) by (simp add: list_view_Some)
    then have "list_all2 (within view (cells h) ?h0) vs as"
    proof (rule list_all2_mono)
      fix v a
      assume "view h v = Some a"
      then have "within view (cells h) h v a" by (rule deep_copy.view_within [OF d])
      then show "within view (cells h) ?h0 v a" by (rule within_agree) (rule agree_prefix, simp)
    qed
    from copy_elems_correct [where get = get and mk = mk, OF d get this, of ?out 0] obtain vs' h' where
      e: "copy_elems mk get copy (length h) 0 vs ?h0 = Return ((), h')" "length ?h0 \<le> length h'"
        "agree (cells ?h0 - {length h}) ?h0 h'" "load h' (length h) = Some (mk vs')"
        "list_all2 (within view {Suc (length h)..<length h'} h') vs' as"
      by auto
    have "slice_copy mk get zero copy p h = Return (Some (length h), h')"
      using c by (simp add: slice_copy_def Some bind_mem_def return_mem_def read_cell_def new_cell_def alloc_def e(1))
    moreover have "agree (cells h) h h'"
      using e(3) by (auto simp: agree_def)
    ultimately show ?thesis
      unfolding x using e(2,4) list_within [OF e(5)] get
      by (intro fresh_cell_copy [where c = "mk vs'" and v = vs']) simp_all
  qed
qed

end
