(* ===== verification/MemTypes.thy ===== *)
theory MemTypes
  imports GoMemory Convert
begin

text \<open>
  The API objects as they lie in memory: \<^verbatim>\<open>pkg/apis/project/types.go\<close>, \<^verbatim>\<open>pkg/apis/project/v1/types.go\<close> and the
  metadata of the apimachinery library. Each struct is a record whose pointer, map and slice fields are
  of a type parameter: with addresses it is the struct, with values it is what the struct means.
\<close>

section \<open>Metadata\<close>

record type_meta =
  tm_Kind :: string
  tm_APIVersion :: string

record list_meta =
  lm_SelfLink :: string
  lm_ResourceVersion :: string
  lm_Continue :: string

record status_cause =
  sc_Type :: string
  sc_Message :: string
  sc_Field :: string

record 'causes status_details =
  sd_Name :: string
  sd_Group :: string
  sd_Kind :: string
  sd_UID :: string
  sd_Causes :: 'causes
  sd_RetryAfterSeconds :: int

record 'details meta_status =
  mst_TypeMeta :: type_meta
  mst_ListMeta :: list_meta
  mst_Status :: string
  mst_Message :: string
  mst_Reason :: string
  mst_Details :: 'details
  mst_Code :: int

record ('pending, 'result) mem_initializers =
  mi_Pending :: 'pending
  mi_Result :: 'result

record 'flag mem_owner =
  mo_APIVersion :: string
  mo_Kind :: string
  mo_Name :: string
  mo_UID :: string
  mo_Controller :: 'flag
  mo_BlockOwnerDeletion :: 'flag

record ('time, 'seconds, 'entries, 'owners, 'inits, 'names) mem_meta =
  mm_Name :: string
  mm_GenerateName :: string
  mm_Namespace :: string
  mm_SelfLink :: string
  mm_UID :: string
  mm_ResourceVersion :: string
  mm_Generation :: int
  mm_CreationTimestamp :: go_time
  mm_DeletionTimestamp :: 'time
  mm_DeletionGracePeriodSeconds :: 'seconds
  mm_Labels :: 'entries
  mm_Annotations :: 'entries
  mm_OwnerReferences :: 'owners
  mm_Initializers :: 'inits
  mm_Finalizers :: 'names
  mm_ClusterName :: string

section \<open>Projects, internal and versioned\<close>

record 'names mem_spec =
  msp_Finalizers :: 'names

record ('meta, 'spec) mem_project =
  mp_TypeMeta :: type_meta
  mp_ObjectMeta :: 'meta
  mp_Spec :: 'spec
  mp_Status :: project_status

record 'items mem_project_list =
  mpl_TypeMeta :: type_meta
  mpl_ListMeta :: list_meta
  mpl_Items :: 'items

record 'meta mem_request =
  mr_TypeMeta :: type_meta
  mr_ObjectMeta :: 'meta
  mr_DisplayName :: string
  mr_Description :: string

record 'names v1_spec =
  v1sp_Finalizers :: 'names

record v1_status =
  v1st_Phase :: string

record ('meta, 'spec) v1_project =
  v1p_TypeMeta :: type_meta
  v1p_ObjectMeta :: 'meta
  v1p_Spec :: 'spec
  v1p_Status :: v1_status

record 'items v1_project_list =
  v1pl_TypeMeta :: type_meta
  v1pl_ListMeta :: list_meta
  v1pl_Items :: 'items

record 'meta v1_request =
  v1r_TypeMeta :: type_meta
  v1r_ObjectMeta :: 'meta
  v1r_DisplayName :: string
  v1r_Description :: string

text \<open>The namespace of the core API, with its spec and status in place.\<close>

record ('meta, 'names) mem_namespace =
  mn_TypeMeta :: type_meta
  mn_ObjectMeta :: 'meta
  mn_Finalizers :: 'names
  mn_Phase :: string

record 'items mem_namespace_list =
  mnl_TypeMeta :: type_meta
  mnl_ListMeta :: list_meta
  mnl_Items :: 'items

section \<open>Structs\<close>

type_synonym ref = "addr option"

type_synonym h_meta = "(ref, ref, ref, ref, ref, ref) mem_meta"

type_synonym h_project = "(h_meta, ref mem_spec) mem_project"

type_synonym h_v1_project = "(h_meta, ref v1_spec) v1_project"

type_synonym h_namespace = "(h_meta, ref) mem_namespace"

text \<open>The kinds of cells: what is allocated by itself.\<close>

datatype cell =
    TimeCell go_time
  | IntCell int
  | BoolCell bool
  | MapCell strmap
  | StringsCell "string list"
  | OwnersCell "ref mem_owner list"
  | CausesCell "status_cause list"
  | DetailsCell "ref status_details"
  | MetaStatusCell "ref meta_status"
  | InitializersCell "(ref, ref) mem_initializers"
  | SpecCell "ref mem_spec"
  | StatusCell project_status
  | ProjectCell h_project
  | ProjectsCell "h_project list"
  | ProjectListCell "ref mem_project_list"
  | RequestCell "h_meta mem_request"
  | V1SpecCell "ref v1_spec"
  | V1StatusCell v1_status
  | V1ProjectCell h_v1_project
  | V1ProjectsCell "h_v1_project list"
  | V1ProjectListCell "ref v1_project_list"
  | V1RequestCell "h_meta v1_request"
  | NamespaceCell h_namespace
  | NamespacesCell "h_namespace list"
  | NamespaceListCell "ref mem_namespace_list"

section \<open>Values\<close>

type_synonym details_value = "status_cause list option status_details"

type_synonym status_value = "details_value option meta_status"

type_synonym initializers_value = "(string list option, status_value option) mem_initializers"

type_synonym owner_value = "bool option mem_owner"

type_synonym meta_value =
  "(go_time option, int option, strmap option, owner_value list option, initializers_value option, string list option) mem_meta"

type_synonym spec_value = "string list option mem_spec"

type_synonym project_value = "(meta_value, spec_value) mem_project"

type_synonym v1_spec_value = "string list option v1_spec"

type_synonym v1_project_value = "(meta_value, v1_spec_value) v1_project"

type_synonym namespace_value = "(meta_value, string list option) mem_namespace"

section \<open>Taking cells apart\<close>

fun get_time :: "cell \<Rightarrow> go_time option" where "get_time (TimeCell x) = Some x" | "get_time _ = None"

fun get_int :: "cell \<Rightarrow> int option" where "get_int (IntCell x) = Some x" | "get_int _ = None"

fun get_bool :: "cell \<Rightarrow> bool option" where "get_bool (BoolCell x) = Some x" | "get_bool _ = None"

fun get_map :: "cell \<Rightarrow> strmap option" where "get_map (MapCell x) = Some x" | "get_map _ = None"

fun get_strings :: "cell \<Rightarrow> string list option" where "get_strings (StringsCell x) = Some x" | "get_strings _ = None"

fun get_owners :: "cell \<Rightarrow> ref mem_owner list option" where "get_owners (OwnersCell x) = Some x" | "get_owners _ = None"

fun get_causes :: "cell \<Rightarrow> status_cause list option" where "get_causes (CausesCell x) = Some x" | "get_causes _ = None"

fun get_details :: "cell \<Rightarrow> ref status_details option" where "get_details (DetailsCell x) = Some x" | "get_details _ = None"

fun get_meta_status :: "cell \<Rightarrow> ref meta_status option" where
  "get_meta_status (MetaStatusCell x) = Some x" | "get_meta_status _ = None"

fun get_initializers :: "cell \<Rightarrow> (ref, ref) mem_initializers option" where
  "get_initializers (InitializersCell x) = Some x" | "get_initializers _ = None"

fun get_spec :: "cell \<Rightarrow> ref mem_spec option" where "get_spec (SpecCell x) = Some x" | "get_spec _ = None"

fun get_status :: "cell \<Rightarrow> project_status option" where "get_status (StatusCell x) = Some x" | "get_status _ = None"

fun get_project :: "cell \<Rightarrow> h_project option" where "get_project (ProjectCell x) = Some x" | "get_project _ = None"

fun get_projects :: "cell \<Rightarrow> h_project list option" where "get_projects (ProjectsCell x) = Some x" | "get_projects _ = None"

fun get_project_list :: "cell \<Rightarrow> ref mem_project_list option" where
  "get_project_list (ProjectListCell x) = Some x" | "get_project_list _ = None"

fun get_request :: "cell \<Rightarrow> h_meta mem_request option" where "get_request (RequestCell x) = Some x" | "get_request _ = None"

fun get_v1_spec :: "cell \<Rightarrow> ref v1_spec option" where "get_v1_spec (V1SpecCell x) = Some x" | "get_v1_spec _ = None"

fun get_v1_status :: "cell \<Rightarrow> v1_status option" where "get_v1_status (V1StatusCell x) = Some x" | "get_v1_status _ = None"

fun get_v1_project :: "cell \<Rightarrow> h_v1_project option" where
  "get_v1_project (V1ProjectCell x) = Some x" | "get_v1_project _ = None"

fun get_v1_projects :: "cell \<Rightarrow> h_v1_project list option" where
  "get_v1_projects (V1ProjectsCell x) = Some x" | "get_v1_projects _ = None"

fun get_v1_project_list :: "cell \<Rightarrow> ref v1_project_list option" where
  "get_v1_project_list (V1ProjectListCell x) = Some x" | "get_v1_project_list _ = None"

fun get_v1_request :: "cell \<Rightarrow> h_meta v1_request option" where
  "get_v1_request (V1RequestCell x) = Some x" | "get_v1_request _ = None"

fun get_namespace :: "cell \<Rightarrow> h_namespace option" where
  "get_namespace (NamespaceCell x) = Some x" | "get_namespace _ = None"

fun get_namespaces :: "cell \<Rightarrow> h_namespace list option" where
  "get_namespaces (NamespacesCell x) = Some x" | "get_namespaces _ = None"

fun get_namespace_list :: "cell \<Rightarrow> ref mem_namespace_list option" where
  "get_namespace_list (NamespaceListCell x) = Some x" | "get_namespace_list _ = None"

section \<open>Zero values\<close>

definition zero_owner :: "ref mem_owner" where
  "zero_owner = \<lparr>mo_APIVersion = '''', mo_Kind = '''', mo_Name = '''', mo_UID = '''', mo_Controller = None,
     mo_BlockOwnerDeletion = None\<rparr>"

definition zero_cause :: status_cause where
  "zero_cause = \<lparr>sc_Type = '''', sc_Message = '''', sc_Field = ''''\<rparr>"

definition zero_details :: "ref status_details" where
  "zero_details = \<lparr>sd_Name = '''', sd_Group = '''', sd_Kind = '''', sd_UID = '''', sd_Causes = None,
     sd_RetryAfterSeconds = 0\<rparr>"

definition zero_type_meta :: type_meta where
  "zero_type_meta = \<lparr>tm_Kind = '''', tm_APIVersion = ''''\<rparr>"

definition zero_list_meta :: list_meta where
  "zero_list_meta = \<lparr>lm_SelfLink = '''', lm_ResourceVersion = '''', lm_Continue = ''''\<rparr>"

definition zero_meta_status :: "ref meta_status" where
  "zero_meta_status = \<lparr>mst_TypeMeta = zero_type_meta, mst_ListMeta = zero_list_meta, mst_Status = '''', mst_Message = '''',
     mst_Reason = '''', mst_Details = None, mst_Code = 0\<rparr>"

definition zero_initializers :: "(ref, ref) mem_initializers" where
  "zero_initializers = \<lparr>mi_Pending = None, mi_Result = None\<rparr>"

definition zero_meta :: h_meta where
  "zero_meta = \<lparr>mm_Name = '''', mm_GenerateName = '''', mm_Namespace = '''', mm_SelfLink = '''', mm_UID = '''',
     mm_ResourceVersion = '''', mm_Generation = 0, mm_CreationTimestamp = 0, mm_DeletionTimestamp = None,
     mm_DeletionGracePeriodSeconds = None, mm_Labels = None, mm_Annotations = None, mm_OwnerReferences = None,
     mm_Initializers = None, mm_Finalizers = None, mm_ClusterName = ''''\<rparr>"

definition zero_project :: h_project where
  "zero_project = \<lparr>mp_TypeMeta = zero_type_meta, mp_ObjectMeta = zero_meta, mp_Spec = \<lparr>msp_Finalizers = None\<rparr>,
     mp_Status = \<lparr>pst_Phase = ''''\<rparr>\<rparr>"

definition zero_project_list :: "ref mem_project_list" where
  "zero_project_list = \<lparr>mpl_TypeMeta = zero_type_meta, mpl_ListMeta = zero_list_meta, mpl_Items = None\<rparr>"

definition zero_request :: "h_meta mem_request" where
  "zero_request = \<lparr>mr_TypeMeta = zero_type_meta, mr_ObjectMeta = zero_meta, mr_DisplayName = '''', mr_Description = ''''\<rparr>"

definition zero_v1_project :: h_v1_project where
  "zero_v1_project = \<lparr>v1p_TypeMeta = zero_type_meta, v1p_ObjectMeta = zero_meta, v1p_Spec = \<lparr>v1sp_Finalizers = None\<rparr>,
     v1p_Status = \<lparr>v1st_Phase = ''''\<rparr>\<rparr>"

definition zero_v1_project_list :: "ref v1_project_list" where
  "zero_v1_project_list = \<lparr>v1pl_TypeMeta = zero_type_meta, v1pl_ListMeta = zero_list_meta, v1pl_Items = None\<rparr>"

definition zero_v1_request :: "h_meta v1_request" where
  "zero_v1_request = \<lparr>v1r_TypeMeta = zero_type_meta, v1r_ObjectMeta = zero_meta, v1r_DisplayName = '''', v1r_Description = ''''\<rparr>"

end
