(* ===== verification/DeepCopy.thy ===== *)
theory DeepCopy
  imports MemTypes
begin

text \<open>
  \<^verbatim>\<open>pkg/apis/project/zz_generated.deepcopy.go\<close> with what it calls of the metadata's generated functions.
  \<^verbatim>\<open>DeepCopyInto\<close> takes the struct \<^verbatim>\<open>*in\<close> and returns what it leaves in \<^verbatim>\<open>*out\<close>, whose first statement
  \<^verbatim>\<open>*out = *in\<close> makes \<^verbatim>\<open>out\<close>'s own value irrelevant. Each function meets the contract \<open>deep_copy\<close> for the view of
  its type.
\<close>

section \<open>Metadata (apimachinery)\<close>

definition StatusDetails_DeepCopyInto :: "ref status_details \<Rightarrow> (cell, ref status_details) mem_code" where
  "StatusDetails_DeepCopyInto v =
     bind_mem (values_copy CausesCell get_causes zero_cause (sd_Causes v)) (\<lambda>causes.
     return_mem (v\<lparr>sd_Causes := causes\<rparr>))"

definition Status_DeepCopyInto :: "ref meta_status \<Rightarrow> (cell, ref meta_status) mem_code" where
  "Status_DeepCopyInto v =
     bind_mem (ptr_copy DetailsCell get_details (DetailsCell zero_details) StatusDetails_DeepCopyInto (mst_Details v)) (\<lambda>details.
     return_mem (v\<lparr>mst_Details := details\<rparr>))"

definition Initializers_DeepCopyInto :: "(ref, ref) mem_initializers \<Rightarrow> (cell, (ref, ref) mem_initializers) mem_code" where
  "Initializers_DeepCopyInto v =
     bind_mem (values_copy StringsCell get_strings '''' (mi_Pending v)) (\<lambda>pending.
     bind_mem (ptr_copy MetaStatusCell get_meta_status (MetaStatusCell zero_meta_status) Status_DeepCopyInto (mi_Result v)) (\<lambda>result.
     return_mem (v\<lparr>mi_Pending := pending, mi_Result := result\<rparr>)))"

definition OwnerReference_DeepCopyInto :: "ref mem_owner \<Rightarrow> (cell, ref mem_owner) mem_code" where
  "OwnerReference_DeepCopyInto v =
     bind_mem (ptr_copy BoolCell get_bool (BoolCell False) return_mem (mo_Controller v)) (\<lambda>controller.
     bind_mem (ptr_copy BoolCell get_bool (BoolCell False) return_mem (mo_BlockOwnerDeletion v)) (\<lambda>block.
     return_mem (v\<lparr>mo_Controller := controller, mo_BlockOwnerDeletion := block\<rparr>)))"

definition ObjectMeta_DeepCopyInto :: "h_meta \<Rightarrow> (cell, h_meta) mem_code" where
  "ObjectMeta_DeepCopyInto v =
     bind_mem (ptr_copy TimeCell get_time (TimeCell 0) return_mem (mm_DeletionTimestamp v)) (\<lambda>deletion.
     bind_mem (ptr_copy IntCell get_int (IntCell 0) return_mem (mm_DeletionGracePeriodSeconds v)) (\<lambda>grace.
     bind_mem (map_copy_code MapCell get_map (mm_Labels v)) (\<lambda>labels.
     bind_mem (map_copy_code MapCell get_map (mm_Annotations v)) (\<lambda>annotations.
     bind_mem (slice_copy OwnersCell get_owners zero_owner OwnerReference_DeepCopyInto (mm_OwnerReferences v)) (\<lambda>owners.
     bind_mem (ptr_copy InitializersCell get_initializers (InitializersCell zero_initializers) Initializers_DeepCopyInto
       (mm_Initializers v)) (\<lambda>inits.
     bind_mem (values_copy StringsCell get_strings '''' (mm_Finalizers v)) (\<lambda>finalizers.
     return_mem (v\<lparr>mm_DeletionTimestamp := deletion, mm_DeletionGracePeriodSeconds := grace, mm_Labels := labels,
       mm_Annotations := annotations, mm_OwnerReferences := owners, mm_Initializers := inits,
       mm_Finalizers := finalizers\<rparr>))))))))"

section \<open>Projects\<close>

definition ProjectSpec_DeepCopyInto :: "ref mem_spec \<Rightarrow> (cell, ref mem_spec) mem_code" where
  "ProjectSpec_DeepCopyInto v =
     bind_mem (values_copy StringsCell get_strings '''' (msp_Finalizers v)) (\<lambda>finalizers.
     return_mem (v\<lparr>msp_Finalizers := finalizers\<rparr>))"

definition ProjectSpec_DeepCopy :: "ref \<Rightarrow> (cell, ref) mem_code" where
  "ProjectSpec_DeepCopy p = ptr_copy SpecCell get_spec (SpecCell \<lparr>msp_Finalizers = None\<rparr>) ProjectSpec_DeepCopyInto p"

definition ProjectStatus_DeepCopyInto :: "project_status \<Rightarrow> (cell, project_status) mem_code" where
  "ProjectStatus_DeepCopyInto v = return_mem v"

definition ProjectStatus_DeepCopy :: "ref \<Rightarrow> (cell, ref) mem_code" where
  "ProjectStatus_DeepCopy p = ptr_copy StatusCell get_status (StatusCell \<lparr>pst_Phase = ''''\<rparr>) ProjectStatus_DeepCopyInto p"

definition Project_DeepCopyInto :: "h_project \<Rightarrow> (cell, h_project) mem_code" where
  "Project_DeepCopyInto v =
     bind_mem (ObjectMeta_DeepCopyInto (mp_ObjectMeta v)) (\<lambda>meta.
     bind_mem (ProjectSpec_DeepCopyInto (mp_Spec v)) (\<lambda>spec.
     return_mem (v\<lparr>mp_ObjectMeta := meta, mp_Spec := spec, mp_Status := mp_Status v\<rparr>)))"

definition Project_DeepCopy :: "ref \<Rightarrow> (cell, ref) mem_code" where
  "Project_DeepCopy p = ptr_copy ProjectCell get_project (ProjectCell zero_project) Project_DeepCopyInto p"

definition ProjectList_DeepCopyInto :: "ref mem_project_list \<Rightarrow> (cell, ref mem_project_list) mem_code" where
  "ProjectList_DeepCopyInto v =
     bind_mem (slice_copy ProjectsCell get_projects zero_project Project_DeepCopyInto (mpl_Items v)) (\<lambda>items.
     return_mem (v\<lparr>mpl_Items := items\<rparr>))"

definition ProjectList_DeepCopy :: "ref \<Rightarrow> (cell, ref) mem_code" where
  "ProjectList_DeepCopy p =
     ptr_copy ProjectListCell get_project_list (ProjectListCell zero_project_list) ProjectList_DeepCopyInto p"

definition ProjectRequest_DeepCopyInto :: "h_meta mem_request \<Rightarrow> (cell, h_meta mem_request) mem_code" where
  "ProjectRequest_DeepCopyInto v =
     bind_mem (ObjectMeta_DeepCopyInto (mr_ObjectMeta v)) (\<lambda>meta. return_mem (v\<lparr>mr_ObjectMeta := meta\<rparr>))"

definition ProjectRequest_DeepCopy :: "ref \<Rightarrow> (cell, ref) mem_code" where
  "ProjectRequest_DeepCopy p = ptr_copy RequestCell get_request (RequestCell zero_request) ProjectRequest_DeepCopyInto p"

text \<open>
  \<^verbatim>\<open>runtime.Object\<close>: an interface value, nil or a pointer of one of the types. The test on the typed
  pointer keeps a nil pointer from becoming an interface value that is not nil.
\<close>

datatype object_ref = ProjectPtr addr | ProjectListPtr addr | ProjectRequestPtr addr
  | V1ProjectPtr addr | V1ProjectListPtr addr | V1ProjectRequestPtr addr

definition as_object :: "(addr \<Rightarrow> object_ref) \<Rightarrow> ref \<Rightarrow> (cell, object_ref option) mem_code" where
  "as_object mk c = return_mem (case c of None \<Rightarrow> None | Some a \<Rightarrow> Some (mk a))"

definition Project_DeepCopyObject :: "ref \<Rightarrow> (cell, object_ref option) mem_code" where
  "Project_DeepCopyObject p = bind_mem (Project_DeepCopy p) (as_object ProjectPtr)"

definition ProjectList_DeepCopyObject :: "ref \<Rightarrow> (cell, object_ref option) mem_code" where
  "ProjectList_DeepCopyObject p = bind_mem (ProjectList_DeepCopy p) (as_object ProjectListPtr)"

definition ProjectRequest_DeepCopyObject :: "ref \<Rightarrow> (cell, object_ref option) mem_code" where
  "ProjectRequest_DeepCopyObject p = bind_mem (ProjectRequest_DeepCopy p) (as_object ProjectRequestPtr)"

section \<open>Views\<close>

definition details_view :: "cell memory \<Rightarrow> ref status_details \<Rightarrow> details_value option" where
  "details_view = struct_view sd_Causes
     (\<lambda>v causes. \<lparr>sd_Name = sd_Name v, sd_Group = sd_Group v, sd_Kind = sd_Kind v, sd_UID = sd_UID v,
        sd_Causes = causes, sd_RetryAfterSeconds = sd_RetryAfterSeconds v\<rparr>)
     (ptr_view get_causes flat_view)"

definition meta_status_view :: "cell memory \<Rightarrow> ref meta_status \<Rightarrow> status_value option" where
  "meta_status_view = struct_view mst_Details
     (\<lambda>v details. \<lparr>mst_TypeMeta = mst_TypeMeta v, mst_ListMeta = mst_ListMeta v, mst_Status = mst_Status v,
        mst_Message = mst_Message v, mst_Reason = mst_Reason v, mst_Details = details, mst_Code = mst_Code v\<rparr>)
     (ptr_view get_details details_view)"

definition initializers_view :: "cell memory \<Rightarrow> (ref, ref) mem_initializers \<Rightarrow> initializers_value option" where
  "initializers_view = struct_view (\<lambda>v. (mi_Pending v, mi_Result v))
     (\<lambda>v (pending, result). \<lparr>mi_Pending = pending, mi_Result = result\<rparr>)
     (pair_view (ptr_view get_strings flat_view) (ptr_view get_meta_status meta_status_view))"

definition owner_view :: "cell memory \<Rightarrow> ref mem_owner \<Rightarrow> owner_value option" where
  "owner_view = struct_view (\<lambda>v. (mo_Controller v, mo_BlockOwnerDeletion v))
     (\<lambda>v (controller, block). \<lparr>mo_APIVersion = mo_APIVersion v, mo_Kind = mo_Kind v, mo_Name = mo_Name v,
        mo_UID = mo_UID v, mo_Controller = controller, mo_BlockOwnerDeletion = block\<rparr>)
     (pair_view (ptr_view get_bool flat_view) (ptr_view get_bool flat_view))"

definition meta_parts :: "('t, 's, 'e, 'o, 'i, 'n) mem_meta \<Rightarrow> 't \<times> 's \<times> 'e \<times> 'e \<times> 'o \<times> 'i \<times> 'n" where
  "meta_parts v = (mm_DeletionTimestamp v, mm_DeletionGracePeriodSeconds v, mm_Labels v, mm_Annotations v,
     mm_OwnerReferences v, mm_Initializers v, mm_Finalizers v)"

definition meta_build :: "('t, 's, 'e, 'o, 'i, 'n) mem_meta \<Rightarrow> 'ta \<times> 'sa \<times> 'ea \<times> 'ea \<times> 'oa \<times> 'ia \<times> 'na
    \<Rightarrow> ('ta, 'sa, 'ea, 'oa, 'ia, 'na) mem_meta" where
  "meta_build v = (\<lambda>(deletion, grace, labels, annotations, owners, inits, finalizers).
     \<lparr>mm_Name = mm_Name v, mm_GenerateName = mm_GenerateName v, mm_Namespace = mm_Namespace v,
      mm_SelfLink = mm_SelfLink v, mm_UID = mm_UID v, mm_ResourceVersion = mm_ResourceVersion v,
      mm_Generation = mm_Generation v, mm_CreationTimestamp = mm_CreationTimestamp v,
      mm_DeletionTimestamp = deletion, mm_DeletionGracePeriodSeconds = grace, mm_Labels = labels,
      mm_Annotations = annotations, mm_OwnerReferences = owners, mm_Initializers = inits,
      mm_Finalizers = finalizers, mm_ClusterName = mm_ClusterName v\<rparr>)"

definition meta_parts_view :: "cell memory \<Rightarrow> ref \<times> ref \<times> ref \<times> ref \<times> ref \<times> ref \<times> ref
    \<Rightarrow> (go_time option \<times> int option \<times> strmap option \<times> strmap option \<times> owner_value list option \<times>
        initializers_value option \<times> string list option) option" where
  "meta_parts_view =
     pair_view (ptr_view get_time flat_view) (pair_view (ptr_view get_int flat_view)
     (pair_view (ptr_view (map_get get_map) flat_view) (pair_view (ptr_view (map_get get_map) flat_view)
     (pair_view (ptr_view get_owners (list_view owner_view)) (pair_view (ptr_view get_initializers initializers_view)
     (ptr_view get_strings flat_view))))))"

definition meta_view :: "cell memory \<Rightarrow> h_meta \<Rightarrow> meta_value option" where
  "meta_view = struct_view meta_parts meta_build meta_parts_view"

definition spec_view :: "cell memory \<Rightarrow> ref mem_spec \<Rightarrow> spec_value option" where
  "spec_view = struct_view msp_Finalizers (\<lambda>v finalizers. \<lparr>msp_Finalizers = finalizers\<rparr>) (ptr_view get_strings flat_view)"

definition project_view :: "cell memory \<Rightarrow> h_project \<Rightarrow> project_value option" where
  "project_view = struct_view (\<lambda>v. (mp_ObjectMeta v, mp_Spec v))
     (\<lambda>v (meta, spec). \<lparr>mp_TypeMeta = mp_TypeMeta v, mp_ObjectMeta = meta, mp_Spec = spec, mp_Status = mp_Status v\<rparr>)
     (pair_view meta_view spec_view)"

definition project_list_view :: "cell memory \<Rightarrow> ref mem_project_list \<Rightarrow> project_value list option mem_project_list option" where
  "project_list_view = struct_view mpl_Items
     (\<lambda>v items. \<lparr>mpl_TypeMeta = mpl_TypeMeta v, mpl_ListMeta = mpl_ListMeta v, mpl_Items = items\<rparr>)
     (ptr_view get_projects (list_view project_view))"

definition request_view :: "cell memory \<Rightarrow> h_meta mem_request \<Rightarrow> meta_value mem_request option" where
  "request_view = struct_view mr_ObjectMeta
     (\<lambda>v meta. \<lparr>mr_TypeMeta = mr_TypeMeta v, mr_ObjectMeta = meta, mr_DisplayName = mr_DisplayName v,
        mr_Description = mr_Description v\<rparr>) meta_view"

section \<open>Every function meets the contract\<close>

named_theorems deep_copies \<open>functions that meet the contract of a deep copy\<close>

lemmas copy_forms = struct_copy_def pair_copy_def bind_mem_assoc

lemma flat_ptr [deep_copies]:
  "deep_copy (ptr_view get_time flat_view) (ptr_copy TimeCell get_time zero return_mem)"
  "deep_copy (ptr_view get_int flat_view) (ptr_copy IntCell get_int zero return_mem)"
  "deep_copy (ptr_view get_bool flat_view) (ptr_copy BoolCell get_bool zero return_mem)"
  by (rule deep_copy_ptr [OF deep_copy_flat], simp)+

lemma strings_copy [deep_copies]: "deep_copy (ptr_view get_strings flat_view) (values_copy StringsCell get_strings zero)"
  by (rule deep_copy_values) simp

lemma causes_copy [deep_copies]: "deep_copy (ptr_view get_causes flat_view) (values_copy CausesCell get_causes zero)"
  by (rule deep_copy_values) simp

lemma map_copies [deep_copies]: "deep_copy (ptr_view (map_get get_map) flat_view) (map_copy_code MapCell get_map)"
  by (rule deep_copy_map) simp

lemma details_copy [deep_copies]: "deep_copy details_view StatusDetails_DeepCopyInto"
  unfolding details_view_def
  by (rule deep_copy_by_parts [OF causes_copy, where put = "\<lambda>v c. v\<lparr>sd_Causes := c\<rparr>"])
    (simp_all add: StatusDetails_DeepCopyInto_def copy_forms)

lemma meta_status_copy [deep_copies]: "deep_copy meta_status_view Status_DeepCopyInto"
proof -
  have "deep_copy (ptr_view get_details details_view)
      (ptr_copy DetailsCell get_details (DetailsCell zero_details) StatusDetails_DeepCopyInto)"
    by (rule deep_copy_ptr [OF details_copy]) simp
  then show ?thesis
    unfolding meta_status_view_def
    by (rule deep_copy_by_parts [where put = "\<lambda>v d. v\<lparr>mst_Details := d\<rparr>"])
      (simp_all add: Status_DeepCopyInto_def copy_forms)
qed

lemma initializers_copy [deep_copies]: "deep_copy initializers_view Initializers_DeepCopyInto"
proof -
  have "deep_copy (ptr_view get_meta_status meta_status_view)
      (ptr_copy MetaStatusCell get_meta_status (MetaStatusCell zero_meta_status) Status_DeepCopyInto)"
    by (rule deep_copy_ptr [OF meta_status_copy]) simp
  with strings_copy show ?thesis
    unfolding initializers_view_def
    by (intro deep_copy_by_parts [OF deep_copy_pair,
          where put = "\<lambda>v p. v\<lparr>mi_Pending := fst p, mi_Result := snd p\<rparr>"])
      (simp_all add: Initializers_DeepCopyInto_def copy_forms)
qed

lemma owner_copy [deep_copies]: "deep_copy owner_view OwnerReference_DeepCopyInto"
  unfolding owner_view_def
  by (rule deep_copy_by_parts [OF deep_copy_pair [OF flat_ptr(3) flat_ptr(3)],
        where put = "\<lambda>v p. v\<lparr>mo_Controller := fst p, mo_BlockOwnerDeletion := snd p\<rparr>"])
    (simp_all add: OwnerReference_DeepCopyInto_def copy_forms)

definition meta_put :: "h_meta \<Rightarrow> ref \<times> ref \<times> ref \<times> ref \<times> ref \<times> ref \<times> ref \<Rightarrow> h_meta" where
  "meta_put v = (\<lambda>(deletion, grace, labels, annotations, owners, inits, finalizers).
     v\<lparr>mm_DeletionTimestamp := deletion, mm_DeletionGracePeriodSeconds := grace, mm_Labels := labels,
       mm_Annotations := annotations, mm_OwnerReferences := owners, mm_Initializers := inits,
       mm_Finalizers := finalizers\<rparr>)"

lemma meta_copy [deep_copies]: "deep_copy meta_view ObjectMeta_DeepCopyInto"
proof -
  have owners: "deep_copy (ptr_view get_owners (list_view owner_view))
      (slice_copy OwnersCell get_owners zero_owner OwnerReference_DeepCopyInto)"
    by (rule deep_copy_slice [OF owner_copy]) simp
  have inits: "deep_copy (ptr_view get_initializers initializers_view)
      (ptr_copy InitializersCell get_initializers (InitializersCell zero_initializers) Initializers_DeepCopyInto)"
    by (rule deep_copy_ptr [OF initializers_copy]) simp
  note parts = deep_copy_pair [OF flat_ptr(1) deep_copy_pair [OF flat_ptr(2) deep_copy_pair [OF map_copies
    deep_copy_pair [OF map_copies deep_copy_pair [OF owners deep_copy_pair [OF inits strings_copy]]]]]]
  show ?thesis
    unfolding meta_view_def meta_parts_view_def
    by (rule deep_copy_by_parts [OF parts, where put = meta_put])
      (simp_all add: ObjectMeta_DeepCopyInto_def meta_put_def meta_parts_def meta_build_def copy_forms split_def)
qed

lemma spec_copy [deep_copies]: "deep_copy spec_view ProjectSpec_DeepCopyInto"
  unfolding spec_view_def
  by (rule deep_copy_by_parts [OF strings_copy, where put = "\<lambda>v f. v\<lparr>msp_Finalizers := f\<rparr>"])
    (simp_all add: ProjectSpec_DeepCopyInto_def copy_forms)

lemma project_copy [deep_copies]: "deep_copy project_view Project_DeepCopyInto"
  unfolding project_view_def
  by (rule deep_copy_by_parts [OF deep_copy_pair [OF meta_copy spec_copy],
        where put = "\<lambda>v p. v\<lparr>mp_ObjectMeta := fst p, mp_Spec := snd p\<rparr>"])
    (simp_all add: Project_DeepCopyInto_def copy_forms)

lemma project_list_copy [deep_copies]: "deep_copy project_list_view ProjectList_DeepCopyInto"
proof -
  have "deep_copy (ptr_view get_projects (list_view project_view))
      (slice_copy ProjectsCell get_projects zero_project Project_DeepCopyInto)"
    by (rule deep_copy_slice [OF project_copy]) simp
  then show ?thesis
    unfolding project_list_view_def
    by (rule deep_copy_by_parts [where put = "\<lambda>v i. v\<lparr>mpl_Items := i\<rparr>"])
      (simp_all add: ProjectList_DeepCopyInto_def copy_forms)
qed

lemma request_copy [deep_copies]: "deep_copy request_view ProjectRequest_DeepCopyInto"
  unfolding request_view_def
  by (rule deep_copy_by_parts [OF meta_copy, where put = "\<lambda>v m. v\<lparr>mr_ObjectMeta := m\<rparr>"])
    (simp_all add: ProjectRequest_DeepCopyInto_def copy_forms)

text \<open>The functions on pointers: what the rest of the program calls.\<close>

abbreviation project_ptr_view :: "cell memory \<Rightarrow> ref \<Rightarrow> project_value option option" where
  "project_ptr_view \<equiv> ptr_view get_project project_view"

abbreviation project_list_ptr_view :: "cell memory \<Rightarrow> ref \<Rightarrow> project_value list option mem_project_list option option" where
  "project_list_ptr_view \<equiv> ptr_view get_project_list project_list_view"

abbreviation request_ptr_view :: "cell memory \<Rightarrow> ref \<Rightarrow> meta_value mem_request option option" where
  "request_ptr_view \<equiv> ptr_view get_request request_view"

lemma ptr_copy_contract:
  "deep_copy view copy \<Longrightarrow> (\<And>v. get (mk v) = Some v) \<Longrightarrow> (\<And>p. code p = ptr_copy mk get zero copy p) \<Longrightarrow>
    deep_copy (ptr_view get view) code"
  using deep_copy_ptr [of view copy get mk zero] by (metis ext)

interpretation project_ptr: deep_copy project_ptr_view Project_DeepCopy
  by (rule ptr_copy_contract [OF project_copy, of get_project ProjectCell]) (simp_all add: Project_DeepCopy_def)

interpretation project_list_ptr: deep_copy project_list_ptr_view ProjectList_DeepCopy
  by (rule ptr_copy_contract [OF project_list_copy, of get_project_list ProjectListCell])
    (simp_all add: ProjectList_DeepCopy_def)

interpretation request_ptr: deep_copy request_ptr_view ProjectRequest_DeepCopy
  by (rule ptr_copy_contract [OF request_copy, of get_request RequestCell]) (simp_all add: ProjectRequest_DeepCopy_def)

interpretation spec_ptr: deep_copy "ptr_view get_spec spec_view" ProjectSpec_DeepCopy
  by (rule ptr_copy_contract [OF spec_copy, of get_spec SpecCell]) (simp_all add: ProjectSpec_DeepCopy_def)

interpretation status_ptr: deep_copy "ptr_view get_status flat_view" ProjectStatus_DeepCopy
  by (rule ptr_copy_contract [OF deep_copy_flat, of get_status StatusCell])
    (simp_all add: ProjectStatus_DeepCopy_def ProjectStatus_DeepCopyInto_def [abs_def])

section \<open>Interface values\<close>

lemma object_copy:
  assumes d: "deep_copy (ptr_view get view) code" and v: "ptr_view get view h p = Some x"
    and eq: "object_code = bind_mem (code p) (as_object mk)"
  shows "\<exists>p' h'. object_code h = Return (map_option mk p', h') \<and> (p' = None \<longleftrightarrow> p = None) \<and>
    deeply_copied (ptr_view get view) x p h p' h'"
proof -
  obtain p' h' where c: "code p h = Return (p', h')" "deeply_copied (ptr_view get view) x p h p' h'"
    using deep_copy.copies [OF d v] by blast
  from c(2) have "ptr_view get view h' p' = Some x"
    by (auto simp: deeply_copied_def intro: within_view)
  then have "p' = None \<longleftrightarrow> x = None" by (cases p') (auto simp: ptr_view_def split: option.splits)
  moreover from v have "p = None \<longleftrightarrow> x = None" by (cases p) (auto simp: ptr_view_def split: option.splits)
  moreover have "object_code h = Return (map_option mk p', h')"
    by (cases p') (simp_all add: eq bind_mem_def as_object_def return_mem_def c(1))
  ultimately show ?thesis using c(2) by blast
qed

section \<open>Properties\<close>

text \<open>\<^verbatim>\<open>DeepCopy\<close> of a project: the nil pointer is included.\<close>

lemma Project_DeepCopy_independent:
  assumes "project_ptr_view h p = Some x"
  shows "\<exists>p' h'. Project_DeepCopy p h = Return (p', h') \<and> deeply_copied project_ptr_view x p h p' h'"
  using assms by (rule project_ptr.copies)

text \<open>
  C23: \<^verbatim>\<open>DeepCopyObject\<close> of each internal kind: nil for the nil pointer and no other, else an interface value of
  the same kind whose copy is equal to and independent of the original. No cell of the memory there was is
  changed; the original reads the same whatever is then written to the cells the copy made, and the copy
  whatever is written to the cells that were there before.
\<close>

theorem DeepCopyObject_correct:
  "(project_ptr_view h p = Some x \<longrightarrow> (\<exists>p' h'. Project_DeepCopyObject p h = Return (map_option ProjectPtr p', h') \<and>
      (p' = None \<longleftrightarrow> p = None) \<and> deeply_copied project_ptr_view x p h p' h')) \<and>
   (project_list_ptr_view h q = Some y \<longrightarrow>
     (\<exists>p' h'. ProjectList_DeepCopyObject q h = Return (map_option ProjectListPtr p', h') \<and>
      (p' = None \<longleftrightarrow> q = None) \<and> deeply_copied project_list_ptr_view y q h p' h')) \<and>
   (request_ptr_view h r = Some z \<longrightarrow>
     (\<exists>p' h'. ProjectRequest_DeepCopyObject r h = Return (map_option ProjectRequestPtr p', h') \<and>
      (p' = None \<longleftrightarrow> r = None) \<and> deeply_copied request_ptr_view z r h p' h'))"
  by (intro conjI impI object_copy [OF project_ptr.deep_copy_axioms]
      object_copy [OF project_list_ptr.deep_copy_axioms] object_copy [OF request_ptr.deep_copy_axioms])
    (simp_all add: fun_eq_iff Project_DeepCopyObject_def ProjectList_DeepCopyObject_def ProjectRequest_DeepCopyObject_def)

text \<open>A project with labels, owners that share a flag, a failed initializer and finalizers.\<close>

definition sample_memory :: "cell memory" where
  "sample_memory =
     [MapCell [(''team'', ''a''), (''tier'', ''b'')],
      BoolCell True,
      OwnersCell [zero_owner\<lparr>mo_Name := ''o'', mo_Controller := Some 1, mo_BlockOwnerDeletion := Some 1\<rparr>, zero_owner],
      CausesCell [zero_cause\<lparr>sc_Type := ''FieldValueInvalid''\<rparr>],
      DetailsCell (zero_details\<lparr>sd_Causes := Some 3\<rparr>),
      MetaStatusCell (zero_meta_status\<lparr>mst_Status := ''Failure'', mst_Details := Some 4\<rparr>),
      StringsCell [''i''],
      InitializersCell \<lparr>mi_Pending = Some 6, mi_Result = Some 5\<rparr>,
      StringsCell [''kubernetes''],
      ProjectCell (zero_project\<lparr>mp_ObjectMeta := zero_meta\<lparr>mm_Name := ''p'', mm_Labels := Some 0, mm_Annotations := Some 0,
        mm_OwnerReferences := Some 2, mm_Initializers := Some 7\<rparr>, mp_Spec := \<lparr>msp_Finalizers = Some 8\<rparr>\<rparr>),
      ProjectsCell [zero_project\<lparr>mp_Spec := \<lparr>msp_Finalizers = Some 8\<rparr>\<rparr>, zero_project],
      ProjectListCell (zero_project_list\<lparr>mpl_Items := Some 10\<rparr>),
      RequestCell (zero_request\<lparr>mr_ObjectMeta := zero_meta\<lparr>mm_Labels := Some 0\<rparr>\<rparr>)]"

lemmas view_defs = ptr_view_def struct_view_def pair_view_def flat_view_def list_view_def details_view_def
  meta_status_view_def initializers_view_def owner_view_def meta_parts_def meta_build_def meta_parts_view_def
  meta_view_def spec_view_def project_view_def project_list_view_def request_view_def map_get_def

lemma sample_views:
  "\<exists>x. project_ptr_view sample_memory (Some 9) = Some x" "\<exists>y. project_list_ptr_view sample_memory (Some 11) = Some y"
  "\<exists>z. request_ptr_view sample_memory (Some 12) = Some z"
  by (simp_all add: sample_memory_def view_defs load_def zero_owner_def zero_project_def zero_meta_def
      zero_project_list_def zero_request_def zero_meta_status_def zero_details_def)

theorem DeepCopyObject_correct_witness:
  "(\<exists>a h'. Project_DeepCopyObject (Some 9) sample_memory = Return (Some (ProjectPtr a), h')) \<and>
   (\<exists>a h'. ProjectList_DeepCopyObject (Some 11) sample_memory = Return (Some (ProjectListPtr a), h')) \<and>
   (\<exists>a h'. ProjectRequest_DeepCopyObject (Some 12) sample_memory = Return (Some (ProjectRequestPtr a), h'))"
proof -
  obtain x y z where
    "project_ptr_view sample_memory (Some 9) = Some x" "project_list_ptr_view sample_memory (Some 11) = Some y"
    "request_ptr_view sample_memory (Some 12) = Some z"
    using sample_views by blast
  with DeepCopyObject_correct [of sample_memory "Some 9" x "Some 11" y "Some 12" z] show ?thesis
    by fastforce
qed

end
