(* ===== verification/DeepCopyV1.thy ===== *)
theory DeepCopyV1
  imports DeepCopy
begin

text \<open>
  \<^verbatim>\<open>pkg/apis/project/v1/zz_generated.deepcopy.go\<close>: the deep copies of the versioned types. They are a
  separate generated file, so they have definitions of their own; the contract is that of the internal types.
\<close>

section \<open>The functions\<close>

definition V1ProjectSpec_DeepCopyInto :: "ref v1_spec \<Rightarrow> (cell, ref v1_spec) mem_code" where
  "V1ProjectSpec_DeepCopyInto v =
     bind_mem (values_copy StringsCell get_strings '''' (v1sp_Finalizers v)) (\<lambda>finalizers.
     return_mem (v\<lparr>v1sp_Finalizers := finalizers\<rparr>))"

definition V1ProjectSpec_DeepCopy :: "ref \<Rightarrow> (cell, ref) mem_code" where
  "V1ProjectSpec_DeepCopy p =
     ptr_copy V1SpecCell get_v1_spec (V1SpecCell \<lparr>v1sp_Finalizers = None\<rparr>) V1ProjectSpec_DeepCopyInto p"

definition V1ProjectStatus_DeepCopyInto :: "v1_status \<Rightarrow> (cell, v1_status) mem_code" where
  "V1ProjectStatus_DeepCopyInto v = return_mem v"

definition V1ProjectStatus_DeepCopy :: "ref \<Rightarrow> (cell, ref) mem_code" where
  "V1ProjectStatus_DeepCopy p =
     ptr_copy V1StatusCell get_v1_status (V1StatusCell \<lparr>v1st_Phase = ''''\<rparr>) V1ProjectStatus_DeepCopyInto p"

definition V1Project_DeepCopyInto :: "h_v1_project \<Rightarrow> (cell, h_v1_project) mem_code" where
  "V1Project_DeepCopyInto v =
     bind_mem (ObjectMeta_DeepCopyInto (v1p_ObjectMeta v)) (\<lambda>meta.
     bind_mem (V1ProjectSpec_DeepCopyInto (v1p_Spec v)) (\<lambda>spec.
     return_mem (v\<lparr>v1p_ObjectMeta := meta, v1p_Spec := spec, v1p_Status := v1p_Status v\<rparr>)))"

definition V1Project_DeepCopy :: "ref \<Rightarrow> (cell, ref) mem_code" where
  "V1Project_DeepCopy p = ptr_copy V1ProjectCell get_v1_project (V1ProjectCell zero_v1_project) V1Project_DeepCopyInto p"

definition V1ProjectList_DeepCopyInto :: "ref v1_project_list \<Rightarrow> (cell, ref v1_project_list) mem_code" where
  "V1ProjectList_DeepCopyInto v =
     bind_mem (slice_copy V1ProjectsCell get_v1_projects zero_v1_project V1Project_DeepCopyInto (v1pl_Items v)) (\<lambda>items.
     return_mem (v\<lparr>v1pl_Items := items\<rparr>))"

definition V1ProjectList_DeepCopy :: "ref \<Rightarrow> (cell, ref) mem_code" where
  "V1ProjectList_DeepCopy p =
     ptr_copy V1ProjectListCell get_v1_project_list (V1ProjectListCell zero_v1_project_list) V1ProjectList_DeepCopyInto p"

definition V1ProjectRequest_DeepCopyInto :: "h_meta v1_request \<Rightarrow> (cell, h_meta v1_request) mem_code" where
  "V1ProjectRequest_DeepCopyInto v =
     bind_mem (ObjectMeta_DeepCopyInto (v1r_ObjectMeta v)) (\<lambda>meta. return_mem (v\<lparr>v1r_ObjectMeta := meta\<rparr>))"

definition V1ProjectRequest_DeepCopy :: "ref \<Rightarrow> (cell, ref) mem_code" where
  "V1ProjectRequest_DeepCopy p =
     ptr_copy V1RequestCell get_v1_request (V1RequestCell zero_v1_request) V1ProjectRequest_DeepCopyInto p"

definition V1Project_DeepCopyObject :: "ref \<Rightarrow> (cell, object_ref option) mem_code" where
  "V1Project_DeepCopyObject p = bind_mem (V1Project_DeepCopy p) (as_object V1ProjectPtr)"

definition V1ProjectList_DeepCopyObject :: "ref \<Rightarrow> (cell, object_ref option) mem_code" where
  "V1ProjectList_DeepCopyObject p = bind_mem (V1ProjectList_DeepCopy p) (as_object V1ProjectListPtr)"

definition V1ProjectRequest_DeepCopyObject :: "ref \<Rightarrow> (cell, object_ref option) mem_code" where
  "V1ProjectRequest_DeepCopyObject p = bind_mem (V1ProjectRequest_DeepCopy p) (as_object V1ProjectRequestPtr)"

section \<open>Views\<close>

definition v1_spec_view :: "cell memory \<Rightarrow> ref v1_spec \<Rightarrow> v1_spec_value option" where
  "v1_spec_view =
     struct_view v1sp_Finalizers (\<lambda>v finalizers. \<lparr>v1sp_Finalizers = finalizers\<rparr>) (ptr_view get_strings flat_view)"

definition v1_project_view :: "cell memory \<Rightarrow> h_v1_project \<Rightarrow> v1_project_value option" where
  "v1_project_view = struct_view (\<lambda>v. (v1p_ObjectMeta v, v1p_Spec v))
     (\<lambda>v (meta, spec). \<lparr>v1p_TypeMeta = v1p_TypeMeta v, v1p_ObjectMeta = meta, v1p_Spec = spec,
        v1p_Status = v1p_Status v\<rparr>)
     (pair_view meta_view v1_spec_view)"

definition v1_project_list_view :: "cell memory \<Rightarrow> ref v1_project_list \<Rightarrow> v1_project_value list option v1_project_list option" where
  "v1_project_list_view = struct_view v1pl_Items
     (\<lambda>v items. \<lparr>v1pl_TypeMeta = v1pl_TypeMeta v, v1pl_ListMeta = v1pl_ListMeta v, v1pl_Items = items\<rparr>)
     (ptr_view get_v1_projects (list_view v1_project_view))"

definition v1_request_view :: "cell memory \<Rightarrow> h_meta v1_request \<Rightarrow> meta_value v1_request option" where
  "v1_request_view = struct_view v1r_ObjectMeta
     (\<lambda>v meta. \<lparr>v1r_TypeMeta = v1r_TypeMeta v, v1r_ObjectMeta = meta, v1r_DisplayName = v1r_DisplayName v,
        v1r_Description = v1r_Description v\<rparr>) meta_view"

abbreviation v1_project_ptr_view :: "cell memory \<Rightarrow> ref \<Rightarrow> v1_project_value option option" where
  "v1_project_ptr_view \<equiv> ptr_view get_v1_project v1_project_view"

abbreviation v1_project_list_ptr_view :: "cell memory \<Rightarrow> ref \<Rightarrow> v1_project_value list option v1_project_list option option" where
  "v1_project_list_ptr_view \<equiv> ptr_view get_v1_project_list v1_project_list_view"

abbreviation v1_request_ptr_view :: "cell memory \<Rightarrow> ref \<Rightarrow> meta_value v1_request option option" where
  "v1_request_ptr_view \<equiv> ptr_view get_v1_request v1_request_view"

section \<open>Every function meets the contract\<close>

lemma v1_spec_copy [deep_copies]: "deep_copy v1_spec_view V1ProjectSpec_DeepCopyInto"
  unfolding v1_spec_view_def
  by (rule deep_copy_by_parts [OF strings_copy, where put = "\<lambda>v f. v\<lparr>v1sp_Finalizers := f\<rparr>"])
    (simp_all add: V1ProjectSpec_DeepCopyInto_def copy_forms)

lemma v1_project_copy [deep_copies]: "deep_copy v1_project_view V1Project_DeepCopyInto"
  unfolding v1_project_view_def
  by (rule deep_copy_by_parts [OF deep_copy_pair [OF meta_copy v1_spec_copy],
        where put = "\<lambda>v p. v\<lparr>v1p_ObjectMeta := fst p, v1p_Spec := snd p\<rparr>"])
    (simp_all add: V1Project_DeepCopyInto_def copy_forms)

lemma v1_project_list_copy [deep_copies]: "deep_copy v1_project_list_view V1ProjectList_DeepCopyInto"
proof -
  have "deep_copy (ptr_view get_v1_projects (list_view v1_project_view))
      (slice_copy V1ProjectsCell get_v1_projects zero_v1_project V1Project_DeepCopyInto)"
    by (rule deep_copy_slice [OF v1_project_copy]) simp
  then show ?thesis
    unfolding v1_project_list_view_def
    by (rule deep_copy_by_parts [where put = "\<lambda>v i. v\<lparr>v1pl_Items := i\<rparr>"])
      (simp_all add: V1ProjectList_DeepCopyInto_def copy_forms)
qed

lemma v1_request_copy [deep_copies]: "deep_copy v1_request_view V1ProjectRequest_DeepCopyInto"
  unfolding v1_request_view_def
  by (rule deep_copy_by_parts [OF meta_copy, where put = "\<lambda>v m. v\<lparr>v1r_ObjectMeta := m\<rparr>"])
    (simp_all add: V1ProjectRequest_DeepCopyInto_def copy_forms)

interpretation v1_project_ptr: deep_copy v1_project_ptr_view V1Project_DeepCopy
  by (rule ptr_copy_contract [OF v1_project_copy, of get_v1_project V1ProjectCell]) (simp_all add: V1Project_DeepCopy_def)

interpretation v1_project_list_ptr: deep_copy v1_project_list_ptr_view V1ProjectList_DeepCopy
  by (rule ptr_copy_contract [OF v1_project_list_copy, of get_v1_project_list V1ProjectListCell])
    (simp_all add: V1ProjectList_DeepCopy_def)

interpretation v1_request_ptr: deep_copy v1_request_ptr_view V1ProjectRequest_DeepCopy
  by (rule ptr_copy_contract [OF v1_request_copy, of get_v1_request V1RequestCell])
    (simp_all add: V1ProjectRequest_DeepCopy_def)

interpretation v1_spec_ptr: deep_copy "ptr_view get_v1_spec v1_spec_view" V1ProjectSpec_DeepCopy
  by (rule ptr_copy_contract [OF v1_spec_copy, of get_v1_spec V1SpecCell]) (simp_all add: V1ProjectSpec_DeepCopy_def)

interpretation v1_status_ptr: deep_copy "ptr_view get_v1_status flat_view" V1ProjectStatus_DeepCopy
  by (rule ptr_copy_contract [OF deep_copy_flat, of get_v1_status V1StatusCell])
    (simp_all add: V1ProjectStatus_DeepCopy_def V1ProjectStatus_DeepCopyInto_def [abs_def])

section \<open>Properties\<close>

text \<open>
  C28: \<^verbatim>\<open>DeepCopyObject\<close> of each versioned kind: nil for the nil pointer and no other, else an interface value
  of the same kind whose copy is equal to and independent of the original.
\<close>

theorem V1_DeepCopyObject_correct:
  "(v1_project_ptr_view h p = Some x \<longrightarrow> (\<exists>p' h'. V1Project_DeepCopyObject p h = Return (map_option V1ProjectPtr p', h') \<and>
      (p' = None \<longleftrightarrow> p = None) \<and> deeply_copied v1_project_ptr_view x p h p' h')) \<and>
   (v1_project_list_ptr_view h q = Some y \<longrightarrow>
     (\<exists>p' h'. V1ProjectList_DeepCopyObject q h = Return (map_option V1ProjectListPtr p', h') \<and>
      (p' = None \<longleftrightarrow> q = None) \<and> deeply_copied v1_project_list_ptr_view y q h p' h')) \<and>
   (v1_request_ptr_view h r = Some z \<longrightarrow>
     (\<exists>p' h'. V1ProjectRequest_DeepCopyObject r h = Return (map_option V1ProjectRequestPtr p', h') \<and>
      (p' = None \<longleftrightarrow> r = None) \<and> deeply_copied v1_request_ptr_view z r h p' h'))"
  by (intro conjI impI object_copy [OF v1_project_ptr.deep_copy_axioms]
      object_copy [OF v1_project_list_ptr.deep_copy_axioms] object_copy [OF v1_request_ptr.deep_copy_axioms])
    (simp_all add: fun_eq_iff V1Project_DeepCopyObject_def V1ProjectList_DeepCopyObject_def
      V1ProjectRequest_DeepCopyObject_def)

definition v1_sample_memory :: "cell memory" where
  "v1_sample_memory =
     [MapCell [(''team'', ''a'')],
      StringsCell [''kubernetes''],
      V1ProjectCell (zero_v1_project\<lparr>v1p_ObjectMeta := zero_meta\<lparr>mm_Labels := Some 0\<rparr>,
        v1p_Spec := \<lparr>v1sp_Finalizers = Some 1\<rparr>\<rparr>),
      V1ProjectsCell [zero_v1_project, zero_v1_project\<lparr>v1p_Spec := \<lparr>v1sp_Finalizers = Some 1\<rparr>\<rparr>],
      V1ProjectListCell (zero_v1_project_list\<lparr>v1pl_Items := Some 3\<rparr>),
      V1RequestCell (zero_v1_request\<lparr>v1r_ObjectMeta := zero_meta\<lparr>mm_Annotations := Some 0\<rparr>\<rparr>)]"

lemma v1_sample_views:
  "\<exists>x. v1_project_ptr_view v1_sample_memory (Some 2) = Some x"
  "\<exists>y. v1_project_list_ptr_view v1_sample_memory (Some 4) = Some y"
  "\<exists>z. v1_request_ptr_view v1_sample_memory (Some 5) = Some z"
  by (simp_all add: v1_sample_memory_def view_defs v1_spec_view_def v1_project_view_def v1_project_list_view_def
      v1_request_view_def load_def zero_v1_project_def zero_meta_def zero_v1_project_list_def zero_v1_request_def)

theorem V1_DeepCopyObject_correct_witness:
  "(\<exists>a h'. V1Project_DeepCopyObject (Some 2) v1_sample_memory = Return (Some (V1ProjectPtr a), h')) \<and>
   (\<exists>a h'. V1ProjectList_DeepCopyObject (Some 4) v1_sample_memory = Return (Some (V1ProjectListPtr a), h')) \<and>
   (\<exists>a h'. V1ProjectRequest_DeepCopyObject (Some 5) v1_sample_memory = Return (Some (V1ProjectRequestPtr a), h'))"
proof -
  obtain x y z where
    "v1_project_ptr_view v1_sample_memory (Some 2) = Some x"
    "v1_project_list_ptr_view v1_sample_memory (Some 4) = Some y"
    "v1_request_ptr_view v1_sample_memory (Some 5) = Some z"
    using v1_sample_views by blast
  with V1_DeepCopyObject_correct [of v1_sample_memory "Some 2" x "Some 4" y "Some 5" z] show ?thesis
    by fastforce
qed

end
