(* ===== verification/ConvertMemory.thy ===== *)
theory ConvertMemory
  imports DeepCopy
begin

text \<open>
  \<^verbatim>\<open>pkg/project/util/util.go\<close> again, on memory: which maps and slices a converted object shares with the one
  it was made from. \<^verbatim>\<open>Convert\<close> has the functions on values; the lemmas here show that it is what one sees of
  these.
\<close>

section \<open>The code\<close>

definition deref :: "(cell \<Rightarrow> 'v option) \<Rightarrow> ref \<Rightarrow> (cell, 'v) mem_code" where
  "deref get p = (case p of None \<Rightarrow> (\<lambda>h. Panic ''invalid memory address or nil pointer dereference'') | Some a \<Rightarrow> read_cell get a)"

definition ConvertNamespace_mem :: "ref \<Rightarrow> (cell, ref) mem_code" where
  "ConvertNamespace_mem p =
     bind_mem (deref get_namespace p) (\<lambda>n.
     bind_mem (new_cell (ProjectCell
       \<lparr>mp_TypeMeta = zero_type_meta,
        mp_ObjectMeta = mn_ObjectMeta n,
        mp_Spec = \<lparr>msp_Finalizers = mn_Finalizers n\<rparr>,
        mp_Status = \<lparr>pst_Phase = mn_Phase n\<rparr>\<rparr>)) (\<lambda>b.
     return_mem (Some b)))"

text \<open>Indexing a map that may be nil, and writing to one that is not.\<close>

definition map_index_mem :: "ref \<Rightarrow> string \<Rightarrow> (cell, string) mem_code" where
  "map_index_mem m k =
     (case m of
        None \<Rightarrow> return_mem ''''
      | Some a \<Rightarrow> bind_mem (read_cell get_map a) (\<lambda>al. return_mem (gomap_index (Some al) k)))"

definition map_assign_mem :: "ref \<Rightarrow> string \<Rightarrow> string \<Rightarrow> (cell, unit) mem_code" where
  "map_assign_mem m k v =
     (case m of
        None \<Rightarrow> (\<lambda>h. Panic ''assignment to entry in nil map'')
      | Some a \<Rightarrow> bind_mem (read_cell get_map a) (\<lambda>al. write_cell a (MapCell (AList.update k v al))))"

definition ConvertProject_mem :: "ref \<Rightarrow> (cell, ref) mem_code" where
  "ConvertProject_mem p =
     bind_mem (deref get_project p) (\<lambda>project.
     bind_mem (new_cell (NamespaceCell
       \<lparr>mn_TypeMeta = zero_type_meta,
        mn_ObjectMeta = mp_ObjectMeta project,
        mn_Finalizers = msp_Finalizers (mp_Spec project),
        mn_Phase = pst_Phase (mp_Status project)\<rparr>)) (\<lambda>b.
     bind_mem (read_cell get_namespace b) (\<lambda>n.
     bind_mem (if mm_Annotations (mn_ObjectMeta n) = None
               then bind_mem (new_cell (MapCell [])) (\<lambda>m.
                    write_cell b (NamespaceCell (n\<lparr>mn_ObjectMeta := (mn_ObjectMeta n)\<lparr>mm_Annotations := Some m\<rparr>\<rparr>)))
               else return_mem ()) (\<lambda>_.
     bind_mem (deref get_project p) (\<lambda>project.
     bind_mem (map_index_mem (mm_Annotations (mp_ObjectMeta project)) ProjectDisplayName) (\<lambda>displayName.
     bind_mem (read_cell get_namespace b) (\<lambda>n.
     bind_mem (map_assign_mem (mm_Annotations (mn_ObjectMeta n)) ProjectDisplayName displayName) (\<lambda>_.
     return_mem (Some b)))))))))"

text \<open>
  \<^verbatim>\<open>append(projects.Items, *ConvertNamespace(&n))\<close>: \<open>q\<close> is the list made, \<open>b\<close> the variable \<^verbatim>\<open>n\<close> of the
  loop, one cell for all its turns. Nothing else holds the slice that append replaces, so whether it is
  replaced in place does not show.
\<close>

definition append_project :: "addr \<Rightarrow> h_project \<Rightarrow> (cell, unit) mem_code" where
  "append_project q prj =
     bind_mem (read_cell get_project_list q) (\<lambda>l.
     bind_mem (case mpl_Items l of None \<Rightarrow> return_mem [] | Some s \<Rightarrow> read_cell get_projects s) (\<lambda>items.
     bind_mem (new_cell (ProjectsCell (items @ [prj]))) (\<lambda>s.
     write_cell q (ProjectListCell (l\<lparr>mpl_Items := Some s\<rparr>)))))"

fun convert_loop_mem :: "addr \<Rightarrow> addr \<Rightarrow> h_namespace list \<Rightarrow> (cell, unit) mem_code" where
  "convert_loop_mem q b [] = return_mem ()"
| "convert_loop_mem q b (n # ns) =
     bind_mem (write_cell b (NamespaceCell n)) (\<lambda>_.
     bind_mem (ConvertNamespace_mem (Some b)) (\<lambda>r.
     bind_mem (deref get_project r) (\<lambda>prj.
     bind_mem (append_project q prj) (\<lambda>_.
     convert_loop_mem q b ns))))"

definition zero_namespace :: h_namespace where
  "zero_namespace = \<lparr>mn_TypeMeta = zero_type_meta, mn_ObjectMeta = zero_meta, mn_Finalizers = None, mn_Phase = ''''\<rparr>"

definition ConvertNamespaceList_mem :: "ref \<Rightarrow> (cell, ref) mem_code" where
  "ConvertNamespaceList_mem p =
     bind_mem (new_cell (ProjectListCell zero_project_list)) (\<lambda>q.
     bind_mem (deref get_namespace_list p) (\<lambda>l.
     bind_mem (case mnl_Items l of None \<Rightarrow> return_mem [] | Some s \<Rightarrow> read_cell get_namespaces s) (\<lambda>items.
     bind_mem (new_cell (NamespaceCell zero_namespace)) (\<lambda>b.
     bind_mem (convert_loop_mem q b items) (\<lambda>_. return_mem (Some q))))))"

section \<open>What one sees\<close>

definition namespace_view :: "cell memory \<Rightarrow> h_namespace \<Rightarrow> namespace_value option" where
  "namespace_view = struct_view (\<lambda>n. (mn_ObjectMeta n, mn_Finalizers n))
     (\<lambda>n (meta, finalizers). \<lparr>mn_TypeMeta = mn_TypeMeta n, mn_ObjectMeta = meta, mn_Finalizers = finalizers,
        mn_Phase = mn_Phase n\<rparr>)
     (pair_view meta_view (ptr_view get_strings flat_view))"

abbreviation namespace_ptr_view :: "cell memory \<Rightarrow> ref \<Rightarrow> namespace_value option option" where
  "namespace_ptr_view \<equiv> ptr_view get_namespace namespace_view"

abbreviation namespace_list_view :: "cell memory \<Rightarrow> ref \<Rightarrow> namespace_value list option option" where
  "namespace_list_view \<equiv> ptr_view get_namespaces (list_view namespace_view)"

text \<open>
  The values of \<^verbatim>\<open>ApiTypes\<close>: \<open>rest\<close> is any reading of what a status says beside its \<^verbatim>\<open>Status\<close> field.
\<close>

definition owner_of :: "owner_value \<Rightarrow> owner_reference" where
  "owner_of v = \<lparr>or_APIVersion = mo_APIVersion v, or_Kind = mo_Kind v, or_Name = mo_Name v, or_UID = mo_UID v,
     or_Controller = mo_Controller v\<rparr>"

definition initializers_of :: "(status_value \<Rightarrow> string) \<Rightarrow> initializers_value \<Rightarrow> initializers" where
  "initializers_of rest v = \<lparr>in_Pending = slice_items (mi_Pending v),
     in_Result = map_option (\<lambda>s. (mst_Status s, rest s)) (mi_Result v)\<rparr>"

definition meta_of :: "(status_value \<Rightarrow> string) \<Rightarrow> meta_value \<Rightarrow> object_meta" where
  "meta_of rest v = \<lparr>om_Name = mm_Name v, om_GenerateName = mm_GenerateName v, om_Namespace = mm_Namespace v,
     om_SelfLink = mm_SelfLink v, om_UID = mm_UID v, om_ResourceVersion = mm_ResourceVersion v,
     om_Generation = mm_Generation v, om_CreationTimestamp = mm_CreationTimestamp v,
     om_DeletionTimestamp = mm_DeletionTimestamp v, om_DeletionGracePeriodSeconds = mm_DeletionGracePeriodSeconds v,
     om_Labels = mm_Labels v, om_Annotations = mm_Annotations v,
     om_OwnerReferences = map owner_of (slice_items (mm_OwnerReferences v)),
     om_Initializers = map_option (initializers_of rest) (mm_Initializers v),
     om_Finalizers = slice_items (mm_Finalizers v), om_ClusterName = mm_ClusterName v\<rparr>"

definition project_of :: "(status_value \<Rightarrow> string) \<Rightarrow> project_value \<Rightarrow> project" where
  "project_of rest v = \<lparr>pr_ObjectMeta = meta_of rest (mp_ObjectMeta v),
     pr_Spec = \<lparr>ps_Finalizers = msp_Finalizers (mp_Spec v)\<rparr>, pr_Status = mp_Status v\<rparr>"

definition namespace_of :: "(status_value \<Rightarrow> string) \<Rightarrow> namespace_value \<Rightarrow> namespace" where
  "namespace_of rest v = \<lparr>ns_ObjectMeta = meta_of rest (mn_ObjectMeta v), ns_Finalizers = mn_Finalizers v,
     ns_Phase = mn_Phase v\<rparr>"

section \<open>Writing into a map\<close>

text \<open>Memories that differ at most in what their maps hold.\<close>

definition same_but_maps :: "cell memory \<Rightarrow> cell memory \<Rightarrow> bool" where
  "same_but_maps h h' \<longleftrightarrow>
     (\<forall>a. load h' a = load h a \<or> (\<exists>x y. load h a = Some (MapCell x) \<and> load h' a = Some (MapCell y)))"

lemma same_but_maps_store:
  "load h m = Some (MapCell al) \<Longrightarrow> same_but_maps h (store m (MapCell al') h)"
  unfolding same_but_maps_def
  using load_Some_less [of h m "MapCell al"] by (metis load_simps(2,3))

lemma ptr_view_same:
  assumes s: "same_but_maps h h'" and "\<And>x. get (MapCell x) = None" and v: "view h' = view h"
  shows "ptr_view get view h' = ptr_view get view h"
proof
  fix p
  show "ptr_view get view h' p = ptr_view get view h p"
  proof (cases p)
    case (Some a)
    have "Option.bind (load h' a) get = Option.bind (load h a) get"
      using s assms(2) unfolding same_but_maps_def by (metis Option.bind.simps(2))
    with Some v show ?thesis by (simp add: ptr_view_def split: option.split)
  qed (simp add: ptr_view_def)
qed

lemma struct_view_same: "view h' = view h \<Longrightarrow> struct_view parts build view h' = struct_view parts build view h"
  by (simp add: fun_eq_iff struct_view_def)

lemma pair_view_same: "f h' = f h \<Longrightarrow> g h' = g h \<Longrightarrow> pair_view f g h' = pair_view f g h"
  by (rule ext) (simp add: pair_view_def split: option.split)

lemma list_view_same: "view h' = view h \<Longrightarrow> list_view view h' = list_view view h"
  by (rule ext) (simp add: list_view_def)

lemma flat_view_same: "flat_view h' = flat_view h"
  by (simp add: fun_eq_iff flat_view_def)

lemmas view_same = struct_view_same pair_view_same list_view_same flat_view_same

lemma views_same:
  assumes "same_but_maps h h'"
  shows "owner_view h' = owner_view h" "initializers_view h' = initializers_view h"
    "spec_view h' = spec_view h" "ptr_view get_time flat_view h' = ptr_view get_time flat_view h"
    "ptr_view get_int flat_view h' = ptr_view get_int flat_view h"
    "ptr_view get_strings flat_view h' = ptr_view get_strings flat_view h"
    "ptr_view get_owners (list_view owner_view) h' = ptr_view get_owners (list_view owner_view) h"
    "ptr_view get_initializers initializers_view h' = ptr_view get_initializers initializers_view h"
  unfolding owner_view_def initializers_view_def meta_status_view_def details_view_def spec_view_def
  by (rule view_same ptr_view_same [OF assms] | simp)+

lemma get_map_Some: "get_map c = Some m \<longleftrightarrow> c = MapCell m"
  by (cases c) auto

lemma map_get_Some: "map_get get c = Some m \<longleftrightarrow> get c = Some m \<and> distinct (map fst m)"
  by (auto simp: map_get_def split: option.splits)

text \<open>The metadata that holds the map is seen
 with the new entries, when the labels are another map.\<close>

lemma meta_view_write:
  assumes v: "meta_view h v = Some x" and m: "mm_Annotations v = Some m" "mm_Labels v \<noteq> Some m"
    and d: "distinct (map fst al')"
  shows "meta_view (store m (MapCell al') h) v = Some (x\<lparr>mm_Annotations := Some al'\<rparr>)"
proof -
  from v m obtain al where al: "load h m = Some (MapCell al)"
    by (auto simp: meta_view_def struct_view_def meta_parts_view_def meta_parts_def ptr_view_Some_iff map_get_Some
        get_map_Some)
  let ?h = "store m (MapCell al') h"
  note same = views_same [OF same_but_maps_store [OF al, of al']]
  have "ptr_view (map_get get_map) flat_view ?h (mm_Labels v) = ptr_view (map_get get_map) flat_view h (mm_Labels v)"
    using m(2) by (cases "mm_Labels v") (auto simp: ptr_view_def flat_view_def split: option.split)
  moreover have "ptr_view (map_get get_map) flat_view ?h (Some m) = Some (Some al')"
    using load_Some_less [OF al] d by (simp add: ptr_view_def map_get_def flat_view_def)
  ultimately show ?thesis
    using v m(1) unfolding meta_view_def struct_view_def meta_parts_view_def meta_parts_def
    by (auto simp: same meta_build_def)
qed

section \<open>A project to a namespace\<close>

definition namespace_struct :: "h_project \<Rightarrow> h_namespace" where
  "namespace_struct v = \<lparr>mn_TypeMeta = zero_type_meta, mn_ObjectMeta = mp_ObjectMeta v,
     mn_Finalizers = msp_Finalizers (mp_Spec v), mn_Phase = pst_Phase (mp_Status v)\<rparr>"

lemmas mem_steps = bind_mem_def return_mem_def deref_def read_cell_def new_cell_def alloc_def write_cell_def
  map_index_mem_def map_assign_mem_def

text \<open>Without annotations the namespace has a map of its own.\<close>

lemma ConvertProject_mem_nil:
  assumes "load h a = Some (ProjectCell v)" and "mm_Annotations (mp_ObjectMeta v) = None"
  shows "ConvertProject_mem (Some a) h = Return (Some (length h),
    h @ [NamespaceCell (namespace_struct v\<lparr>mn_ObjectMeta := (mp_ObjectMeta v)\<lparr>mm_Annotations := Some (Suc (length h))\<rparr>\<rparr>),
      MapCell [(ProjectDisplayName, '''')]])"
proof -
  have a: "a < length h" using assms(1) by (rule load_Some_less)
  then have "load (h @ [c]) a = Some (ProjectCell v)" "load (h @ [c, c']) a = Some (ProjectCell v)" for c c'
    using assms(1) by simp_all
  with assms show ?thesis
    by (simp add: ConvertProject_mem_def mem_steps namespace_struct_def store_def list_update_append)
qed

text \<open>With annotations it shares the project's map, which the display name is written to.\<close>

lemma ConvertProject_mem_shared:
  assumes "load h a = Some (ProjectCell v)" and "mm_Annotations (mp_ObjectMeta v) = Some m"
    and "load h m = Some (MapCell al)"
  shows "ConvertProject_mem (Some a) h = Return (Some (length h),
    store m (MapCell (AList.update ProjectDisplayName (gomap_index (Some al) ProjectDisplayName) al))
      (h @ [NamespaceCell (namespace_struct v)]))"
proof -
  have a: "a < length h" "m < length h" using assms(1,3) by (auto dest: load_Some_less)
  then have "load (h @ [c]) a = Some (ProjectCell v)" "load (h @ [c]) m = Some (MapCell al)" for c
    using assms(1,3) by simp_all
  with assms show ?thesis
    by (simp add: ConvertProject_mem_def mem_steps namespace_struct_def)
qed

lemma meta_view_annotations:
  assumes "meta_view h v = Some x" and "ptr_view (map_get get_map) flat_view h p = Some y"
  shows "meta_view h (v\<lparr>mm_Annotations := p\<rparr>) = Some (x\<lparr>mm_Annotations := y\<rparr>)"
  using assms by (auto simp: meta_view_def struct_view_def meta_parts_view_def meta_parts_def meta_build_def)

lemma meta_view_Annotations:
  "meta_view h v = Some x \<Longrightarrow> ptr_view (map_get get_map) flat_view h (mm_Annotations v) = Some (mm_Annotations x)"
  by (auto simp: meta_view_def struct_view_def meta_parts_view_def meta_parts_def meta_build_def)

lemma project_view_parts:
  "project_view h v = Some x \<longleftrightarrow> meta_view h (mp_ObjectMeta v) = Some (mp_ObjectMeta x) \<and>
     spec_view h (mp_Spec v) = Some (mp_Spec x) \<and> mp_TypeMeta x = mp_TypeMeta v \<and> mp_Status x = mp_Status v"
  by (cases x) (auto simp: project_view_def struct_view_def)

lemma spec_view_parts:
  "spec_view h s = Some y \<longleftrightarrow> ptr_view get_strings flat_view h (msp_Finalizers s) = Some (msp_Finalizers y)"
  by (cases y) (auto simp: spec_view_def struct_view_def)

lemma namespace_view_parts:
  "namespace_view h n = Some y \<longleftrightarrow> meta_view h (mn_ObjectMeta n) = Some (mn_ObjectMeta y) \<and>
     ptr_view get_strings flat_view h (mn_Finalizers n) = Some (mn_Finalizers y) \<and>
     mn_TypeMeta y = mn_TypeMeta n \<and> mn_Phase y = mn_Phase n"
  by (cases y) (auto simp: namespace_view_def struct_view_def)

text \<open>The namespace and the project as \<^verbatim>\<open>Convert.ConvertProject\<close> has them.\<close>

definition namespace_value_of :: "project_value \<Rightarrow> strmap \<Rightarrow> namespace_value" where
  "namespace_value_of x al = \<lparr>mn_TypeMeta = zero_type_meta, mn_ObjectMeta = (mp_ObjectMeta x)\<lparr>mm_Annotations := Some al\<rparr>,
     mn_Finalizers = msp_Finalizers (mp_Spec x), mn_Phase = pst_Phase (mp_Status x)\<rparr>"

definition displayed :: "project_value \<Rightarrow> strmap" where
  "displayed x = AList.update ProjectDisplayName (gomap_index (mm_Annotations (mp_ObjectMeta x)) ProjectDisplayName)
     (gomap_items (mm_Annotations (mp_ObjectMeta x)))"

lemma ConvertProject_of:
  "ConvertProject (project_of rest x) =
     (namespace_of rest (namespace_value_of x (displayed x)),
      project_of rest (if mm_Annotations (mp_ObjectMeta x) = None then x
        else x\<lparr>mp_ObjectMeta := (mp_ObjectMeta x)\<lparr>mm_Annotations := Some (displayed x)\<rparr>\<rparr>))"
  by (simp add: ConvertProject_def project_of_def namespace_of_def namespace_value_of_def displayed_def meta_of_def
      gomap_items_def Let_def split: option.split)

abbreviation converted :: "cell memory \<Rightarrow> addr \<Rightarrow> project_value \<Rightarrow> bool" where
  "converted h a x \<equiv>
    \<exists>h'. ConvertProject_mem (Some a) h = Return (Some (length h), h') \<and>
      namespace_ptr_view h' (Some (length h)) = Some (Some (namespace_value_of x (displayed x))) \<and>
      project_ptr_view h' (Some a) = Some (Some (if mm_Annotations (mp_ObjectMeta x) = None then x
        else x\<lparr>mp_ObjectMeta := (mp_ObjectMeta x)\<lparr>mm_Annotations := Some (displayed x)\<rparr>\<rparr>))"

lemma converted_nil:
  assumes l: "load h a = Some (ProjectCell v)" and v: "project_view h v = Some x"
    and None: "mm_Annotations (mp_ObjectMeta v) = None"
  shows "converted h a x"
proof -
  let ?meta = "(mp_ObjectMeta v)\<lparr>mm_Annotations := Some (Suc (length h))\<rparr>"
  let ?h = "h @ [NamespaceCell (namespace_struct v\<lparr>mn_ObjectMeta := ?meta\<rparr>), MapCell [(ProjectDisplayName, '''')]]"
  have "prefix h ?h" by simp
  then have "project_view ?h v = Some x"
    using deep_copy.view_local [OF project_copy v agree_prefix] by blast
  then have parts: "meta_view ?h (mp_ObjectMeta v) = Some (mp_ObjectMeta x)" "spec_view ?h (mp_Spec v) = Some (mp_Spec x)"
    "mp_TypeMeta x = mp_TypeMeta v" "mp_Status x = mp_Status v" by (simp_all add: project_view_parts)
  from meta_view_Annotations [OF parts(1)] None have x: "mm_Annotations (mp_ObjectMeta x) = None"
    by (simp add: ptr_view_def)
  have "ptr_view (map_get get_map) flat_view ?h (Some (Suc (length h))) = Some (Some [(ProjectDisplayName, '''')])"
    by (simp add: ptr_view_def map_get_def flat_view_def)
  from meta_view_annotations [OF parts(1) this] parts(2,4)
  have "namespace_view ?h (namespace_struct v\<lparr>mn_ObjectMeta := ?meta\<rparr>) = Some (namespace_value_of x (displayed x))"
    by (simp add: namespace_view_parts namespace_struct_def namespace_value_of_def displayed_def x spec_view_parts
        gomap_index_def)
  moreover have "load ?h a = Some (ProjectCell v)"
    using l load_Some_less [OF l] by simp
  ultimately show ?thesis
    using ConvertProject_mem_nil [OF l None] \<open>project_view ?h v = Some x\<close> by (simp add: ptr_view_def x)
qed

lemma converted_shared:
  assumes l: "load h a = Some (ProjectCell v)" and v: "project_view h v = Some x"
    and Some: "mm_Annotations (mp_ObjectMeta v) = Some m" and labels: "mm_Labels (mp_ObjectMeta v) \<noteq> Some m"
  shows "converted h a x"
proof -
  have meta: "meta_view h (mp_ObjectMeta v) = Some (mp_ObjectMeta x)" using v by (simp add: project_view_parts)
  from meta_view_Annotations [OF this] Some obtain al where
    al: "load h m = Some (MapCell al)" "distinct (map fst al)" and x: "mm_Annotations (mp_ObjectMeta x) = Some al"
    by (auto simp: ptr_view_Some_iff map_get_Some flat_view_def get_map_Some)
  let ?h1 = "h @ [NamespaceCell (namespace_struct v)]"
  let ?h = "store m (MapCell (displayed x)) ?h1"
  have "prefix h ?h1" by simp
  then have "project_view ?h1 v = Some x"
    using deep_copy.view_local [OF project_copy v agree_prefix] by blast
  then have parts: "meta_view ?h1 (mp_ObjectMeta v) = Some (mp_ObjectMeta x)"
    "spec_view ?h1 (mp_Spec v) = Some (mp_Spec x)" "mp_TypeMeta x = mp_TypeMeta v" "mp_Status x = mp_Status v"
    by (simp_all add: project_view_parts)
  have m1: "load ?h1 m = Some (MapCell al)" using al(1) load_Some_less [OF al(1)] by simp
  have "distinct (map fst (displayed x))"
    using al(2) by (simp add: displayed_def x distinct_update)
  with parts(1) Some labels have "meta_view ?h (mp_ObjectMeta v) =
      Some ((mp_ObjectMeta x)\<lparr>mm_Annotations := Some (displayed x)\<rparr>)"
    by (intro meta_view_write) auto
  moreover have "spec_view ?h (mp_Spec v) = Some (mp_Spec x)"
    using views_same(3) [OF same_but_maps_store [OF m1]] parts(2) by simp
  moreover have "load ?h a = Some (ProjectCell v)" "load ?h (length h) = Some (NamespaceCell (namespace_struct v))"
    using l al(1) load_Some_less [OF l] load_Some_less [OF al(1)] by (auto simp: load_def store_def nth_append nth_list_update)
  ultimately show ?thesis
    using ConvertProject_mem_shared [OF l Some al(1)] parts(3,4)
    by (simp add: ptr_view_def x displayed_def [of x] project_view_parts namespace_view_parts namespace_struct_def
        namespace_value_of_def spec_view_parts)
qed

lemma ConvertProject_mem_views:
  "load h a = Some (ProjectCell v) \<Longrightarrow> project_view h v = Some x \<Longrightarrow>
    mm_Annotations (mp_ObjectMeta v) = None \<or> mm_Labels (mp_ObjectMeta v) \<noteq> mm_Annotations (mp_ObjectMeta v) \<Longrightarrow>
    converted h a x"
  using converted_nil converted_shared by (cases "mm_Annotations (mp_ObjectMeta v)") auto

section \<open>A list of namespaces\<close>

definition project_struct :: "h_namespace \<Rightarrow> h_project" where
  "project_struct n = \<lparr>mp_TypeMeta = zero_type_meta, mp_ObjectMeta = mn_ObjectMeta n,
     mp_Spec = \<lparr>msp_Finalizers = mn_Finalizers n\<rparr>, mp_Status = \<lparr>pst_Phase = mn_Phase n\<rparr>\<rparr>"

definition holds_items :: "cell memory \<Rightarrow> ref \<Rightarrow> h_project list \<Rightarrow> bool" where
  "holds_items h s items \<longleftrightarrow> (case s of None \<Rightarrow> items = [] | Some a \<Rightarrow> load h a = Some (ProjectsCell items))"

lemma append_project_step:
  assumes "load h q = Some (ProjectListCell l)" and "holds_items h (mpl_Items l) items"
  shows "append_project q prj h = Return ((),
    store q (ProjectListCell (l\<lparr>mpl_Items := Some (length h)\<rparr>)) (h @ [ProjectsCell (items @ [prj])]))"
  using assms load_Some_less [OF assms(1)]
  by (auto simp: append_project_def mem_steps holds_items_def split: option.splits)

text \<open>One turn: the variable is written, its struct converted and appended.\<close>

lemma convert_loop_mem_Cons:
  assumes "load h q = Some (ProjectListCell l)" and "holds_items h (mpl_Items l) items" and "b < length h" and "b \<noteq> q"
    and "mpl_Items l \<noteq> Some b"
  shows "\<exists>h' l'. convert_loop_mem q b (n # ns) h = convert_loop_mem q b ns h' \<and> length h \<le> length h' \<and>
    agree (cells h - {q, b}) h h' \<and> load h' q = Some (ProjectListCell (l\<lparr>mpl_Items := l'\<rparr>)) \<and>
    holds_items h' l' (items @ [project_struct n]) \<and> l' \<noteq> Some b"
proof -
  let ?h1 = "store b (NamespaceCell n) h"
  let ?h2 = "?h1 @ [ProjectCell (project_struct n)]"
  let ?h3 = "store q (ProjectListCell (l\<lparr>mpl_Items := Some (length ?h2)\<rparr>)) (?h2 @ [ProjectsCell (items @ [project_struct n])])"
  have q: "q < length h" using assms(1) by (rule load_Some_less)
  have l2: "load ?h2 q = Some (ProjectListCell l)" using assms(1,4) q by simp
  have i2: "holds_items ?h2 (mpl_Items l) items"
    using assms(2,5) load_Some_less by (fastforce simp: holds_items_def split: option.splits)
  have "ConvertNamespace_mem (Some b) ?h1 = Return (Some (length h), ?h2)"
    using assms(3) by (simp add: ConvertNamespace_mem_def mem_steps project_struct_def)
  moreover have "deref get_project (Some (length h)) ?h2 = Return (project_struct n, ?h2)"
    by (simp add: deref_def read_cell_def)
  ultimately have "convert_loop_mem q b (n # ns) h = convert_loop_mem q b ns ?h3"
    using append_project_step [OF l2 i2, of "project_struct n"] by (simp add: bind_mem_def write_cell_def)
  moreover have "agree (cells h - {q, b}) h ?h3" by (auto simp: agree_def)
  moreover have "load ?h3 q = Some (ProjectListCell (l\<lparr>mpl_Items := Some (length ?h2)\<rparr>))" using q by simp
  moreover have "holds_items ?h3 (Some (length ?h2)) (items @ [project_struct n])" using q by (simp add: holds_items_def)
  moreover have "length h \<le> length ?h3" "Some (length ?h2) \<noteq> Some b" using assms(3) by simp_all
  ultimately show ?thesis by blast
qed

lemma convert_loop_mem_run:
  "load h q = Some (ProjectListCell l) \<Longrightarrow> holds_items h (mpl_Items l) items \<Longrightarrow> b < length h \<Longrightarrow> b \<noteq> q \<Longrightarrow>
   mpl_Items l \<noteq> Some b \<Longrightarrow>
   \<exists>h' l'. convert_loop_mem q b ns h = Return ((), h') \<and> length h \<le> length h' \<and> agree (cells h - {q, b}) h h' \<and>
     load h' q = Some (ProjectListCell (l\<lparr>mpl_Items := l'\<rparr>)) \<and> holds_items h' l' (items @ map project_struct ns) \<and>
     (l' = None \<longleftrightarrow> mpl_Items l = None \<and> ns = [])"
proof (induction ns arbitrary: h l items)
  case Nil
  then show ?case
    by (intro exI [of _ h] exI [of _ "mpl_Items l"]) (simp add: return_mem_def)
next
  case (Cons n ns)
  obtain h1 l1 where 1: "convert_loop_mem q b (n # ns) h = convert_loop_mem q b ns h1" "length h \<le> length h1"
    "agree (cells h - {q, b}) h h1" "load h1 q = Some (ProjectListCell (l\<lparr>mpl_Items := l1\<rparr>))"
    "holds_items h1 l1 (items @ [project_struct n])" "l1 \<noteq> Some b"
    using convert_loop_mem_Cons [OF Cons.prems] by blast
  have "holds_items h1 (mpl_Items (l\<lparr>mpl_Items := l1\<rparr>)) (items @ [project_struct n])" "mpl_Items (l\<lparr>mpl_Items := l1\<rparr>) \<noteq> Some b"
    "b < length h1"
    using 1(2,5,6) Cons.prems(3) by simp_all
  from Cons.IH [OF 1(4) this(1,3) Cons.prems(4) this(2)] obtain h2 l2 where
    2: "convert_loop_mem q b ns h1 = Return ((), h2)" "length h1 \<le> length h2" "agree (cells h1 - {q, b}) h1 h2"
      "load h2 q = Some (ProjectListCell (l\<lparr>mpl_Items := l2\<rparr>))"
      "holds_items h2 l2 ((items @ [project_struct n]) @ map project_struct ns)" "l2 = None \<longleftrightarrow> l1 = None \<and> ns = []"
    by auto
  have "l1 \<noteq> None" using 1(5) by (cases l1) (auto simp: holds_items_def)
  moreover have "agree (cells h - {q, b}) h h2"
    using 1(2,3) 2(3) by (auto simp: agree_def)
  ultimately show ?case
    using 1(1,2) 2 by (intro exI [of _ h2] exI [of _ l2]) simp
qed

text \<open>
  The list made holds the structs made from the namespaces, their addresses included; the memory there was
  is unchanged.
\<close>

lemma ConvertNamespaceList_mem_run:
  assumes "load h a = Some (NamespaceListCell l)"
    and "case mnl_Items l of None \<Rightarrow> ns = [] | Some s \<Rightarrow> load h s = Some (NamespacesCell ns)"
  shows "\<exists>h' s. ConvertNamespaceList_mem (Some a) h = Return (Some (length h), h') \<and> prefix h h' \<and>
    load h' (length h) = Some (ProjectListCell (zero_project_list\<lparr>mpl_Items := s\<rparr>)) \<and>
    (s = None \<longleftrightarrow> ns = []) \<and> holds_items h' s (map project_struct ns)"
proof -
  let ?q = "length h" and ?b = "Suc (length h)"
  let ?h1 = "h @ [ProjectListCell zero_project_list]"
  let ?h = "h @ [ProjectListCell zero_project_list, NamespaceCell zero_namespace]"
  have "a < length h" using assms(1) by (rule load_Some_less)
  then have "deref get_namespace_list (Some a) ?h1 = Return (l, ?h1)"
    using assms(1) by (simp add: deref_def read_cell_def)
  moreover have "(case mnl_Items l of None \<Rightarrow> return_mem [] | Some s \<Rightarrow> read_cell get_namespaces s) ?h1 = Return (ns, ?h1)"
    using assms(2) load_Some_less by (fastforce simp: return_mem_def read_cell_def split: option.splits)
  ultimately have "ConvertNamespaceList_mem (Some a) h = bind_mem (convert_loop_mem ?q ?b ns) (\<lambda>_. return_mem (Some ?q)) ?h"
    by (simp add: ConvertNamespaceList_mem_def bind_mem_def new_cell_def alloc_def)
  moreover obtain h' s where r: "convert_loop_mem ?q ?b ns ?h = Return ((), h')" "length ?h \<le> length h'"
    "agree (cells ?h - {?q, ?b}) ?h h'" "load h' ?q = Some (ProjectListCell (zero_project_list\<lparr>mpl_Items := s\<rparr>))"
    "holds_items h' s ([] @ map project_struct ns)" "s = None \<longleftrightarrow> ns = []"
    using convert_loop_mem_run [of ?h ?q zero_project_list "[]" ?b ns] by (auto simp: holds_items_def zero_project_list_def)
  moreover have "prefix h h'"
    using r(2,3) by (intro prefix_agree) (auto simp: agree_def)
  ultimately show ?thesis
    by (intro exI [of _ h'] exI [of _ s]) (simp add: bind_mem_def return_mem_def)
qed

definition project_value_of :: "namespace_value \<Rightarrow> project_value" where
  "project_value_of y = \<lparr>mp_TypeMeta = zero_type_meta, mp_ObjectMeta = mn_ObjectMeta y,
     mp_Spec = \<lparr>msp_Finalizers = mn_Finalizers y\<rparr>, mp_Status = \<lparr>pst_Phase = mn_Phase y\<rparr>\<rparr>"

lemma project_of_value: "project_of rest (project_value_of y) = ConvertNamespace (namespace_of rest y)"
  by (simp add: project_of_def project_value_of_def ConvertNamespace_def namespace_of_def)

lemma project_struct_view:
  assumes "namespace_view h n = Some y" and "prefix h h'"
  shows "project_view h' (project_struct n) = Some (project_value_of y)"
proof -
  from assms(1) have v: "meta_view h (mn_ObjectMeta n) = Some (mn_ObjectMeta y)"
    "ptr_view get_strings flat_view h (mn_Finalizers n) = Some (mn_Finalizers y)" "mn_Phase y = mn_Phase n"
    by (simp_all add: namespace_view_parts)
  note ag = agree_prefix [OF assms(2)]
  from deep_copy.view_local [OF meta_copy v(1) ag] deep_copy.view_local [OF strings_copy v(2) ag] v(3)
  show ?thesis
    by (simp add: project_view_parts project_struct_def project_value_of_def spec_view_parts)
qed

section \<open>Properties\<close>

text \<open>
  C25: \<^verbatim>\<open>ConvertProject\<close> on memory is \<^verbatim>\<open>Convert.ConvertProject\<close> on what one sees: it returns a new namespace,
  and both the namespace and the project as the call leaves it read as that function says, provided the
  project's labels and annotations are not one map.
\<close>

theorem ConvertProject_mem_refines:
  assumes "project_ptr_view h (Some a) = Some (Some x)" and "load h a = Some (ProjectCell v)"
    and "mm_Annotations (mp_ObjectMeta v) = None \<or> mm_Labels (mp_ObjectMeta v) \<noteq> mm_Annotations (mp_ObjectMeta v)"
  shows "\<exists>b h' n x'. ConvertProject_mem (Some a) h = Return (Some b, h') \<and> length h \<le> b \<and>
    namespace_ptr_view h' (Some b) = Some (Some n) \<and> project_ptr_view h' (Some a) = Some (Some x') \<and>
    ConvertProject (project_of rest x) = (namespace_of rest n, project_of rest x')"
proof -
  have "project_view h v = Some x" using assms(1,2) by (auto simp: ptr_view_Some_iff)
  from ConvertProject_mem_views [OF assms(2) this assms(3)] show ?thesis
    by (elim exE) (rule exI [of _ "length h"], auto simp: ConvertProject_of)
qed

definition convert_sample :: "cell memory" where
  "convert_sample =
     [MapCell [(''team'', ''a'')],
      ProjectCell (zero_project\<lparr>mp_ObjectMeta := zero_meta\<lparr>mm_Name := ''p'', mm_Annotations := Some 0\<rparr>\<rparr>)]"

lemma convert_sample_view: "\<exists>x. project_ptr_view convert_sample (Some 1) = Some (Some x)"
  by (simp add: convert_sample_def view_defs load_def zero_project_def zero_meta_def)

theorem ConvertProject_mem_refines_witness:
  "\<exists>b h' n. ConvertProject_mem (Some 1) convert_sample = Return (Some b, h') \<and>
     namespace_ptr_view h' (Some b) = Some (Some n)"
proof -
  obtain x where "project_ptr_view convert_sample (Some 1) = Some (Some x)" using convert_sample_view by blast
  from ConvertProject_mem_refines [OF this, of _ "\<lambda>_. ''''"] show ?thesis
    by (fastforce simp: convert_sample_def load_def zero_project_def zero_meta_def)
qed

text \<open>
  C27: A converted list holds, in order, one project for each namespace, although all conversions are given
  the address of one loop variable; every project reads as \<^verbatim>\<open>Convert.ConvertNamespace\<close> of its namespace and
  shares its maps and slices; the memory there was is unchanged, and the list of no namespaces is nil.
\<close>

theorem ConvertNamespaceList_mem_correct:
  assumes "load h a = Some (NamespaceListCell l)" and "namespace_list_view h (mnl_Items l) = Some xs"
  shows "\<exists>q h' s. ConvertNamespaceList_mem (Some a) h = Return (Some q, h') \<and> prefix h h' \<and>
    load h' q = Some (ProjectListCell (zero_project_list\<lparr>mpl_Items := s\<rparr>)) \<and>
    (s = None \<longleftrightarrow> slice_items xs = []) \<and>
    (\<forall>t ns. mnl_Items l = Some t \<and> load h t = Some (NamespacesCell ns) \<longrightarrow> holds_items h' s (map project_struct ns)) \<and>
    (\<exists>ys. ptr_view get_projects (list_view project_view) h' s = Some ys \<and>
      map (project_of rest) (slice_items ys) = ConvertNamespaceList (map (namespace_of rest) (slice_items xs)))"
proof -
  obtain ns where ns: "case mnl_Items l of None \<Rightarrow> ns = [] | Some s \<Rightarrow> load h s = Some (NamespacesCell ns)"
    "list_view namespace_view h ns = Some (slice_items xs)"
  proof (cases "mnl_Items l")
    case None
    with assms(2) that [of "[]"] show ?thesis by (auto simp: ptr_view_def list_view_def)
  next
    case (Some s)
    with assms(2) obtain c ns y where "load h s = Some c" "get_namespaces c = Some ns"
      "list_view namespace_view h ns = Some y" "xs = Some y" by (auto simp: ptr_view_Some_iff)
    with Some that [of ns] show ?thesis by (cases c) auto
  qed
  obtain h' s where r: "ConvertNamespaceList_mem (Some a) h = Return (Some (length h), h')" "prefix h h'"
    "load h' (length h) = Some (ProjectListCell (zero_project_list\<lparr>mpl_Items := s\<rparr>))"
    "s = None \<longleftrightarrow> ns = []" "holds_items h' s (map project_struct ns)"
    using ConvertNamespaceList_mem_run [OF assms(1) ns(1)] by blast
  have "list_all2 (\<lambda>n y. namespace_view h n = Some y) ns (slice_items xs)"
    using ns(2) by (simp add: list_view_Some)
  then have "list_all2 (\<lambda>v x. project_view h' v = Some x) (map project_struct ns) (map project_value_of (slice_items xs))"
    unfolding list_all2_map1 list_all2_map2 by (rule list_all2_mono) (rule project_struct_view [OF _ r(2)])
  then have items: "list_view project_view h' (map project_struct ns) = Some (map project_value_of (slice_items xs))"
    by (simp add: list_view_Some)
  have empty: "ns = [] \<longleftrightarrow> slice_items xs = []"
    using ns(2) by (auto simp: list_view_Some)
  define ys where "ys = (if s = None then None else Some (map project_value_of (slice_items xs)))"
  have "ptr_view get_projects (list_view project_view) h' s = Some ys"
    using r(5) items by (cases s) (auto simp: holds_items_def ptr_view_def ys_def)
  moreover have "map (project_of rest) (slice_items ys) = ConvertNamespaceList (map (namespace_of rest) (slice_items xs))"
    using r(4) empty by (auto simp: ys_def ConvertNamespaceList_map project_of_value)
  moreover have "holds_items h' s (map project_struct ns')"
    if "mnl_Items l = Some t" "load h t = Some (NamespacesCell ns')" for t ns'
    using r(5) ns(1) that by simp
  ultimately show ?thesis
    using r(1-4) empty by blast
qed

definition list_sample :: "cell memory" where
  "list_sample =
     [MapCell [(''team'', ''a'')],
      NamespacesCell [zero_namespace\<lparr>mn_ObjectMeta := zero_meta\<lparr>mm_Name := ''p'', mm_Labels := Some 0\<rparr>\<rparr>, zero_namespace],
      NamespaceListCell \<lparr>mnl_TypeMeta = zero_type_meta, mnl_ListMeta = zero_list_meta, mnl_Items = Some 1\<rparr>]"

theorem ConvertNamespaceList_mem_correct_witness:
  "\<exists>q h' s. ConvertNamespaceList_mem (Some 2) list_sample = Return (Some q, h') \<and>
     load h' q = Some (ProjectListCell (zero_project_list\<lparr>mpl_Items := Some s\<rparr>))"
proof -
  obtain xs where xs: "namespace_list_view list_sample (Some 1) = Some xs" "slice_items xs \<noteq> []"
    by (simp add: list_sample_def view_defs namespace_view_def load_def zero_namespace_def zero_meta_def)
  have "load list_sample 2 = Some (NamespaceListCell \<lparr>mnl_TypeMeta = zero_type_meta, mnl_ListMeta = zero_list_meta, mnl_Items = Some 1\<rparr>)"
    by (simp add: list_sample_def load_def)
  from ConvertNamespaceList_mem_correct [OF this, of xs "\<lambda>_. ''''"] xs show ?thesis by fastforce
qed

end
