(* ===== verification/Scheme.thy ===== *)
theory Scheme
  imports MetaValidation
begin

text \<open>
  The scheme of the apimachinery library (\<^verbatim>\<open>runtime/scheme.go\<close>, \<^verbatim>\<open>scheme_builder.go\<close>): which Go type stands
  for which group, version and kind. The program's \<^verbatim>\<open>register.go\<close> files fill one scheme, that the API server
  decodes, converts and encodes with. The converter's tables are not part of the model.
\<close>

section \<open>Names and types\<close>

record group_version =
  gv_Group :: string
  gv_Version :: string

record group_version_kind =
  gvk_Group :: string
  gvk_Version :: string
  gvk_Kind :: string

definition APIVersionInternal :: string where
  "APIVersionInternal = ''__internal''"

definition WithKind :: "group_version \<Rightarrow> string \<Rightarrow> group_version_kind" where
  "WithKind gv kind = \<lparr>gvk_Group = gv_Group gv, gvk_Version = gv_Version gv, gvk_Kind = kind\<rparr>"

definition gvk_GroupVersion :: "group_version_kind \<Rightarrow> group_version" where
  "gvk_GroupVersion gvk = \<lparr>gv_Group = gvk_Group gvk, gv_Version = gvk_Version gvk\<rparr>"

text \<open>\<^verbatim>\<open>reflect.Type\<close>, as far as the scheme looks: the package and name of a struct, pointers, and other types.\<close>

datatype go_type = StructType string string | PtrType go_type | OtherType string string

fun t_Name :: "go_type \<Rightarrow> string" where
  "t_Name (StructType pkg name) = name"
| "t_Name (PtrType t) = ''''"
| "t_Name (OtherType pkg name) = name"

section \<open>The scheme\<close>

record scheme =
  gvkToType :: "(group_version_kind \<times> go_type) list"
  typeToGVK :: "(go_type \<times> group_version_kind list) list"
  unversionedTypes :: "(go_type \<times> group_version_kind) list"
  unversionedKinds :: "(string \<times> go_type) list"

definition NewScheme :: scheme where
  "NewScheme = \<lparr>gvkToType = [], typeToGVK = [], unversionedTypes = [], unversionedKinds = []\<rparr>"

text \<open>\<^verbatim>\<open>s.typeToGVK[t]\<close>: nil for a type that is not registered.\<close>

definition kinds_of :: "scheme \<Rightarrow> go_type \<Rightarrow> group_version_kind list" where
  "kinds_of s t = (case map_of (typeToGVK s) t of None \<Rightarrow> [] | Some gvks \<Rightarrow> gvks)"

definition AddKnownTypeWithName :: "group_version_kind \<Rightarrow> go_type \<Rightarrow> scheme \<Rightarrow> scheme outcome" where
  "AddKnownTypeWithName gvk obj s =
     (if length (gvk_Version gvk) = 0 then Panic ''version is required on all types''
      else case obj of
        PtrType t \<Rightarrow>
          (case t of
             StructType pkg name \<Rightarrow>
               (if map_of (gvkToType s) gvk \<notin> {None, Some t} then Panic ''Double registration of different types''
                else let s = s\<lparr>gvkToType := AList.update gvk t (gvkToType s)\<rparr>
                     in if gvk \<in> set (kinds_of s t) then Return s
                        else Return (s\<lparr>typeToGVK := AList.update t (kinds_of s t @ [gvk]) (typeToGVK s)\<rparr>))
           | _ \<Rightarrow> Panic ''All types must be pointers to structs.'')
      | _ \<Rightarrow> Panic ''All types must be pointers to structs.'')"

fun AddKnownTypes :: "group_version \<Rightarrow> go_type list \<Rightarrow> scheme \<Rightarrow> scheme outcome" where
  "AddKnownTypes gv [] s = Return s"
| "AddKnownTypes gv (PtrType t # objs) s =
     bind_outcome (AddKnownTypeWithName (WithKind gv (t_Name t)) (PtrType t) s) (AddKnownTypes gv objs)"
| "AddKnownTypes gv (obj # objs) s = Panic ''All types must be pointers to structs.''"

fun add_unversioned :: "group_version \<Rightarrow> go_type list \<Rightarrow> scheme \<Rightarrow> scheme outcome" where
  "add_unversioned version [] s = Return s"
| "add_unversioned version (PtrType t # objs) s =
     (let gvk = WithKind version (t_Name t);
          s = s\<lparr>unversionedTypes := AList.update t gvk (unversionedTypes s)\<rparr>
      in if map_of (unversionedKinds s) (gvk_Kind gvk) \<notin> {None, Some t}
         then Panic ''has already been registered as unversioned kind''
         else add_unversioned version objs (s\<lparr>unversionedKinds := AList.update (gvk_Kind gvk) t (unversionedKinds s)\<rparr>))"
| "add_unversioned version (obj # objs) s = Panic ''reflect: Elem of invalid type''"

definition AddUnversionedTypes :: "group_version \<Rightarrow> go_type list \<Rightarrow> scheme \<Rightarrow> scheme outcome" where
  "AddUnversionedTypes version types s = bind_outcome (AddKnownTypes version types s) (add_unversioned version types)"

definition KnownTypes :: "scheme \<Rightarrow> group_version \<Rightarrow> (string \<times> go_type) list" where
  "KnownTypes s gv =
     fold (\<lambda>(gvk, t) types. if gv \<noteq> gvk_GroupVersion gvk then types else AList.update (gvk_Kind gvk) t types)
       (gvkToType s) []"

text \<open>\<^verbatim>\<open>ObjectKinds\<close> of an object that is not unstructured, by its type.\<close>

definition ObjectKinds :: "scheme \<Rightarrow> go_type \<Rightarrow> (go_error + group_version_kind list \<times> bool)" where
  "ObjectKinds s obj =
     (case obj of
        PtrType t \<Rightarrow>
          (case map_of (typeToGVK s) t of
             None \<Rightarrow> Inl (Errorf ''no kind is registered for the type %v'' [t_Name t] [])
           | Some gvks \<Rightarrow> Inr (gvks, map_of (unversionedTypes s) t \<noteq> None))
      | _ \<Rightarrow> Inl (Errorf ''expected pointer, but got %v type'' [t_Name obj] []))"

definition Recognizes :: "scheme \<Rightarrow> group_version_kind \<Rightarrow> bool" where
  "Recognizes s gvk \<longleftrightarrow> map_of (gvkToType s) gvk \<noteq> None"

definition scheme_New :: "scheme \<Rightarrow> group_version_kind \<Rightarrow> go_error + go_type" where
  "scheme_New s kind =
     (case map_of (gvkToType s) kind of
        Some t \<Rightarrow> Inr (PtrType t)
      | None \<Rightarrow>
          (case map_of (unversionedKinds s) (gvk_Kind kind) of
             Some t \<Rightarrow> Inr (PtrType t)
           | None \<Rightarrow> Inl (Errorf ''no kind %q is registered for version %q'' [gvk_Kind kind, gvk_Version kind] [])))"

text \<open>The name two types must share for the converter to pair them.\<close>

fun preferred_name :: "scheme \<Rightarrow> group_version_kind list \<Rightarrow> string option" where
  "preferred_name s [] = None"
| "preferred_name s (gvk # gvks) =
     (case map_of (gvkToType s) (gvk\<lparr>gvk_Version := ''__internal''\<rparr>) of
        Some internalType \<Rightarrow> Some (gvk_Kind (hd (kinds_of s internalType)))
      | None \<Rightarrow> preferred_name s gvks)"

definition nameFunc :: "scheme \<Rightarrow> go_type \<Rightarrow> string" where
  "nameFunc s t =
     (case map_of (typeToGVK s) t of
        None \<Rightarrow> t_Name t
      | Some gvks \<Rightarrow> (case preferred_name s gvks of Some n \<Rightarrow> n | None \<Rightarrow> gvk_Kind (hd gvks)))"

text \<open>Functions that add to a scheme, run in their order up to the first error.\<close>

type_synonym scheme_func = "scheme \<Rightarrow> (go_error option \<times> scheme) outcome"

fun SchemeBuilder_AddToScheme :: "scheme_func list \<Rightarrow> scheme_func" where
  "SchemeBuilder_AddToScheme [] s = Return (None, s)"
| "SchemeBuilder_AddToScheme (f # fs) s =
     bind_outcome (f s) (\<lambda>(err, s). if err \<noteq> None then Return (err, s) else SchemeBuilder_AddToScheme fs s)"

section \<open>Well-typed schemes\<close>

text \<open>
  The two tables say the same: a kind is in a type's list exactly when it is read as that type, no list has
  a kind twice or is empty, and only structs with a version are in it. Unversioned types are registered.
\<close>

definition scheme_typed :: "scheme \<Rightarrow> bool" where
  "scheme_typed s \<longleftrightarrow>
     (\<forall>gvk t. map_of (gvkToType s) gvk = Some t \<longleftrightarrow> gvk \<in> set (kinds_of s t)) \<and>
     (\<forall>t gvks. map_of (typeToGVK s) t = Some gvks \<longrightarrow> gvks \<noteq> [] \<and> distinct gvks) \<and>
     (\<forall>gvk t. map_of (gvkToType s) gvk = Some t \<longrightarrow> (\<exists>pkg. t = StructType pkg (t_Name t)) \<and> gvk_Version gvk \<noteq> '''') \<and>
     (\<forall>t gvk. map_of (unversionedTypes s) t = Some gvk \<longrightarrow> map_of (gvkToType s) gvk = Some t) \<and>
     (\<forall>kind t. map_of (unversionedKinds s) kind = Some t \<longrightarrow> map_of (unversionedTypes s) t \<noteq> None)"

lemma NewScheme_typed: "scheme_typed NewScheme"
  by (simp add: scheme_typed_def NewScheme_def kinds_of_def)

lemma kinds_of_gvkToType [simp]: "kinds_of (s\<lparr>gvkToType := m\<rparr>) t = kinds_of s t"
  by (simp add: kinds_of_def)

text \<open>What a registration that returns has changed.\<close>

lemma AddKnownTypeWithName_Return:
  assumes "AddKnownTypeWithName gvk obj s = Return s'"
  obtains pkg name where "obj = PtrType (StructType pkg name)"
    and "gvk_Version gvk \<noteq> ''''"
    and "map_of (gvkToType s) gvk \<in> {None, Some (StructType pkg name)}"
    and "map_of (gvkToType s') = (map_of (gvkToType s))(gvk \<mapsto> StructType pkg name)"
    and "map_of (typeToGVK s') = (if gvk \<in> set (kinds_of s (StructType pkg name)) then map_of (typeToGVK s)
           else (map_of (typeToGVK s))(StructType pkg name \<mapsto> kinds_of s (StructType pkg name) @ [gvk]))"
    and "unversionedTypes s' = unversionedTypes s" and "unversionedKinds s' = unversionedKinds s"
proof -
  from assms obtain pkg name where t: "obj = PtrType (StructType pkg name)"
    by (auto simp: AddKnownTypeWithName_def split: go_type.splits if_splits)
  show ?thesis
    by (rule that [OF t])
      (use assms in \<open>auto simp: t AddKnownTypeWithName_def update_conv' Let_def split: if_splits\<close>)
qed

lemma kinds_of_update:
  assumes "map_of (typeToGVK s') = (if gvk \<in> set (kinds_of s t) then map_of (typeToGVK s)
           else (map_of (typeToGVK s))(t \<mapsto> kinds_of s t @ [gvk]))"
  shows "set (kinds_of s' u) = (if u = t then insert gvk (set (kinds_of s t)) else set (kinds_of s u))"
  using assms by (auto simp: kinds_of_def split: if_splits)

lemma AddKnownTypeWithName_typed:
  assumes s: "scheme_typed s" and "AddKnownTypeWithName gvk obj s = Return s'"
  shows "scheme_typed s'"
  using assms(2)
proof (rule AddKnownTypeWithName_Return)
  fix pkg name
  let ?t = "StructType pkg name"
  assume r: "gvk_Version gvk \<noteq> ''''" "map_of (gvkToType s) gvk \<in> {None, Some ?t}"
    "map_of (gvkToType s') = (map_of (gvkToType s))(gvk \<mapsto> ?t)"
    "map_of (typeToGVK s') = (if gvk \<in> set (kinds_of s ?t) then map_of (typeToGVK s)
      else (map_of (typeToGVK s))(?t \<mapsto> kinds_of s ?t @ [gvk]))"
    "unversionedTypes s' = unversionedTypes s" "unversionedKinds s' = unversionedKinds s"
  note k = kinds_of_update [OF r(4)]
  have inv: "map_of (gvkToType s) g = Some t \<longleftrightarrow> g \<in> set (kinds_of s t)" for g t
    using s unfolding scheme_typed_def by blast
  have lists: "gvks \<noteq> [] \<and> distinct gvks" if "map_of (typeToGVK s) t = Some gvks" for t gvks
    using s that unfolding scheme_typed_def by blast
  have structs: "(\<exists>p. t = StructType p (t_Name t)) \<and> gvk_Version g \<noteq> ''''" if "map_of (gvkToType s) g = Some t" for g t
    using s that unfolding scheme_typed_def by blast
  have unv: "map_of (gvkToType s) g = Some t" if "map_of (unversionedTypes s) t = Some g" for g t
    using s that unfolding scheme_typed_def by blast
  have "map_of (gvkToType s') g = Some t \<longleftrightarrow> g \<in> set (kinds_of s' t)" for g t
  proof (cases "g = gvk")
    case True
    with r(2) inv [of gvk t] show ?thesis by (auto simp: r(3) k)
  next
    case False
    with inv [of g t] show ?thesis by (simp add: r(3) k)
  qed
  moreover have "gvks \<noteq> [] \<and> distinct gvks" if "map_of (typeToGVK s') t = Some gvks" for t gvks
    using that lists [of t gvks] lists [of ?t "kinds_of s ?t"] unfolding r(4)
    by (cases "map_of (typeToGVK s) ?t") (auto simp: kinds_of_def split: if_splits)
  moreover have "(\<exists>p. t = StructType p (t_Name t)) \<and> gvk_Version g \<noteq> ''''" if "map_of (gvkToType s') g = Some t" for g t
    using that structs [of g t] r(1) unfolding r(3) by (cases "g = gvk") auto
  moreover have "map_of (gvkToType s') g = Some t" if "map_of (unversionedTypes s) t = Some g" for g t
    using unv [OF that] r(2) unfolding r(3) by auto
  moreover have "map_of (unversionedTypes s) t \<noteq> None" if "map_of (unversionedKinds s) k = Some t" for k t
    using that s unfolding scheme_typed_def by blast
  ultimately show ?thesis
    unfolding scheme_typed_def r(5,6) by blast
qed

text \<open>A kind that is known stays known as the same type.\<close>

definition knows_more :: "scheme \<Rightarrow> scheme \<Rightarrow> bool" where
  "knows_more s s' \<longleftrightarrow> (\<forall>g t. map_of (gvkToType s) g = Some t \<longrightarrow> map_of (gvkToType s') g = Some t)"

lemma knows_more_refl [simp]: "knows_more s s"
  by (simp add: knows_more_def)

lemma knows_more_trans: "knows_more s s' \<Longrightarrow> knows_more s' s'' \<Longrightarrow> knows_more s s''"
  by (simp add: knows_more_def)

lemma AddKnownTypeWithName_more: "AddKnownTypeWithName gvk obj s = Return s' \<Longrightarrow> knows_more s s'"
  by (erule AddKnownTypeWithName_Return) (auto simp: knows_more_def)

lemma AddKnownTypes_more: "AddKnownTypes gv objs s = Return s' \<Longrightarrow> knows_more s s'"
  by (induction gv objs s rule: AddKnownTypes.induct)
    (auto dest: AddKnownTypeWithName_more intro: knows_more_trans)

lemma AddKnownTypes_typed: "AddKnownTypes gv objs s = Return s' \<Longrightarrow> scheme_typed s \<Longrightarrow> scheme_typed s'"
  by (induction gv objs s rule: AddKnownTypes.induct) (auto intro: AddKnownTypeWithName_typed)

lemma AddKnownTypes_known:
  "AddKnownTypes gv objs s = Return s' \<Longrightarrow> PtrType t \<in> set objs \<Longrightarrow> map_of (gvkToType s') (WithKind gv (t_Name t)) = Some t"
proof (induction gv objs s rule: AddKnownTypes.induct)
  case (2 gv u objs s)
  from "2.prems"(1) obtain s1 where s1: "AddKnownTypeWithName (WithKind gv (t_Name u)) (PtrType u) s = Return s1"
    "AddKnownTypes gv objs s1 = Return s'" by auto
  from s1(1) have "map_of (gvkToType s1) (WithKind gv (t_Name u)) = Some u"
    by (rule AddKnownTypeWithName_Return) auto
  then have "map_of (gvkToType s') (WithKind gv (t_Name u)) = Some u"
    using AddKnownTypes_more [OF s1(2)] by (simp add: knows_more_def)
  with "2.IH" [OF s1] "2.prems"(2) show ?case by auto
qed auto

lemma add_unversioned_typed:
  "add_unversioned gv objs s = Return s' \<Longrightarrow> scheme_typed s \<Longrightarrow>
   (\<And>t. PtrType t \<in> set objs \<Longrightarrow> map_of (gvkToType s) (WithKind gv (t_Name t)) = Some t) \<Longrightarrow>
   scheme_typed s' \<and> gvkToType s' = gvkToType s"
proof (induction gv objs s rule: add_unversioned.induct)
  case (2 gv t objs s)
  let ?gvk = "WithKind gv (t_Name t)"
  let ?s = "s\<lparr>unversionedTypes := AList.update t ?gvk (unversionedTypes s)\<rparr>"
  let ?s1 = "?s\<lparr>unversionedKinds := AList.update (gvk_Kind ?gvk) t (unversionedKinds s)\<rparr>"
  from "2.prems"(1) have r: "map_of (unversionedKinds s) (gvk_Kind ?gvk) \<in> {None, Some t}" "add_unversioned gv objs ?s1 = Return s'"
    by (auto simp: Let_def split: if_splits)
  have t: "map_of (gvkToType s) ?gvk = Some t" using "2.prems"(3) by simp
  have "scheme_typed ?s1"
    using "2.prems"(2) t unfolding scheme_typed_def kinds_of_def by (auto simp: update_conv' split: if_splits)
  moreover have "map_of (gvkToType ?s1) (WithKind gv (t_Name u)) = Some u" if "PtrType u \<in> set objs" for u
    using that "2.prems"(3) by simp
  ultimately show ?case
    using "2.IH" [OF refl refl] r by (auto simp: Let_def)
qed auto

lemma AddUnversionedTypes_typed:
  assumes "AddUnversionedTypes gv objs s = Return s'" and "scheme_typed s"
  shows "scheme_typed s'" "knows_more s s'"
proof -
  obtain s1 where s1: "AddKnownTypes gv objs s = Return s1" "add_unversioned gv objs s1 = Return s'"
    using assms(1) by (auto simp: AddUnversionedTypes_def)
  have "scheme_typed s' \<and> gvkToType s' = gvkToType s1"
    by (rule add_unversioned_typed [OF s1(2) AddKnownTypes_typed [OF s1(1) assms(2)]])
      (rule AddKnownTypes_known [OF s1(1)])
  with AddKnownTypes_more [OF s1(1)] show "scheme_typed s'" "knows_more s s'"
    by (simp_all add: knows_more_def)
qed

end
