(* ===== verification/Install.thy ===== *)
theory Install
  imports Scheme
begin

text \<open>
  The registration of the API group: \<^verbatim>\<open>pkg/apis/project/register.go\<close>, \<^verbatim>\<open>pkg/apis/project/v1/register.go\<close> and
  \<^verbatim>\<open>pkg/apis/project/install/install.go\<close>, with the library's registration manager and group factory
  (\<^verbatim>\<open>apimachinery/registered\<close>, \<^verbatim>\<open>apimachinery/announced\<close>). All of it runs before \<^verbatim>\<open>main\<close>.
\<close>

section \<open>The types of the group\<close>

definition project_type :: "string \<Rightarrow> go_type" where
  "project_type name = StructType ''github.com/openshift/kube-projects/pkg/apis/project'' name"

definition v1_type :: "string \<Rightarrow> go_type" where
  "v1_type name = StructType ''github.com/openshift/kube-projects/pkg/apis/project/v1'' name"

definition meta_type :: "string \<Rightarrow> go_type" where
  "meta_type name = StructType ''k8s.io/apimachinery/pkg/apis/meta/v1'' name"

definition Internal_SchemeGroupVersion :: group_version where
  "Internal_SchemeGroupVersion = \<lparr>gv_Group = GroupName, gv_Version = APIVersionInternal\<rparr>"

definition addKnownTypes :: scheme_func where
  "addKnownTypes s =
     bind_outcome (AddKnownTypes Internal_SchemeGroupVersion
       [PtrType (project_type ''Project''), PtrType (project_type ''ProjectList''), PtrType (project_type ''ProjectRequest'')] s)
     (\<lambda>s. Return (None, s))"

definition AddToScheme :: scheme_func where
  "AddToScheme = SchemeBuilder_AddToScheme [addKnownTypes]"

text \<open>\<^verbatim>\<open>metav1.AddToGroupVersion\<close>, but for the conversions and defaults it adds to the converter.\<close>

definition AddToGroupVersion :: "group_version \<Rightarrow> scheme \<Rightarrow> scheme outcome" where
  "AddToGroupVersion gv s =
     bind_outcome (AddKnownTypeWithName (WithKind gv ''WatchEvent'') (PtrType (meta_type ''WatchEvent'')) s) (\<lambda>s.
     bind_outcome (AddKnownTypeWithName
       (WithKind \<lparr>gv_Group = gv_Group gv, gv_Version = APIVersionInternal\<rparr> ''WatchEvent'') (PtrType (meta_type ''InternalEvent'')) s) (\<lambda>s.
     bind_outcome (AddKnownTypes gv
       [PtrType (meta_type ''ListOptions''), PtrType (meta_type ''ExportOptions''), PtrType (meta_type ''GetOptions''),
        PtrType (meta_type ''DeleteOptions'')] s) (\<lambda>s.
     AddUnversionedTypes \<lparr>gv_Group = '''', gv_Version = ''v1''\<rparr>
       [PtrType (meta_type ''Status''), PtrType (meta_type ''APIVersions''), PtrType (meta_type ''APIGroupList''),
        PtrType (meta_type ''APIGroup''), PtrType (meta_type ''APIResourceList'')] s)))"

definition V1_SchemeGroupVersion :: group_version where
  "V1_SchemeGroupVersion = \<lparr>gv_Group = ''project.openshift.io'', gv_Version = ''v1''\<rparr>"

definition V1_addKnownTypes :: scheme_func where
  "V1_addKnownTypes s =
     bind_outcome (AddKnownTypes V1_SchemeGroupVersion
       [PtrType (v1_type ''Project''), PtrType (v1_type ''ProjectList''), PtrType (v1_type ''ProjectRequest'')] s) (\<lambda>s.
     bind_outcome (AddToGroupVersion V1_SchemeGroupVersion s) (\<lambda>s. Return (None, s)))"

definition addConversionFuncs :: scheme_func where
  "addConversionFuncs s = Return (None, s)"

definition V1_AddToScheme :: scheme_func where
  "V1_AddToScheme = SchemeBuilder_AddToScheme [V1_addKnownTypes, addConversionFuncs]"

definition unversionedVersion :: group_version where
  "unversionedVersion = \<lparr>gv_Group = '''', gv_Version = ''v1''\<rparr>"

definition register_unversionedTypes :: "go_type list" where
  "register_unversionedTypes =
     [PtrType (meta_type ''Status''), PtrType (meta_type ''WatchEvent''), PtrType (meta_type ''APIVersions''),
      PtrType (meta_type ''APIGroupList''), PtrType (meta_type ''APIGroup''), PtrType (meta_type ''APIResourceList'')]"

text \<open>The \<^verbatim>\<open>init\<close> of \<^verbatim>\<open>register.go\<close>, on the scheme it made.\<close>

definition register_init :: "scheme \<Rightarrow> scheme outcome" where
  "register_init s =
     bind_outcome (AddToGroupVersion \<lparr>gv_Group = '''', gv_Version = ''v1''\<rparr> s)
       (AddUnversionedTypes unversionedVersion register_unversionedTypes)"

section \<open>REST mapping\<close>

record group_version_resource =
  gvr_Group :: string
  gvr_Version :: string
  gvr_Resource :: string

definition WithResource :: "group_version \<Rightarrow> string \<Rightarrow> group_version_resource" where
  "WithResource gv r = \<lparr>gvr_Group = gv_Group gv, gvr_Version = gv_Version gv, gvr_Resource = r\<rparr>"

datatype rest_scope = RESTScopeNamespace | RESTScopeRoot

record rest_mapper =
  rm_resourceToKind :: "(group_version_resource \<times> group_version_kind) list"
  rm_kindToPluralResource :: "(group_version_kind \<times> group_version_resource) list"
  rm_kindToScope :: "(group_version_kind \<times> rest_scope) list"
  rm_singularToPlural :: "(group_version_resource \<times> group_version_resource) list"
  rm_pluralToSingular :: "(group_version_resource \<times> group_version_resource) list"

definition NewDefaultRESTMapper :: rest_mapper where
  "NewDefaultRESTMapper = \<lparr>rm_resourceToKind = [], rm_kindToPluralResource = [], rm_kindToScope = [],
     rm_singularToPlural = [], rm_pluralToSingular = []\<rparr>"

definition unpluralizedSuffixes :: "string list" where
  "unpluralizedSuffixes = [''endpoints'']"

definition UnsafeGuessKindToResource :: "group_version_kind \<Rightarrow> group_version_resource \<times> group_version_resource" where
  "UnsafeGuessKindToResource kind =
     (let kindName = gvk_Kind kind; gv = gvk_GroupVersion kind in
      if length kindName = 0
      then (\<lparr>gvr_Group = '''', gvr_Version = '''', gvr_Resource = ''''\<rparr>, \<lparr>gvr_Group = '''', gvr_Version = '''', gvr_Resource = ''''\<rparr>)
      else let singularName = ToLower kindName; singular = WithResource gv singularName in
        if \<exists>skip \<in> set unpluralizedSuffixes. HasSuffix singularName skip then (singular, singular)
        else if last singularName = CHR ''s'' then (WithResource gv (singularName @ ''es''), singular)
        else if last singularName = CHR ''y'' then (WithResource gv (butlast singularName @ ''ies''), singular)
        else (WithResource gv (singularName @ ''s''), singular))"

definition mapper_Add :: "group_version_kind \<Rightarrow> rest_scope \<Rightarrow> rest_mapper \<Rightarrow> rest_mapper" where
  "mapper_Add kind scope m =
     (let (plural, singular) = UnsafeGuessKindToResource kind in
      m\<lparr>rm_singularToPlural := AList.update singular plural (rm_singularToPlural m),
        rm_pluralToSingular := AList.update plural singular (rm_pluralToSingular m),
        rm_resourceToKind := AList.update plural kind (AList.update singular kind (rm_resourceToKind m)),
        rm_kindToPluralResource := AList.update kind plural (rm_kindToPluralResource m),
        rm_kindToScope := AList.update kind scope (rm_kindToScope m)\<rparr>)"

section \<open>The registration manager\<close>

record group_meta =
  gm_GroupVersion :: group_version
  gm_GroupVersions :: "group_version list"
  gm_InterfacesByVersion :: "group_version list"
  gm_RESTMapper :: rest_mapper

record registration_manager =
  registeredVersions :: "group_version list"
  enabledVersions :: "group_version list"
  groupMetaMap :: "(string \<times> group_meta) list"
  envRequestedVersions :: "group_version list"

text \<open>\<^verbatim>\<open>registered.NewOrDie("")\<close>.\<close>

definition NewRegistry :: registration_manager where
  "NewRegistry = \<lparr>registeredVersions = [], enabledVersions = [], groupMetaMap = [], envRequestedVersions = []\<rparr>"

definition RegisterVersions :: "group_version list \<Rightarrow> registration_manager \<Rightarrow> registration_manager" where
  "RegisterVersions vs m = m\<lparr>registeredVersions := fold List.insert vs (registeredVersions m)\<rparr>"

definition RegisterGroup :: "group_meta \<Rightarrow> registration_manager \<Rightarrow> go_error option \<times> registration_manager" where
  "RegisterGroup meta m =
     (let groupName = gv_Group (gm_GroupVersion meta) in
      if map_of (groupMetaMap m) groupName \<noteq> None
      then (Some (Errorf ''group %q is already registered in groupsMap: %v'' [groupName] []), m)
      else (None, m\<lparr>groupMetaMap := AList.update groupName meta (groupMetaMap m)\<rparr>))"

definition EnableVersions :: "group_version list \<Rightarrow> registration_manager \<Rightarrow> go_error option \<times> registration_manager" where
  "EnableVersions vs m =
     (if \<exists>v \<in> set vs. v \<notin> set (registeredVersions m)
      then (Some (Errorf ''Please register versions before enabling them: %v'' [] []),
            m\<lparr>enabledVersions := fold List.insert vs (enabledVersions m)\<rparr>)
      else (None, m\<lparr>enabledVersions := fold List.insert vs (enabledVersions m)\<rparr>))"

definition IsAllowedVersion :: "registration_manager \<Rightarrow> group_version \<Rightarrow> bool" where
  "IsAllowedVersion m v \<longleftrightarrow> envRequestedVersions m = [] \<or> v \<in> set (envRequestedVersions m)"

definition GroupOrDie :: "registration_manager \<Rightarrow> string \<Rightarrow> group_meta outcome" where
  "GroupOrDie m grp =
     (case map_of (groupMetaMap m) grp of
        None \<Rightarrow> if grp = '''' then Panic ''The legacy v1 API is not registered.'' else Panic (''Group '' @ grp @ '' is not registered.'')
      | Some meta \<Rightarrow> Return meta)"

section \<open>The group factory\<close>

record version_args =
  va_GroupName :: string
  va_VersionName :: string
  va_AddToScheme :: scheme_func

record factory_args =
  fa_GroupName :: string
  fa_VersionPreferenceOrder :: "string list"
  fa_RootScopedKinds :: "string list"
  fa_IgnoredKinds :: "string list"
  fa_AddInternalObjectsToScheme :: scheme_func

record meta_factory =
  mf_GroupArgs :: factory_args
  mf_VersionArgs :: "(string \<times> version_args) list"
  mf_prioritizedVersionList :: "group_version list"

definition NewGroupMetaFactory :: "factory_args \<Rightarrow> (string \<times> scheme_func) list \<Rightarrow> meta_factory" where
  "NewGroupMetaFactory args versions =
     \<lparr>mf_GroupArgs = args,
      mf_VersionArgs = map (\<lambda>(v, f). (v, \<lparr>va_GroupName = fa_GroupName args, va_VersionName = v, va_AddToScheme = f\<rparr>)) versions,
      mf_prioritizedVersionList = []\<rparr>"

text \<open>The loop over the versions: those not in the preference order, and what is left of it.\<close>

fun unprioritized :: "factory_args \<Rightarrow> version_args list \<Rightarrow> string list \<Rightarrow> group_version list
    \<Rightarrow> go_error + string list \<times> group_version list" where
  "unprioritized args [] pvSet vs = Inr (pvSet, vs)"
| "unprioritized args (v # vas) pvSet vs =
     (if va_GroupName v \<noteq> fa_GroupName args
      then Inl (Errorf ''found %v/%v in group %v?'' [va_GroupName v, va_VersionName v, fa_GroupName args] [])
      else if va_VersionName v \<in> set pvSet then unprioritized args vas (removeAll (va_VersionName v) pvSet) vs
      else unprioritized args vas pvSet (vs @ [\<lparr>gv_Group = va_GroupName v, gv_Version = va_VersionName v\<rparr>]))"

definition factory_Register :: "meta_factory \<Rightarrow> registration_manager \<Rightarrow> go_error option \<times> meta_factory \<times> registration_manager" where
  "factory_Register gmf m =
     (let args = mf_GroupArgs gmf; order = fa_VersionPreferenceOrder args in
      if mf_VersionArgs gmf = [] then (Some (Errorf ''group %v announced but no versions announced'' [fa_GroupName args] []), gmf, m)
      else if length (remdups order) \<noteq> length order
      then (Some (Errorf ''preference order for group %v has duplicates: %v'' [fa_GroupName args] []), gmf, m)
      else let prioritized = map (\<lambda>v. \<lparr>gv_Group = fa_GroupName args, gv_Version = v\<rparr>) order in
        case unprioritized args (map snd (mf_VersionArgs gmf)) order [] of
          Inl err \<Rightarrow> (Some err, gmf, m)
        | Inr (pvSet, others) \<Rightarrow>
            (if pvSet \<noteq> []
             then (Some (Errorf ''group %v has versions in the priority list that were never announced: %s'' [fa_GroupName args] []), gmf, m)
             else (None, gmf\<lparr>mf_prioritizedVersionList := prioritized @ others\<rparr>, RegisterVersions (prioritized @ others) m)))"

definition newRESTMapper :: "meta_factory \<Rightarrow> scheme \<Rightarrow> group_version list \<Rightarrow> rest_mapper" where
  "newRESTMapper gmf s externalVersions =
     fold (\<lambda>gv mapper.
       fold (\<lambda>(kind, _) mapper.
           if kind \<in> set (fa_IgnoredKinds (mf_GroupArgs gmf)) then mapper
           else mapper_Add (WithKind gv kind)
             (if kind \<in> set (fa_RootScopedKinds (mf_GroupArgs gmf)) then RESTScopeRoot else RESTScopeNamespace) mapper)
         (KnownTypes s gv) mapper)
       externalVersions NewDefaultRESTMapper"

text \<open>The versions that the manager allows are enabled; the error of their \<^verbatim>\<open>AddToScheme\<close> is dropped.\<close>

fun enable_loop :: "meta_factory \<Rightarrow> group_version list \<Rightarrow> group_version list \<Rightarrow> registration_manager \<Rightarrow> scheme
    \<Rightarrow> (go_error option \<times> group_version list \<times> registration_manager \<times> scheme) outcome" where
  "enable_loop gmf [] external m s = Return (None, external, m, s)"
| "enable_loop gmf (v # vs) external m s =
     (if \<not> IsAllowedVersion m v then enable_loop gmf vs external m s
      else case EnableVersions [v] m of
        (Some err, m) \<Rightarrow> Return (Some err, external @ [v], m, s)
      | (None, m) \<Rightarrow>
          (case map_of (mf_VersionArgs gmf) (gv_Version v) of
             None \<Rightarrow> Panic ''invalid memory address or nil pointer dereference''
           | Some va \<Rightarrow>
               bind_outcome (va_AddToScheme va s) (\<lambda>(_, s). enable_loop gmf vs (external @ [v]) m s)))"

fun add_interfaces :: "meta_factory \<Rightarrow> group_version list \<Rightarrow> group_meta \<Rightarrow> (go_error option \<times> group_meta) outcome" where
  "add_interfaces gmf [] meta = Return (None, meta)"
| "add_interfaces gmf (v # vs) meta =
     (case map_of (mf_VersionArgs gmf) (gv_Version v) of
        None \<Rightarrow> Panic ''invalid memory address or nil pointer dereference''
      | Some va \<Rightarrow>
          (let gv = \<lparr>gv_Group = va_GroupName va, gv_Version = va_VersionName va\<rparr> in
           if gv_Group (gm_GroupVersion meta) \<noteq> gv_Group gv
           then Return (Some (Errorf ''got a version in group %v, but am in group %v'' [gv_Group gv, gv_Group (gm_GroupVersion meta)] []), meta)
           else let meta = meta\<lparr>gm_InterfacesByVersion := List.insert gv (gm_InterfacesByVersion meta)\<rparr> in
             if gv \<in> set (gm_GroupVersions meta) then add_interfaces gmf vs meta
             else Return (Some (ErrorString ''added a version interface without the corresponding version being in the list''), meta)))"

definition factory_Enable :: "meta_factory \<Rightarrow> registration_manager \<Rightarrow> scheme
    \<Rightarrow> (go_error option \<times> registration_manager \<times> scheme) outcome" where
  "factory_Enable gmf m s =
     bind_outcome (enable_loop gmf (mf_prioritizedVersionList gmf) [] m s) (\<lambda>(err, external, m, s).
       if err \<noteq> None then Return (err, m, s)
       else if external = [] then Return (None, m, s)
       else bind_outcome (fa_AddInternalObjectsToScheme (mf_GroupArgs gmf) s) (\<lambda>(_, s).
         bind_outcome (add_interfaces gmf external
             \<lparr>gm_GroupVersion = hd external, gm_GroupVersions = external, gm_InterfacesByVersion = [],
              gm_RESTMapper = NewDefaultRESTMapper\<rparr>) (\<lambda>(err, meta).
           if err \<noteq> None then Return (err, m, s)
           else let (err, m) = RegisterGroup (meta\<lparr>gm_RESTMapper := newRESTMapper gmf s external\<rparr>) m
                in Return (err, m, s))))"

definition RegisterAndEnable :: "meta_factory \<Rightarrow> registration_manager \<Rightarrow> scheme
    \<Rightarrow> (go_error option \<times> meta_factory \<times> registration_manager \<times> scheme) outcome" where
  "RegisterAndEnable gmf m s =
     (case factory_Register gmf m of
        (Some err, gmf, m) \<Rightarrow> Return (Some err, gmf, m, s)
      | (None, gmf, m) \<Rightarrow> bind_outcome (factory_Enable gmf m s) (\<lambda>(err, m, s). Return (err, gmf, m, s)))"

section \<open>install.go\<close>

record api_state =
  as_Factories :: "(string \<times> meta_factory) list"
  as_Registry :: registration_manager
  as_Scheme :: scheme

text \<open>
  \<^verbatim>\<open>Announce\<close>: the factory is added to the registry of factories, and a second one of a group panics. The
  registry holds a pointer to the factory, so that it sees what \<^verbatim>\<open>RegisterAndEnable\<close> puts there.
\<close>

definition Announce :: "meta_factory \<Rightarrow> (string \<times> meta_factory) list \<Rightarrow> (string \<times> meta_factory) list outcome" where
  "Announce gmf factories =
     (let name = fa_GroupName (mf_GroupArgs gmf) in
      if map_of factories name \<noteq> None then Panic (''the group '' @ name @ '' has already been announced.'')
      else Return (AList.update name gmf factories))"

definition install_factory :: meta_factory where
  "install_factory =
     NewGroupMetaFactory
       \<lparr>fa_GroupName = GroupName,
        fa_VersionPreferenceOrder = [gv_Version V1_SchemeGroupVersion],
        fa_RootScopedKinds = [''ProjectRequest'', ''Project''],
        fa_IgnoredKinds = [],
        fa_AddInternalObjectsToScheme = AddToScheme\<rparr>
       [(gv_Version V1_SchemeGroupVersion, V1_AddToScheme)]"

definition Install :: "api_state \<Rightarrow> api_state outcome" where
  "Install st =
     bind_outcome (Announce install_factory (as_Factories st)) (\<lambda>factories.
     bind_outcome (RegisterAndEnable install_factory (as_Registry st) (as_Scheme st)) (\<lambda>(err, gmf, m, s).
       case err of
         Some e \<Rightarrow> Panic ''the group could not be registered''
       | None \<Rightarrow> Return \<lparr>as_Factories = AList.update GroupName gmf factories, as_Registry = m, as_Scheme = s\<rparr>))"

text \<open>The state before \<^verbatim>\<open>main\<close>: the package's variables, its \<^verbatim>\<open>init\<close>, and that of the install package.\<close>

definition program_init :: "api_state outcome" where
  "program_init =
     bind_outcome (register_init NewScheme) (\<lambda>s.
       Install \<lparr>as_Factories = [], as_Registry = NewRegistry, as_Scheme = s\<rparr>)"

section \<open>Registration keeps the scheme well-typed\<close>

definition extends_scheme :: "scheme \<Rightarrow> scheme \<Rightarrow> bool" where
  "extends_scheme s s' \<longleftrightarrow> (scheme_typed s \<longrightarrow> scheme_typed s' \<and> knows_more s s')"

lemma extends_refl [simp]: "extends_scheme s s"
  by (simp add: extends_scheme_def)

lemma extends_trans: "extends_scheme s s' \<Longrightarrow> extends_scheme s' s'' \<Longrightarrow> extends_scheme s s''"
  by (auto simp: extends_scheme_def intro: knows_more_trans)

lemma extends_basic:
  "AddKnownTypeWithName gvk obj s = Return s' \<Longrightarrow> extends_scheme s s'"
  "AddKnownTypes gv objs s = Return s' \<Longrightarrow> extends_scheme s s'"
  "AddUnversionedTypes gv objs s = Return s' \<Longrightarrow> extends_scheme s s'"
  unfolding extends_scheme_def
  by (blast intro: AddKnownTypeWithName_typed AddKnownTypeWithName_more)
    (blast intro: AddKnownTypes_typed AddKnownTypes_more, blast intro: AddUnversionedTypes_typed)

lemma AddToGroupVersion_extends: "AddToGroupVersion gv s = Return s' \<Longrightarrow> extends_scheme s s'"
  unfolding AddToGroupVersion_def bind_outcome_Return_iff
  by (elim exE conjE) (drule extends_basic, drule extends_basic, drule extends_basic, drule extends_basic,
    blast intro: extends_trans)

definition scheme_func_ok :: "scheme_func \<Rightarrow> bool" where
  "scheme_func_ok f \<longleftrightarrow> (\<forall>s err s'. f s = Return (err, s') \<longrightarrow> extends_scheme s s')"

lemma SchemeBuilder_ok:
  "(\<And>f. f \<in> set fs \<Longrightarrow> scheme_func_ok f) \<Longrightarrow> scheme_func_ok (SchemeBuilder_AddToScheme fs)"
proof (induction fs)
  case (Cons f fs)
  then have "scheme_func_ok f" "scheme_func_ok (SchemeBuilder_AddToScheme fs)" by simp_all
  then show ?case
    by (fastforce simp: scheme_func_ok_def split: if_splits intro: extends_trans)
qed (simp add: scheme_func_ok_def)

lemma AddToScheme_ok: "scheme_func_ok AddToScheme" "scheme_func_ok V1_AddToScheme"
proof -
  show "scheme_func_ok AddToScheme"
    unfolding AddToScheme_def
    by (rule SchemeBuilder_ok)
      (auto simp: scheme_func_ok_def addKnownTypes_def simp del: AddKnownTypes.simps dest: extends_basic)
  have "scheme_func_ok V1_addKnownTypes"
    by (auto simp: scheme_func_ok_def V1_addKnownTypes_def simp del: AddKnownTypes.simps
        dest!: extends_basic AddToGroupVersion_extends) (blast intro: extends_trans)
  moreover have "scheme_func_ok addConversionFuncs"
    by (simp add: scheme_func_ok_def addConversionFuncs_def)
  ultimately show "scheme_func_ok V1_AddToScheme"
    unfolding V1_AddToScheme_def by (intro SchemeBuilder_ok) auto
qed

lemma register_init_extends: "register_init s = Return s' \<Longrightarrow> extends_scheme s s'"
  unfolding register_init_def bind_outcome_Return_iff
  by (elim exE conjE) (drule AddToGroupVersion_extends, drule extends_basic(3), blast intro: extends_trans)

lemma enable_loop_extends:
  assumes "\<And>v va. map_of (mf_VersionArgs gmf) v = Some va \<Longrightarrow> scheme_func_ok (va_AddToScheme va)"
  shows "enable_loop gmf vs ex m s = Return (err, ex', m', s') \<Longrightarrow> extends_scheme s s'"
proof (induction vs arbitrary: ex m s)
  case (Cons v vs)
  show ?case
  proof (cases "IsAllowedVersion m v")
    case False
    with Cons show ?thesis by simp
  next
    case True
    obtain e m1 where e: "EnableVersions [v] m = (e, m1)" by (cases "EnableVersions [v] m")
    show ?thesis
    proof (cases e)
      case (Some x)
      with Cons.prems True e show ?thesis by simp
    next
      case None
      with Cons.prems True e obtain va err1 s1 where va: "map_of (mf_VersionArgs gmf) (gv_Version v) = Some va"
        "va_AddToScheme va s = Return (err1, s1)" "enable_loop gmf vs (ex @ [v]) m1 s1 = Return (err, ex', m', s')"
        by (auto split: option.splits)
      from assms [OF va(1)] va(2) have "extends_scheme s s1" by (auto simp: scheme_func_ok_def)
      then show ?thesis by (rule extends_trans) (rule Cons.IH [OF va(3)])
    qed
  qed
qed simp

lemma Install_extends:
  assumes "Install st = Return st'"
  shows "extends_scheme (as_Scheme st) (as_Scheme st')"
proof -
  have versions: "scheme_func_ok (va_AddToScheme va)" if "map_of (mf_VersionArgs install_factory) v = Some va" for v va
    using that AddToScheme_ok(2) by (auto simp: install_factory_def NewGroupMetaFactory_def split: if_splits)
  obtain gmf m s' where r: "RegisterAndEnable install_factory (as_Registry st) (as_Scheme st) = Return (None, gmf, m, s')"
    "as_Scheme st' = s'"
    using assms by (auto simp: Install_def split: option.splits)
  then obtain gmf' m1 where f: "factory_Register install_factory (as_Registry st) = (None, gmf', m1)"
    "factory_Enable gmf' m1 (as_Scheme st) = Return (None, m, s')"
    by (auto simp: RegisterAndEnable_def split: prod.splits option.splits)
  have same: "mf_VersionArgs gmf' = mf_VersionArgs install_factory" "mf_GroupArgs gmf' = mf_GroupArgs install_factory"
    using f(1) by (auto simp: factory_Register_def Let_def split: if_splits sum.splits prod.splits)
  obtain err ex m2 s2 where l: "enable_loop gmf' (mf_prioritizedVersionList gmf') [] m1 (as_Scheme st) = Return (err, ex, m2, s2)"
    and rest: "extends_scheme s2 s'"
    using f(2) AddToScheme_ok(1)
    by (auto simp: factory_Enable_def same install_factory_def NewGroupMetaFactory_def scheme_func_ok_def Let_def split_def
        split: if_splits)
  show ?thesis
    unfolding r(2)
    by (rule extends_trans [OF enable_loop_extends [OF _ l] rest]) (use versions same in simp)
qed

text \<open>What holds of the state that the initialization makes, checked by running it.\<close>

definition after_init :: "(api_state \<Rightarrow> bool) \<Rightarrow> bool" where
  "after_init P \<longleftrightarrow> (case program_init of Return st \<Rightarrow> P st | _ \<Rightarrow> False)"

lemma after_init_ex: "after_init P \<longleftrightarrow> (\<exists>st. program_init = Return st \<and> P st)"
  unfolding after_init_def by (cases "program_init") (metis outcome.simps)+

lemma program_init_returns: "after_init (\<lambda>_. True)"
  by code_simp

definition internal_kind :: "string \<Rightarrow> group_version_kind" where
  "internal_kind k = WithKind Internal_SchemeGroupVersion k"

definition v1_kind :: "string \<Rightarrow> group_version_kind" where
  "v1_kind k = WithKind V1_SchemeGroupVersion k"

definition kind_registered :: "scheme \<Rightarrow> string \<Rightarrow> bool" where
  "kind_registered s k \<longleftrightarrow>
     scheme_New s (internal_kind k) = Inr (PtrType (project_type k)) \<and>
     scheme_New s (v1_kind k) = Inr (PtrType (v1_type k)) \<and>
     ObjectKinds s (PtrType (project_type k)) = Inr ([internal_kind k], False) \<and>
     ObjectKinds s (PtrType (v1_type k)) = Inr ([v1_kind k], False) \<and>
     nameFunc s (project_type k) = k \<and> nameFunc s (v1_type k) = k"

lemma kinds_registered: "after_init (\<lambda>st. list_all (kind_registered (as_Scheme st)) [''Project'', ''ProjectList'', ''ProjectRequest''])"
  by code_simp

lemma second_Install_panics:
  "map_of (as_Factories st) GroupName \<noteq> None \<Longrightarrow> \<exists>msg. Install st = Panic msg"
  by (simp add: Install_def Announce_def install_factory_def NewGroupMetaFactory_def Let_def)

section \<open>Properties\<close>

text \<open>
  C24: The initialization of the program ends without a panic in a well-typed scheme: what a kind is decoded
  into has that kind, and the other way round. Each of the three kinds has its internal and its versioned
  type, of no other kind, and the converter gives both the same name.
\<close>

theorem program_init_typed:
  "\<exists>st. program_init = Return st \<and> scheme_typed (as_Scheme st) \<and>
     kind_registered (as_Scheme st) ''Project'' \<and> kind_registered (as_Scheme st) ''ProjectList'' \<and>
     kind_registered (as_Scheme st) ''ProjectRequest''"
proof -
  obtain st where st: "program_init = Return st" using program_init_returns by (auto simp: after_init_ex)
  obtain s where s: "register_init NewScheme = Return s"
    "Install \<lparr>as_Factories = [], as_Registry = NewRegistry, as_Scheme = s\<rparr> = Return st"
    using st by (auto simp: program_init_def)
  have "extends_scheme NewScheme s" by (rule register_init_extends [OF s(1)])
  moreover have "extends_scheme s (as_Scheme st)" using Install_extends [OF s(2)] by simp
  ultimately have "scheme_typed (as_Scheme st)" using NewScheme_typed by (simp add: extends_scheme_def)
  moreover have "list_all (kind_registered (as_Scheme st)) [''Project'', ''ProjectList'', ''ProjectRequest'']"
    using kinds_registered by (simp add: after_init_def st)
  ultimately show ?thesis by (intro exI [of _ st] conjI st) simp_all
qed

end
