(* ===== verification/Served.thy ===== *)
theory Served
  imports Install Startup
begin

text \<open>
  Which types the API server serves the group with: the storages' \<^verbatim>\<open>New\<close> and \<^verbatim>\<open>NewList\<close>, the strategies'
  constants, and what the library's installer (\<^verbatim>\<open>endpoints/installer.go\<close>) looks up in the scheme and the REST
  mapper when it registers a storage.
\<close>

section \<open>Storages and strategies\<close>

definition project_New :: go_type where
  "project_New = PtrType (project_type ''Project'')"

definition project_NewList :: go_type where
  "project_NewList = PtrType (project_type ''ProjectList'')"

definition request_New :: go_type where
  "request_New = PtrType (project_type ''ProjectRequest'')"

definition request_NewList :: go_type where
  "request_NewList = PtrType (meta_type ''Status'')"

fun storage_New :: "rest_storage \<Rightarrow> go_type" where
  "storage_New (ProjectREST s) = project_New"
| "storage_New (RequestREST r) = request_New"

fun storage_NewList :: "rest_storage \<Rightarrow> go_type" where
  "storage_NewList (ProjectREST s) = project_NewList"
| "storage_NewList (RequestREST r) = request_NewList"

text \<open>Both have \<^verbatim>\<open>List\<close>, and projects alone \<^verbatim>\<open>Watch\<close>.\<close>

fun storage_isWatcher :: "rest_storage \<Rightarrow> bool" where
  "storage_isWatcher (ProjectREST s) = True"
| "storage_isWatcher (RequestREST r) = False"

definition project_NamespaceScoped :: bool where
  "project_NamespaceScoped = False"

fun storage_NamespaceScoped :: "rest_storage \<Rightarrow> bool" where
  "storage_NamespaceScoped (ProjectREST s) = project_NamespaceScoped"
| "storage_NamespaceScoped (RequestREST r) = cs_NamespaceScoped request_strategy"

section \<open>The installer's lookups\<close>

fun bind_error :: "go_error + 'a \<Rightarrow> ('a \<Rightarrow> go_error + 'b) \<Rightarrow> go_error + 'b" where
  "bind_error (Inl err) f = Inl err"
| "bind_error (Inr a) f = f a"

definition getResourceKind :: "scheme \<Rightarrow> group_version \<Rightarrow> rest_storage \<Rightarrow> go_error + group_version_kind" where
  "getResourceKind s gv storage =
     bind_error (ObjectKinds s (storage_New storage)) (\<lambda>(fqKinds, _).
       case find (\<lambda>fqKind. gvk_Group fqKind = gv_Group gv) fqKinds of
         None \<Rightarrow> Inl (Errorf ''unable to locate fully qualified kind for %v: found %v when registering for %v'' [] [])
       | Some fqKind \<Rightarrow> Inr (WithKind gv (gvk_Kind fqKind)))"

text \<open>\<^verbatim>\<open>RESTMapping\<close> of a kind in a version that is not empty: its resource and scope.\<close>

definition RESTMapping :: "group_meta \<Rightarrow> group_version_kind \<Rightarrow> go_error + string \<times> rest_scope" where
  "RESTMapping meta gvk =
     (case map_of (rm_kindToPluralResource (gm_RESTMapper meta)) gvk of
        None \<Rightarrow> Inl (Errorf ''no matches for kind %v'' [gvk_Kind gvk] [])
      | Some res \<Rightarrow>
          (case map_of (rm_kindToScope (gm_RESTMapper meta)) gvk of
             None \<Rightarrow> Inl (Errorf ''the provided version %q and kind %q cannot be mapped to a supported scope'' [gvk_Version gvk, gvk_Kind gvk] [])
           | Some scope \<Rightarrow>
               if gvk_GroupVersion gvk \<in> set (gm_InterfacesByVersion meta) then Inr (gvr_Resource res, scope)
               else Inl (Errorf ''the provided version %q has no relevant versions: %v'' [gvk_Version gvk] [])))"

record resource_types =
  rt_Kind :: group_version_kind
  rt_Resource :: string
  rt_Scope :: rest_scope
  rt_Object :: go_type
  rt_ExportOptions :: go_type
  rt_List :: go_type
  rt_ListOptions :: go_type
  rt_Status :: go_type
  rt_WatchEvent :: "go_type option"

definition registerResourceTypes :: "scheme \<Rightarrow> group_meta \<Rightarrow> group_version \<Rightarrow> group_version \<Rightarrow> rest_storage
    \<Rightarrow> go_error + resource_types" where
  "registerResourceTypes s meta gv optionsExternalVersion storage =
     bind_error (getResourceKind s gv storage) (\<lambda>kind.
     bind_error (RESTMapping meta kind) (\<lambda>(resource, scope).
     bind_error (scheme_New s kind) (\<lambda>obj.
     bind_error (scheme_New s (WithKind optionsExternalVersion ''ExportOptions'')) (\<lambda>exportOptions.
     bind_error (ObjectKinds s (storage_NewList storage)) (\<lambda>(listGVKs, _).
     bind_error (scheme_New s (WithKind gv (gvk_Kind (hd listGVKs)))) (\<lambda>list.
     bind_error (scheme_New s (WithKind optionsExternalVersion ''ListOptions'')) (\<lambda>listOptions.
     bind_error (scheme_New s (WithKind optionsExternalVersion ''Status'')) (\<lambda>status.
     bind_error (if storage_isWatcher storage then map_sum id Some (scheme_New s (WithKind gv ''WatchEvent'')) else Inr None)
       (\<lambda>watchEvent.
     Inr \<lparr>rt_Kind = kind, rt_Resource = resource, rt_Scope = scope, rt_Object = obj, rt_ExportOptions = exportOptions,
          rt_List = list, rt_ListOptions = listOptions, rt_Status = status, rt_WatchEvent = watchEvent\<rparr>)))))))))"

text \<open>
  \<^verbatim>\<open>NewDefaultAPIGroupInfo\<close> and what \<^verbatim>\<open>New\<close> adds: every storage of the versions the group is installed in.
\<close>

definition installed_types :: "api_state \<Rightarrow> (string \<times> (go_error + resource_types)) list outcome" where
  "installed_types st =
     bind_outcome (GroupOrDie (as_Registry st) GroupName) (\<lambda>meta.
       Return (concat (map (\<lambda>gv.
         (case map_of (ag_Storage project_group_info) (gv_Version gv) of
            None \<Rightarrow> []
          | Some storages \<Rightarrow>
              map (\<lambda>(path, storage). (path, registerResourceTypes (as_Scheme st) meta gv \<lparr>gv_Group = '''', gv_Version = ''v1''\<rparr> storage))
                storages))
         (gm_GroupVersions meta))))"

section \<open>Properties\<close>

text \<open>The types both storages are served with: all but the object, the list and the watch event are alike.\<close>

definition served_types :: "string \<Rightarrow> string \<Rightarrow> go_type \<Rightarrow> go_type option \<Rightarrow> resource_types" where
  "served_types kind resource lst watchEvent =
     \<lparr>rt_Kind = v1_kind kind, rt_Resource = resource, rt_Scope = RESTScopeRoot, rt_Object = PtrType (v1_type kind),
      rt_ExportOptions = PtrType (meta_type ''ExportOptions''), rt_List = PtrType lst,
      rt_ListOptions = PtrType (meta_type ''ListOptions''), rt_Status = PtrType (meta_type ''Status''),
      rt_WatchEvent = watchEvent\<rparr>"

lemma installed_types_run:
  "after_init (\<lambda>st. installed_types st = Return
     [(''projectrequests'', Inr (served_types ''ProjectRequest'' ''projectrequests'' (meta_type ''Status'') None)),
      (''projects'', Inr (served_types ''Project'' ''projects'' (v1_type ''ProjectList'') (Some (PtrType (meta_type ''WatchEvent'')))))])"
  by code_simp


end
