(* ===== verification/WatchSafety.thy ===== *)
theory WatchSafety
  imports Server
begin

text \<open>
  What a synchronization tells the watches, against the RBAC objects it reviews with: every event it puts
  into a watch's buffer is one its user may have. The events of a synchronization are followed from the
  reviews through \<^verbatim>\<open>notifyWatchers\<close> and \<^verbatim>\<open>GroupMembershipChanged\<close> in \<^verbatim>\<open>pkg/project/auth\<close>.
\<close>

section \<open>Where an event comes from\<close>

definition grants_user :: "user_info \<Rightarrow> string set \<times> string set \<Rightarrow> bool" where
  "grants_user u access \<longleftrightarrow> ui_Name u \<in> fst access \<or> set (ui_Groups u) \<inter> snd access \<noteq> {}"

text \<open>
  The events a user may be sent by the reviews of a synchronization and the names it removes: a project
  the lister has, as it is there, when the review of its name grants the user; and a deletion when the
  review does not, or when the name is removed.
\<close>

definition reviewed_event :: "sync_view \<Rightarrow> namespace list \<Rightarrow> string set \<Rightarrow> user_info \<Rightarrow> watch_event \<Rightarrow> bool" where
  "reviewed_event v items removed u ev \<longleftrightarrow>
     (\<exists>ns n. ev_Type ev \<in> {Added, Modified} \<and> ev_Object ev = ProjectObject (ConvertNamespace n) \<and>
        namespace_Get items ns = Inr n \<and> (\<exists>access. review_of v ns = Some access \<and> grants_user u access)) \<or>
     (\<exists>ns. ev_Type ev = Deleted \<and> ev_Object ev = ProjectObject (ConvertNamespace (named_namespace ns '''')) \<and>
        (ns \<in> removed \<or> (\<exists>access. review_of v ns = Some access \<and> \<not> grants_user u access)))"

definition sends :: "(user_info \<Rightarrow> watch_event \<Rightarrow> bool) \<Rightarrow> user_project_watcher \<Rightarrow> user_project_watcher \<Rightarrow> bool" where
  "sends P w w' \<longleftrightarrow> w_user w' = w_user w \<and>
     (\<exists>evs. w_cacheIncoming w' = w_cacheIncoming w @ evs \<and> list_all (P (w_user w)) evs)"

lemma sends_refl [simp]: "sends P w w"
  by (simp add: sends_def)

lemma sends_trans: "sends P w w' \<Longrightarrow> sends P w' w'' \<Longrightarrow> sends P w w''"
  by (auto simp: sends_def)

lemma membership_event_reviewed:
  assumes "membership_event (namespace_Get items) ns users groups w = Some (ev, known, err)"
    and "ns \<in> removed \<and> users = [] \<and> groups = [] \<or> review_of v ns = Some (set users, set groups)"
  shows "reviewed_event v items removed (w_user w) ev"
proof (cases "has_access w users groups")
  case True
  then have "review_of v ns = Some (set users, set groups)"
    using assms(2) by (auto simp: has_access_def)
  moreover have "grants_user (w_user w) (set users, set groups)"
    using True by (simp add: has_access_def grants_user_def)
  moreover from True assms(1) obtain n where "namespace_Get items ns = Inr n"
    "ev_Type ev \<in> {Added, Modified}" "ev_Object ev = ProjectObject (ConvertNamespace n)"
    by (auto simp: membership_event_def split: if_splits sum.splits)
  ultimately show ?thesis
    unfolding reviewed_event_def by blast
next
  case False
  then have "ns \<in> removed \<or> (\<exists>access. review_of v ns = Some access \<and> \<not> grants_user (w_user w) access)"
    using assms(2) by (auto simp: has_access_def grants_user_def)
  moreover from False assms(1) have "ev_Type ev = Deleted"
    "ev_Object ev = ProjectObject (ConvertNamespace (named_namespace ns []))"
    by (auto simp: membership_event_def split: if_splits option.splits)
  ultimately show ?thesis
    unfolding reviewed_event_def by blast
qed

lemma notified_sends:
  assumes "notified items ns users groups w w'"
    and "ns \<in> removed \<and> users = [] \<and> groups = [] \<or> review_of v ns = Some (set users, set groups)"
  shows "sends (reviewed_event v items removed) w w'"
  using assms(1)
proof (cases rule: notified_cases)
  case (sent ev known err)
  with membership_event_reviewed [OF sent(1) assms(2)] show ?thesis
    by (simp add: sends_def)
qed simp

lemma sync_requests_sends:
  assumes "sync_requests v rqs (ac, st) = Return (ac', st')" and "v_nsGet v = namespace_Get items"
    and "distinct (ac_watchers ac)" and "i \<in> set (ac_watchers ac)"
  shows "sends (reviewed_event v items removed) (ac_watcherObjects ac i) (ac_watcherObjects ac' i)"
  using assms
proof (induction rqs arbitrary: ac st)
  case (Cons rq rqs)
  from Cons.prems(1) obtain ac1 st1 err where s: "syncRequest v rq (ac, st) = Return ((ac1, st1), err)"
    and r: "sync_requests v rqs (ac1, st1) = Return (ac', st')"
    by auto
  have "sends (reviewed_event v items removed) (ac_watcherObjects ac i) (ac_watcherObjects ac1 i)"
    using s
  proof (cases rule: syncRequest_cases)
    case (reviewed users groups objs)
    have "notified items (rq_namespace rq) (NewString users) (NewString groups) (ac_watcherObjects ac i) (ac_watcherObjects ac1 i)"
      using reviewed(5) Cons.prems(2-4) notifyWatchers_notified by simp
    then show ?thesis
      by (rule notified_sends) (use reviewed(2) in \<open>simp add: cache_simps\<close>)
  qed simp_all
  moreover have "ac_watchers ac1 = ac_watchers ac"
    using syncRequest_frame [OF s] by auto
  ultimately show ?case
    using Cons.IH [OF r Cons.prems(2)] Cons.prems(3,4) sends_trans by metis
qed simp

lemma notify_deleted_sends:
  assumes "notify_deleted v nss ac = Return ac'" and "v_nsGet v = namespace_Get items"
    and "distinct (ac_watchers ac)" and "i \<in> set (ac_watchers ac)" and "set nss \<subseteq> removed"
  shows "sends (reviewed_event v items removed) (ac_watcherObjects ac i) (ac_watcherObjects ac' i)"
  using assms
proof (induction nss arbitrary: ac)
  case (Cons ns nss)
  from Cons.prems(1) obtain ac1 where n: "notifyWatchers (v_nsGet v) ns [] [] ac = Return ac1"
    and r: "notify_deleted v nss ac1 = Return ac'" by auto
  have one: "notified items ns [] [] (ac_watcherObjects ac i) (ac_watcherObjects ac1 i)"
    using notifyWatchers_notified n Cons.prems(2-4) by simp
  have "sends (reviewed_event v items removed) (ac_watcherObjects ac i) (ac_watcherObjects ac1 i)"
    by (rule notified_sends [OF one]) (use Cons.prems(5) in simp)
  moreover have "ac_watchers ac1 = ac_watchers ac"
    using notifyWatchers_frame [OF n] by auto
  ultimately show ?case
    using Cons.IH [OF r Cons.prems(2)] Cons.prems(3-5) sends_trans by (metis insert_subset list.set(2))
qed simp

lemma synchronize_sends:
  assumes "index_inv (ac_stores ac)" and "lister_view v items" and "\<not> skips v ac" and "synchronize v ac = Return ac'"
    and "distinct (ac_watchers ac)" and "i \<in> set (ac_watchers ac)"
  shows "sends (reviewed_event v items (- (ns_Name ` set items))) (ac_watcherObjects ac i) (ac_watcherObjects ac' i)"
proof -
  let ?P = "reviewed_event v items (- (ns_Name ` set items))"
  have v: "v_namespaces v = Inr items" "v_nsGet v = namespace_Get items"
    using assms(2) by (simp_all add: lister_view_def)
  obtain ac2 st2 ac3 where
    r: "sync_requests v (all_requests v) (snd (invalidateCache v ac), base_stores v ac) = Return (ac2, st2)"
    and w: "ac_watchers ac2 = ac_watchers ac"
    and n: "notify_deleted v (set_Difference (allKnownNamespaces ac) (seen_names v)) ac2 = Return ac3"
    and ac': "ac' = ac3\<lparr>ac_stores := purge_loop (seen_names v) (store_List (reviewRecordStore st2)) st2,
        allKnownNamespaces := seen_names v, lastState := Join (current_versions v) '',''\<rparr>"
    by (rule synchronize_parts [OF assms(1,3,4)])
  have "set (set_Difference (allKnownNamespaces ac) (seen_names v)) \<subseteq> - (ns_Name ` set items)"
    by (auto simp: seen_names_def v cache_simps)
  with n v(2) have "sends ?P (ac_watcherObjects ac2 i) (ac_watcherObjects ac3 i)"
    using assms(5,6) w by (intro notify_deleted_sends) simp_all
  moreover have "sends ?P (ac_watcherObjects ac i) (ac_watcherObjects ac2 i)"
    using sync_requests_sends [OF r v(2), of i] assms(5,6) by (simp add: invalidateCache_frame)
  ultimately show ?thesis
    using sends_trans by (auto simp: ac')
qed

section \<open>What watches are told is what the rules allow\<close>

lemma reviewed_event_authorized:
  assumes "v_review v = server_reviewer ix" and "cluster_accounts_qualified (server_getters ix)"
    and "reviewed_event v items (- (ns_Name ` set items)) u ev"
  shows "\<exists>n. ev_Object ev = ProjectObject (ConvertNamespace n) \<and>
    (let authorized = RulesAllow (review_attributes (ns_Name n)) (fst (RulesFor (server_getters ix) u (ns_Name n))) \<or>
       SystemPrivilegedGroup \<in> set (ui_Groups u)
     in if ev_Type ev = Deleted then \<not> authorized \<or> ns_Name n \<notin> ns_Name ` set items
        else ev_Type ev \<noteq> ErrorType \<and> authorized \<and> n \<in> set items)"
proof -
  have allow: "grants_user u access \<longleftrightarrow> RulesAllow (review_attributes ns) (fst (RulesFor (server_getters ix) u ns)) \<or>
      SystemPrivilegedGroup \<in> set (ui_Groups u)" if "review_of v ns = Some access" for ns access
    using server_review_grants [OF assms(1,2) that] by (simp add: grants_user_def)
  from assms(3) consider
      (shown) ns n access where "ev_Type ev \<in> {Added, Modified}" "ev_Object ev = ProjectObject (ConvertNamespace n)"
        "namespace_Get items ns = Inr n" "review_of v ns = Some access" "grants_user u access"
    | (gone) ns where "ev_Type ev = Deleted" "ev_Object ev = ProjectObject (ConvertNamespace (named_namespace ns ''''))"
        "ns \<notin> ns_Name ` set items \<or> (\<exists>access. review_of v ns = Some access \<and> \<not> grants_user u access)"
    unfolding reviewed_event_def by blast
  then show ?thesis
  proof cases
    case shown
    with namespace_Get_Inr [OF shown(3)] allow [OF shown(4)] show ?thesis
      by (intro exI [of _ n]) auto
  next
    case gone
    with allow [of ns] show ?thesis
      by (intro exI [of _ "named_namespace ns ''''"]) auto
  qed
qed

text \<open>
  C3: No synchronization tells a watch more than its user may know. In every reachable state of the
  server and its watches, whatever a synchronization with the server's reviewer adds to the buffer of a
  registered watch is, event by event: a project as the lister has it, and then the RBAC rules of the
  watch's user in that namespace allow getting it or the user is privileged; or the deletion of a project,
  and then the rules do not, or the lister no longer has the namespace. References that do not resolve
  and reviews that fail do not matter: their namespaces send nothing.
\<close>

theorem watch_told_only_authorized:
  assumes "server_reachable sv" and "lister_view v (sv_items sv)" and "\<not> skips v (sv_cache sv)"
    and "synchronize v (sv_cache sv) = Return ac" and "i \<in> set (ac_watchers ac)"
    and "v_review v = server_reviewer ix" and "cluster_accounts_qualified (server_getters ix)"
  shows "\<exists>evs. w_cacheIncoming (ac_watcherObjects ac i) = w_cacheIncoming (ac_watcherObjects (sv_cache sv) i) @ evs \<and>
    (\<forall>ev \<in> set evs. \<exists>n. ev_Object ev = ProjectObject (ConvertNamespace n) \<and>
       (let u = w_user (ac_watcherObjects ac i);
            authorized = RulesAllow (review_attributes (ns_Name n)) (fst (RulesFor (server_getters ix) u (ns_Name n))) \<or>
              SystemPrivilegedGroup \<in> set (ui_Groups u)
        in if ev_Type ev = Deleted then \<not> authorized \<or> ns_Name n \<notin> ns_Name ` set (sv_items sv)
           else ev_Type ev \<noteq> ErrorType \<and> authorized \<and> n \<in> set (sv_items sv)))"
proof -
  let ?ac = "sv_cache sv" and ?items = "sv_items sv"
  have inv: "cache_ok ?items (sv_fresh sv) ?ac"
    using server_reachable_inv [OF assms(1)] by (simp add: server_inv_def)
  note u = cache_ok_unlocked [OF inv]
  have w: "ac_watchers ac = ac_watchers ?ac"
    using synchronize_follows(2) inv assms(2-4) unfolding cache_ok_def by blast
  then have "sends (reviewed_event v ?items (- (ns_Name ` set ?items))) (ac_watcherObjects ?ac i) (ac_watcherObjects ac i)"
    using synchronize_sends [OF _ assms(2-4), of i] u assms(5) by simp
  then obtain evs where user: "w_user (ac_watcherObjects ac i) = w_user (ac_watcherObjects ?ac i)"
    and evs: "w_cacheIncoming (ac_watcherObjects ac i) = w_cacheIncoming (ac_watcherObjects ?ac i) @ evs"
    and all: "\<forall>ev \<in> set evs. reviewed_event v ?items (- (ns_Name ` set ?items)) (w_user (ac_watcherObjects ac i)) ev"
    unfolding sends_def list_all_iff by metis
  with evs reviewed_event_authorized [OF assms(6,7)] show ?thesis
    unfolding Let_def by (intro exI [of _ evs]) blast
qed

lemma wired_sync:
  "case synchronize sample_wired_view first_cache of
     Return ac \<Rightarrow> w_cacheIncoming (ac_watcherObjects ac 0) = [initial_event (named_namespace ''p'' ''7'')] \<and>
       w_user (ac_watcherObjects ac 0) = \<lparr>ui_Name = ''ann'', ui_Groups = []\<rparr> \<and> ac_watchers ac = [0]
   | _ \<Rightarrow> False"
  by code_simp

theorem watch_told_only_authorized_witness:
  "\<exists>ac. synchronize sample_wired_view first_cache = Return ac \<and>
     w_cacheIncoming (ac_watcherObjects ac 0) = [initial_event (named_namespace ''p'' ''7'')] \<and>
     RulesAllow (review_attributes ''p'') (fst (RulesFor (server_getters sample_cluster) \<lparr>ui_Name = ''ann'', ui_Groups = []\<rparr> ''p''))"
proof -
  let ?v = sample_wired_view and ?items = "[named_namespace ''p'' ''7'']"
  obtain ac where ac: "synchronize ?v first_cache = Return ac"
    "w_cacheIncoming (ac_watcherObjects ac 0) = [initial_event (named_namespace ''p'' ''7'')]"
    "w_user (ac_watcherObjects ac 0) = \<lparr>ui_Name = ''ann'', ui_Groups = []\<rparr>" "ac_watchers ac = [0]"
    using wired_sync by (auto split: outcome.splits)
  obtain sv where sv: "server_reachable sv" "sv_cache sv = first_cache" "sv_past sv = {}"
    by (rule first_server)
  define sv1 where "sv1 = sv\<lparr>sv_items := ?items, sv_past := sv_past sv \<union> shown_versions ?items, sv_fresh := False\<rparr>"
  have 1: "server_reachable sv1"
    unfolding sv1_def by (rule server_reachable.informers [OF sv(1)]) (simp_all add: sv(3))
  have i: "sv_items sv1 = ?items" "sv_cache sv1 = first_cache" by (simp_all add: sv1_def sv(2))
  have l: "lister_view ?v (sv_items sv1)"
    by (simp add: i lister_view_def sample_wired_view_def sample_role_view_def sample_view_def)
  have n: "\<not> skips ?v (sv_cache sv1)" unfolding i by code_simp
  have q: "cluster_accounts_qualified (server_getters sample_cluster)" by code_simp
  have r: "v_review ?v = server_reviewer sample_cluster" by (simp add: sample_wired_view_def)
  have s: "synchronize ?v (sv_cache sv1) = Return ac" using ac(1) by (simp add: i)
  have "0 \<in> set (ac_watchers ac)" using ac(4) by simp
  from watch_told_only_authorized [OF 1 l n s this r q] obtain m where
    "ConvertNamespace m = ConvertNamespace (named_namespace ''p'' ''7'')"
    "RulesAllow (review_attributes (ns_Name m)) (fst (RulesFor (server_getters sample_cluster) \<lparr>ui_Name = ''ann'', ui_Groups = []\<rparr> (ns_Name m)))"
    by (auto simp: ac(2,3) i first_cache_def first_watcher_def initial_event_def)
  moreover from this(1) have "ns_Name m = ''p''"
    by (metis ConvertNamespace_Name named_namespace_simps(1))
  ultimately show ?thesis using ac by auto
qed

end
