(* ===== verification/ProjectHistory.thy ===== *)
theory ProjectHistory
  imports ProjectRequestStorage
begin

text \<open>
  The requests of one project served by both storages over the same remote server: reads, creations,
  project requests, updates and deletions, one after another. Seen through the namespaces the server has,
  a request is a step on a map from names to projects; the histories of that map are what a client can
  rely on.
\<close>

section \<open>Requests and answers\<close>

datatype storage_call =
    GetProject string
  | CreateProject system_values request_context runtime_object "runtime_object \<Rightarrow> go_error option"
  | RequestProject system_values bool "nat \<Rightarrow> rat" request_context runtime_object "runtime_object \<Rightarrow> go_error option"
  | UpdateProject string "runtime_object \<Rightarrow> go_error + runtime_object" "runtime_object \<Rightarrow> runtime_object \<Rightarrow> go_error option"
  | DeleteProject string

datatype storage_answer =
    Answered project
  | Refused go_error
  | DeleteDone
  | Panicked string
  | NoAnswer

text \<open>
  A panic of a handler is recovered by the server that called it: the remote server stays as the calls
  before the panic left it.
\<close>

definition settle :: "'s \<Rightarrow> ((go_error + project) \<times> 's) outcome \<Rightarrow> storage_answer \<times> 's" where
  "settle s x = (case x of
     Return (Inr p, s') \<Rightarrow> (Answered p, s')
   | Return (Inl err, s') \<Rightarrow> (Refused err, s')
   | Panic m \<Rightarrow> (Panicked m, s)
   | Blocked \<Rightarrow> (NoAnswer, s))"

fun serve_call :: "'s kube_client \<Rightarrow> storage_call \<Rightarrow> 's \<Rightarrow> storage_answer \<times> 's" where
  "serve_call client (GetProject name) s = settle s (Return (projects_Get (kc_Namespaces client) name s))"
| "serve_call client (CreateProject env ctx obj admit) s =
     settle s (projects_Create env (kc_Namespaces client) ctx obj admit s)"
| "serve_call client (RequestProject env enabled rnd ctx obj admit) s =
     settle s (requests_Create env enabled rnd client ctx obj admit s)"
| "serve_call client (UpdateProject name updatedObject admit) s =
     settle (snd (nc_Get (kc_Namespaces client) name s))
       (projects_Update (kc_Namespaces client) name updatedObject admit s)"
| "serve_call client (DeleteProject name) s =
     (let ((_, err), s') = projects_Delete (kc_Namespaces client) name s
      in (case err of None \<Rightarrow> DeleteDone | Some e \<Rightarrow> Refused e, s'))"

fun serve_calls :: "'s kube_client \<Rightarrow> storage_call list \<Rightarrow> 's \<Rightarrow> storage_answer list \<times> 's" where
  "serve_calls client [] s = ([], s)"
| "serve_calls client (c # cs) s =
     (let (a, s1) = serve_call client c s; (as, s2) = serve_calls client cs s1 in (a # as, s2))"

fun makes_project :: "storage_call \<Rightarrow> bool" where
  "makes_project (CreateProject env ctx obj admit) = True"
| "makes_project (RequestProject env enabled rnd ctx obj admit) = True"
| "makes_project c = False"

section \<open>The remote server\<close>

text \<open>
  What the storages rely on of the remote server, whose namespaces are \<open>found s\<close>: reading changes nothing
  and finds only what is there; a creation that is answered made a namespace of the given name where there
  was none, and answers what it stored; one that is answered with an error may have done so all the same,
  as when the answer is lost, and nothing else; a deletion touches the one namespace, which it may leave
  for its finalizers; bindings and access reviews do not touch namespaces.
\<close>

definition creates_namespace :: "(string \<rightharpoonup> namespace) \<Rightarrow> string \<Rightarrow> namespace \<Rightarrow> (string \<rightharpoonup> namespace) \<Rightarrow> bool" where
  "creates_namespace m name n m' \<longleftrightarrow> m name = None \<and> ns_Name n = name \<and> m' = m(name \<mapsto> n)"

definition lawful_server :: "'s kube_client \<Rightarrow> ('s \<Rightarrow> string \<rightharpoonup> namespace) \<Rightarrow> bool" where
  "lawful_server client found \<longleftrightarrow>
     (\<forall>name s. found (snd (nc_Get (kc_Namespaces client) name s)) = found s \<and>
        (\<forall>n. fst (nc_Get (kc_Namespaces client) name s) = Inr n \<longrightarrow> found s name = Some n)) \<and>
     (\<forall>n s m s'. ns_Name n \<noteq> '''' \<longrightarrow> nc_Create (kc_Namespaces client) n s = (Inr m, s') \<longrightarrow>
        creates_namespace (found s) (ns_Name n) m (found s')) \<and>
     (\<forall>n s e s'. ns_Name n \<noteq> '''' \<longrightarrow> nc_Create (kc_Namespaces client) n s = (Inl e, s') \<longrightarrow>
        found s' = found s \<or> (\<exists>m. creates_namespace (found s) (ns_Name n) m (found s'))) \<and>
     (\<forall>name s. \<exists>x. found (snd (nc_Delete (kc_Namespaces client) name s)) = (found s)(name := x) \<and>
        (found s name = None \<longrightarrow> x = None)) \<and>
     (\<forall>ns rb s. found (snd (kc_CreateRoleBinding client ns rb s)) = found s) \<and>
     (\<forall>review s. found (snd (kc_CreateAccessReview client review s)) = found s)"

definition projects_of :: "(string \<rightharpoonup> namespace) \<Rightarrow> string \<rightharpoonup> project" where
  "projects_of m = map_option ConvertNamespace \<circ> m"

section \<open>The map of projects\<close>

text \<open>What one request may do to the map of projects, and with which answer.\<close>

inductive project_step :: "(string \<rightharpoonup> project) \<Rightarrow> storage_call \<Rightarrow> storage_answer \<Rightarrow> (string \<rightharpoonup> project) \<Rightarrow> bool" where
  read: "P name = Some p \<Longrightarrow> project_step P (GetProject name) (Answered p) P"
| unread: "project_step P (GetProject name) (Refused err) P"
| made: "makes_project c \<Longrightarrow> om_Name (pr_ObjectMeta p) = name \<Longrightarrow> P name = None \<Longrightarrow>
    project_step P c (Answered p) (P(name \<mapsto> p))"
| lost: "makes_project c \<Longrightarrow> om_Name (pr_ObjectMeta p) = name \<Longrightarrow> P name = None \<Longrightarrow>
    project_step P c (Refused err) (P(name \<mapsto> p))"
| refused: "makes_project c \<Longrightarrow> project_step P c (Refused err) P"
| wrong_type: "makes_project c \<Longrightarrow> project_step P c (Panicked m) P"
| not_updated: "project_step P (UpdateProject name f admit) (Refused err) P"
| update_panics: "project_step P (UpdateProject name f admit) (Panicked m) P"
| deleted: "a = DeleteDone \<or> (\<exists>err. a = Refused err) \<Longrightarrow> (P name = None \<Longrightarrow> x = None) \<Longrightarrow>
    project_step P (DeleteProject name) a (P(name := x))"

inductive_cases project_stepE: "project_step P c a P'"

inductive project_steps :: "(string \<rightharpoonup> project) \<Rightarrow> storage_call list \<Rightarrow> storage_answer list \<Rightarrow> (string \<rightharpoonup> project) \<Rightarrow> bool" where
  none: "project_steps P [] [] P"
| more: "project_step P c a P1 \<Longrightarrow> project_steps P1 cs as P2 \<Longrightarrow> project_steps P (c # cs) (a # as) P2"

inductive_cases project_steps_ConsE: "project_steps P (c # cs) as P'"

text \<open>Only its deletion takes a project out of the map or changes it.\<close>

lemma project_step_keeps:
  "project_step P c a P' \<Longrightarrow> P x = Some p \<Longrightarrow> c \<noteq> DeleteProject x \<Longrightarrow> P' x = Some p"
  by (erule project_step.cases) auto

lemma project_steps_keep:
  "project_steps P cs as P' \<Longrightarrow> P x = Some p \<Longrightarrow> DeleteProject x \<notin> set cs \<Longrightarrow> P' x = Some p"
proof (induction rule: project_steps.induct)
  case (more P c a P1 cs as P2)
  have "P1 x = Some p"
    using project_step_keeps [OF more.hyps(1), of x p] more.prems by auto

  then show ?case using more by simp
qed

lemma project_steps_append:
  "project_steps P (cs @ ds) as P' \<Longrightarrow>
   \<exists>P1. project_steps P cs (take (length cs) as) P1 \<and> project_steps P1 ds (drop (length cs) as) P'"
proof (induction cs arbitrary: P as)
  case (Cons c cs)
  from Cons.prems obtain a as' P1 where "as = a # as'" and s: "project_step P c a P1" and "project_steps P1 (cs @ ds) as' P'"
    by (auto elim: project_steps_ConsE)
  moreover from Cons.IH [OF this(3)] obtain P2 where "project_steps P1 cs (take (length cs) as') P2"
    "project_steps P2 ds (drop (length cs) as') P'" by blast
  ultimately show ?case by (auto intro: project_steps.more)
qed (auto intro: project_steps.none)

lemma project_step_made: "project_step P c (Answered p) P' \<Longrightarrow> makes_project c \<Longrightarrow> P' (om_Name (pr_ObjectMeta p)) = Some p"
  by (erule project_step.cases) auto

lemma project_step_taken:
  "project_step P c (Answered q) P' \<Longrightarrow> makes_project c \<Longrightarrow> P (om_Name (pr_ObjectMeta q)) = None"
  by (erule project_step.cases) auto

lemma project_step_read: "project_step P (GetProject x) a P' \<Longrightarrow> P x = Some p \<Longrightarrow> a = Answered p \<or> (\<exists>err. a = Refused err)"
  by (erule project_step.cases) auto

section \<open>The storages refine the map\<close>

lemma lawful_get:
  assumes "lawful_server client found" and "nc_Get (kc_Namespaces client) name s = (r, s')"
  shows "found s' = found s" and "r = Inr n \<Longrightarrow> found s name = Some n"
proof -
  have "found (snd (nc_Get (kc_Namespaces client) name s)) = found s \<and>
      (\<forall>n. fst (nc_Get (kc_Namespaces client) name s) = Inr n \<longrightarrow> found s name = Some n)"
    using assms(1) unfolding lawful_server_def by blast
  with assms(2) show "found s' = found s" "r = Inr n \<Longrightarrow> found s name = Some n" by simp_all
qed

lemma lawful_create:
  assumes "lawful_server client found" and "ns_Name n \<noteq> ''''"
  shows "nc_Create (kc_Namespaces client) n s = (Inr m, s') \<Longrightarrow> creates_namespace (found s) (ns_Name n) m (found s')"
    and "nc_Create (kc_Namespaces client) n s = (Inl e, s') \<Longrightarrow>
      found s' = found s \<or> (\<exists>m. creates_namespace (found s) (ns_Name n) m (found s'))"
  using assms unfolding lawful_server_def by blast+

lemma lawful_delete:
  assumes "lawful_server client found"
  shows "\<exists>x. found (snd (nc_Delete (kc_Namespaces client) name s)) = (found s)(name := x) \<and> (found s name = None \<longrightarrow> x = None)"
  using assms unfolding lawful_server_def by blast

lemma lawful_rest:
  assumes "lawful_server client found"
  shows "found (snd (kc_CreateRoleBinding client ns rb s)) = found s"
    and "found (snd (kc_CreateAccessReview client review s)) = found s"
  using assms unfolding lawful_server_def by blast+

lemma backoff_keeps:
  assumes "\<And>s. I (snd (condition s)) = I s"
  shows "I (snd (backoff_loop rnd b condition left i d sl s)) = I s"
proof (induction left arbitrary: i d sl s)
  case (Suc left)
  have "I s' = I s" if "condition s = (r, s')" for r s'
    using assms [of s] that by simp
  then show ?case
    using Suc by (auto simp: Let_def split: prod.split sum.split bool.split)
qed simp

lemma waitForAccess_keeps:
  "lawful_server client found \<Longrightarrow> found (snd (waitForAccess rnd client ns u s)) = found s"
  unfolding waitForAccess_def ExponentialBackoff_def by (rule backoff_keeps) (rule lawful_rest(2))

text \<open>A created namespace is a new project of its name.\<close>

lemma creates_project:
  assumes "creates_namespace m name n m'"
  shows "om_Name (pr_ObjectMeta (ConvertNamespace n)) = name \<and> projects_of m name = None \<and>
    projects_of m' = (projects_of m)(name \<mapsto> ConvertNamespace n)"
  using assms by (auto simp: creates_namespace_def projects_of_def)

lemma made_step:
  "creates_namespace m name n m' \<Longrightarrow> makes_project c \<Longrightarrow>
   project_step (projects_of m) c (Answered (ConvertNamespace n)) (projects_of m')"
  using creates_project [of m name n m'] by (simp add: project_step.made)

lemma lost_step:
  "m' = m \<or> (\<exists>n. creates_namespace m name n m') \<Longrightarrow> makes_project c \<Longrightarrow>
   project_step (projects_of m) c (Refused err) (projects_of m')"
  by (auto dest!: creates_project simp: project_step.refused project_step.lost)

lemma provision_step:
  assumes law: "lawful_server client found" and name: "om_Name (prq_ObjectMeta r) \<noteq> ''''" and c: "makes_project c"
    and p: "provision rnd client r u s = (a, s')"
  shows "project_step (projects_of (found s)) c
    (case a of Inl err \<Rightarrow> Refused err | Inr q \<Rightarrow> Answered q) (projects_of (found s'))"
proof -
  let ?ns = "om_Name (prq_ObjectMeta r)"
  obtain g s1 where g: "nc_Get (kc_Namespaces client) ?ns s = (g, s1)" by fastforce
  have s1: "found s1 = found s" using lawful_get(1) [OF law g] .
  obtain x s2 where x: "nc_Create (kc_Namespaces client) (requested_namespace r u) s1 = (x, s2)" by fastforce
  show ?thesis
  proof (cases g)
    case (Inr n)
    with p g s1 c show ?thesis by (auto simp: provision_def Let_def intro: project_step.refused)
  next
    case (Inl e)
    show ?thesis
    proof (cases x)
      case (Inl err)
      with lawful_create(2) [OF law, of "requested_namespace r u" s1 err s2] name x s1
      have "found s2 = found s \<or> (\<exists>n. creates_namespace (found s) ?ns n (found s2))" by simp
      moreover have "a = Inl (InternalError err)" "s' = s2"
        using p g x Inl \<open>g = Inl e\<close> by (simp_all add: provision_def Let_def)
      ultimately show ?thesis using lost_step c by simp
    next
      case (Inr n)
      with lawful_create(1) [OF law, of "requested_namespace r u" s1 n s2] name x s1
      have n: "creates_namespace (found s) ?ns n (found s2)" by simp
      have b: "found t' = found t" if "kc_CreateRoleBinding client ?ns rb t = (y, t')" for rb t y t'
        using lawful_rest(1) [OF law, of ?ns rb t] that by simp
      have w: "found t' = found t" if "waitForAccess rnd client ?ns u t = (y, t')" for t y t'
        using waitForAccess_keeps [OF law, of rnd ?ns u t] that by simp
      have "found s' = found s2 \<and> (\<forall>q. a = Inr q \<longrightarrow> q = ConvertNamespace n)"
        using p g x Inr \<open>g = Inl e\<close>
        by (auto simp: provision_def Let_def b w split: prod.splits option.splits)
      with n c made_step [OF n c] lost_step [of "found s'" "found s" ?ns c] show ?thesis
        by (auto split: sum.split)
    qed
  qed
qed

lemma provision_name:
  assumes "lawful_server client found" and "om_Name (prq_ObjectMeta r) \<noteq> []"
    and "provision rnd client r u s = (Inr p, s')"
  shows "om_Name (pr_ObjectMeta p) = om_Name (prq_ObjectMeta r)"
proof -
  obtain n s1 s2 where "nc_Create (kc_Namespaces client) (requested_namespace r u) s1 = (Inr n, s2)" "p = ConvertNamespace n"
    using provision_success [OF assms(3)] by blast
  with lawful_create(1) [OF assms(1), of "requested_namespace r u" s1 n s2] assms(2) show ?thesis
    by (simp add: creates_namespace_def)
qed

lemma create_step:
  assumes law: "lawful_server client found"
  shows "project_step (projects_of (found s)) (CreateProject env ctx obj admit)
    (fst (serve_call client (CreateProject env ctx obj admit) s))
    (projects_of (found (snd (serve_call client (CreateProject env ctx obj admit) s))))"
proof (cases obj)
  case (InternalProject p)
  let ?q = "p\<lparr>pr_ObjectMeta := FillObjectMetaSystemFields env ctx (pr_ObjectMeta p)\<rparr>"
  let ?n = "fst (ConvertProject ?q)" and ?c = "CreateProject env ctx obj admit"
  have c: "makes_project ?c" by simp
  show ?thesis
  proof (cases "ValidateProject ?q = [] \<and> admit (InternalProject ?q) = None")
    case True
    obtain r s' where r: "nc_Create (kc_Namespaces client) ?n s = (r, s')" by fastforce
    have name: "ns_Name ?n \<noteq> ''''"
      using True ValidateProject_accepts [of ?q] by (auto simp: ConvertProject_fields(1))
    have "serve_call client ?c s =
        (case r of Inl err \<Rightarrow> Refused err | Inr n \<Rightarrow> Answered (ConvertNamespace n), s')"
      using True r InternalProject
      by (simp add: projects_Create_def strategy_PrepareForCreate_def strategy_Validate_def settle_def Let_def split: sum.split)
    then show ?thesis
      using lawful_create [OF law name, of s _ s'] r c
      by (cases r) (auto simp del: serve_call.simps simp: made_step lost_step)

  next
    case False
    then have "\<exists>err. serve_call client ?c s = (Refused err, s)"
      using InternalProject
      by (auto simp: projects_Create_def strategy_PrepareForCreate_def strategy_Validate_def settle_def Let_def)
    with c show ?thesis by (auto simp del: serve_call.simps simp: project_step.refused)
  qed
qed (simp_all add: projects_Create_def settle_def project_step.refused)

lemma request_name_nonempty:
  assumes "BeforeCreate env enabled request_accessor request_strategy ctx request = Inr r"
  shows "om_Name (prq_ObjectMeta r) \<noteq> ''''"
proof -
  have "2 \<le> length (om_Name (prq_ObjectMeta r))"
    using ValidateProject_accepts BeforeCreate_request(1) [OF assms] by (force simp: ValidateProjectRequest_def)
  then show ?thesis by auto
qed

lemma request_step:
  assumes law: "lawful_server client found"
  shows "project_step (projects_of (found s)) (RequestProject env enabled rnd ctx obj admit)
    (fst (serve_call client (RequestProject env enabled rnd ctx obj admit) s))
    (projects_of (found (snd (serve_call client (RequestProject env enabled rnd ctx obj admit) s))))"
proof -
  let ?c = "RequestProject env enabled rnd ctx obj admit"
  have c: "makes_project ?c" by simp
  consider
      (provisioned) r u a s' where "om_Name (prq_ObjectMeta r) \<noteq> ''''" "provision rnd client r u s = (a, s')"
        "serve_call client ?c s = (case a of Inl err \<Rightarrow> Refused err | Inr q \<Rightarrow> Answered q, s')"
    | (refused) err where "serve_call client ?c s = (Refused err, s)"
    | (panicked) m where "serve_call client ?c s = (Panicked m, s)"
  proof (cases "\<exists>request u r. obj = RequestObject request \<and> ctx_User ctx = Some u \<and>
      BeforeCreate env enabled request_accessor request_strategy ctx request = Inr r \<and> admit (RequestObject r) = None")
    case True
    then obtain request u r where o: "obj = RequestObject request" "ctx_User ctx = Some u"
      and r: "BeforeCreate env enabled request_accessor request_strategy ctx request = Inr r"
      and a: "admit (RequestObject r) = None" by blast
    obtain a s' where p: "provision rnd client r (ui_Name u) s = (a, s')" by fastforce
    have "om_Name (prq_ObjectMeta r) \<noteq> ''''"
      using request_name_nonempty [OF r] .
    moreover have "serve_call client ?c s = (case a of Inl err \<Rightarrow> Refused err | Inr q \<Rightarrow> Answered q, s')"
      using o r \<open>admit (RequestObject r) = None\<close> p by (simp add: requests_Create_def settle_def split: sum.split)
    ultimately show ?thesis using p by (intro provisioned)
  next
    case False
    have "(\<exists>err. requests_Create env enabled rnd client ctx obj admit s = Return (Inl err, s)) \<or>
        (\<exists>m. requests_Create env enabled rnd client ctx obj admit s = Panic m)"
    proof (cases "ctx_User ctx")
      case (Some u)
      with False show ?thesis
        by (cases obj) (auto simp: requests_Create_def type_assertion_panic_def split: option.split sum.split)
    qed (simp add: requests_Create_def)
    then have "(\<exists>err. serve_call client ?c s = (Refused err, s)) \<or> (\<exists>m. serve_call client ?c s = (Panicked m, s))"
      by (auto simp: settle_def)
    then show ?thesis by (elim disjE exE) (rule refused, assumption, rule panicked, assumption)

  qed
  then show ?thesis
  proof cases
    case provisioned
    with provision_step [OF law provisioned(1) c provisioned(2)] show ?thesis by (simp del: serve_call.simps)
  qed (use c in \<open>simp_all del: serve_call.simps add: project_step.refused project_step.wrong_type\<close>)
qed

lemma update_step:
  assumes law: "lawful_server client found"
  shows "project_step (projects_of (found s)) (UpdateProject name f admit)
    (fst (serve_call client (UpdateProject name f admit) s))
    (projects_of (found (snd (serve_call client (UpdateProject name f admit) s))))"
proof -
  obtain r s' where g: "nc_Get (kc_Namespaces client) name s = (r, s')" by fastforce
  have s': "found s' = found s" using lawful_get(1) [OF law g] .
  show ?thesis
  proof (cases r)
    case (Inr n)
    show ?thesis
    proof (cases "f (InternalProject (ConvertNamespace n))")
      case (Inr obj)
      with g s' \<open>r = Inr n\<close> show ?thesis
        by (cases obj) (simp_all add: projects_Update_def projects_Get_def PrepareForUpdate_panics type_assertion_panic_def
            settle_def project_step.not_updated project_step.update_panics)
    qed (use g s' Inr in \<open>simp add: projects_Update_def projects_Get_def settle_def project_step.not_updated\<close>)
  qed (use g s' in \<open>simp add: projects_Update_def projects_Get_def settle_def project_step.not_updated\<close>)
qed

lemma delete_call_step:
  assumes law: "lawful_server client found"
  shows "project_step (projects_of (found s)) (DeleteProject name)
    (fst (serve_call client (DeleteProject name) s))
    (projects_of (found (snd (serve_call client (DeleteProject name) s))))"
proof -
  obtain x where x: "found (snd (nc_Delete (kc_Namespaces client) name s)) = (found s)(name := x)"
    "found s name = None \<longrightarrow> x = None"
    using lawful_delete [OF law] by blast
  then have "projects_of (found (snd (serve_call client (DeleteProject name) s))) =
      (projects_of (found s))(name := map_option ConvertNamespace x)"
    by (auto simp: projects_Delete_def projects_of_def fun_eq_iff split: prod.split)
  moreover have "fst (serve_call client (DeleteProject name) s) = DeleteDone \<or>
      (\<exists>err. fst (serve_call client (DeleteProject name) s) = Refused err)"
    by (auto simp: projects_Delete_def split: prod.split option.split)
  moreover have "projects_of (found s) name = None \<Longrightarrow> map_option ConvertNamespace x = None"
    using x(2) by (simp add: projects_of_def)
  ultimately show ?thesis using project_step.deleted by metis
qed

lemma get_step:
  assumes law: "lawful_server client found"
  shows "project_step (projects_of (found s)) (GetProject name)
    (fst (serve_call client (GetProject name) s))
    (projects_of (found (snd (serve_call client (GetProject name) s))))"
proof -
  obtain r s' where g: "nc_Get (kc_Namespaces client) name s = (r, s')" by fastforce
  then show ?thesis
    using lawful_get [OF law g]
    by (cases r) (simp_all add: projects_Get_def settle_def projects_of_def project_step.read project_step.unread)
qed

lemmas storage_steps = get_step create_step request_step update_step delete_call_step

lemma serve_call_step:
  assumes "lawful_server client found"
  shows "project_step (projects_of (found s)) c (fst (serve_call client c s)) (projects_of (found (snd (serve_call client c s))))"
  using storage_steps [OF assms] by (cases c) simp_all

lemma serve_calls_steps:
  assumes "lawful_server client found"
  shows "project_steps (projects_of (found s)) cs (fst (serve_calls client cs s)) (projects_of (found (snd (serve_calls client cs s))))"
proof (induction cs arbitrary: s)
  case (Cons c cs)
  with serve_call_step [OF assms, of s c] show ?case
    by (auto split: prod.split intro: project_steps.more) (metis Cons.IH fst_conv snd_conv project_steps.more)
qed (simp add: project_steps.none)

section \<open>Properties\<close>

text \<open>
  C12: Every request to either storage is a step on the map from names to projects that the server's
  namespaces are, with an answer that tells the truth about it: a read answers what is there; a creation
  that is answered made exactly the project it answers, under a name that was free; one that fails made
  nothing or, when a later call of it failed, one project of a free name; an update changes nothing; a
  deletion touches its name alone. So is every sequence of requests a sequence of such steps.
\<close>

theorem storage_refines_map:
  assumes "lawful_server client found"
  shows "project_step (projects_of (found s)) c (fst (serve_call client c s)) (projects_of (found (snd (serve_call client c s)))) \<and>
    project_steps (projects_of (found s)) cs (fst (serve_calls client cs s)) (projects_of (found (snd (serve_calls client cs s))))"
  using serve_call_step [OF assms] serve_calls_steps [OF assms] by blast

text \<open>
  A small server for the witnesses: it keeps a list of namespaces, refuses a name it has, and defaults
  the phase of a new namespace.
\<close>

definition sample_remote :: "namespace list kube_client" where
  "sample_remote =
     \<lparr>kc_Namespaces =
        \<lparr>nc_Get = (\<lambda>name s. (namespace_Get s name, s)),
         nc_Create = (\<lambda>n s. case find (\<lambda>m. ns_Name m = ns_Name n) s of
             Some m \<Rightarrow> (Inl (AlreadyExists (CoreResource ''namespaces'') (ns_Name n)), s)
           | None \<Rightarrow> (Inr (n\<lparr>ns_Phase := ''Active''\<rparr>), n\<lparr>ns_Phase := ''Active''\<rparr> # s)),
         nc_Update = (\<lambda>n s. (Inr n, map (\<lambda>m. if ns_Name m = ns_Name n then n else m) s)),
         nc_Delete = (\<lambda>name s. case find (\<lambda>m. ns_Name m = name) s of
             Some m \<Rightarrow> (None, filter (\<lambda>m. ns_Name m \<noteq> name) s)
           | None \<Rightarrow> (Some (NotFound (CoreResource ''namespaces'') name), s))\<rparr>,
      kc_CreateRoleBinding = (\<lambda>ns rb s. (None, s)),
      kc_CreateAccessReview = (\<lambda>review s. (Inr True, s))\<rparr>"

definition sample_found :: "namespace list \<Rightarrow> string \<rightharpoonup> namespace" where
  "sample_found s name = find (\<lambda>n. ns_Name n = name) s"

lemma sample_remote_lawful: "lawful_server sample_remote sample_found"
proof -
  have "sample_found (n # s) = (sample_found s)(ns_Name n \<mapsto> n)" for n s
    by (auto simp: sample_found_def)
  moreover have "sample_found (filter (\<lambda>m. ns_Name m \<noteq> name) s) = (sample_found s)(name := None)" for name s
    by (rule ext, induction s) (auto simp: sample_found_def)
  ultimately show ?thesis
    unfolding lawful_server_def
    by (auto simp: sample_remote_def namespace_Get_def creates_namespace_def sample_found_def fun_upd_idem_iff
        split: option.splits if_splits)
qed

definition sample_create :: storage_call where
  "sample_create = CreateProject sample_env sample_context (InternalProject sample_new_project) (\<lambda>_. None)"

definition sample_history :: "storage_call list" where
  "sample_history = [GetProject ''shop'', sample_create, sample_create, GetProject ''shop'']"

lemma sample_history_runs:
  "\<exists>n err err'. serve_calls sample_remote sample_history [] =
     ([Refused err, Answered (ConvertNamespace n), Refused err', Answered (ConvertNamespace n)], [n]) \<and> ns_Name n = ''shop''"
proof -
  let ?q = "sample_new_project\<lparr>pr_ObjectMeta := FillObjectMetaSystemFields sample_env sample_context (pr_ObjectMeta sample_new_project)\<rparr>"
  let ?n = "(fst (ConvertProject ?q))\<lparr>ns_Phase := ''Active''\<rparr>"
  have v: "ValidateProject ?q = []" by code_simp
  have n: "ns_Name (fst (ConvertProject ?q)) = ''shop''" by code_simp
  have c: "serve_call sample_remote sample_create s = (case find (\<lambda>m. ns_Name m = ''shop'') s of
      Some m \<Rightarrow> (Refused (AlreadyExists (CoreResource ''namespaces'') ''shop''), s)
    | None \<Rightarrow> (Answered (ConvertNamespace ?n), ?n # s))" for s
    using v n by (simp add: sample_create_def projects_Create_def strategy_PrepareForCreate_def strategy_Validate_def
        sample_remote_def settle_def Let_def split: option.split)
  have g: "serve_call sample_remote (GetProject ''shop'') s = (case find (\<lambda>m. ns_Name m = ''shop'') s of
      None \<Rightarrow> (Refused (NotFound (CoreResource ''namespace'') ''shop''), s)
    | Some m \<Rightarrow> (Answered (ConvertNamespace m), s))" for s
    by (simp add: projects_Get_def sample_remote_def namespace_Get_def settle_def split: option.split)
  show ?thesis
    using n by (simp add: sample_history_def c g del: serve_call.simps)
qed

theorem storage_refines_map_witness:
  "\<exists>n err err'. project_steps Map.empty sample_history
     [Refused err, Answered (ConvertNamespace n), Refused err', Answered (ConvertNamespace n)] [''shop'' \<mapsto> ConvertNamespace n]"
proof -
  obtain n err err' where r: "serve_calls sample_remote sample_history [] =
      ([Refused err, Answered (ConvertNamespace n), Refused err', Answered (ConvertNamespace n)], [n])" and n: "ns_Name n = ''shop''"
    using sample_history_runs by blast
  have "projects_of (sample_found [n]) = [''shop'' \<mapsto> ConvertNamespace n]" "projects_of (sample_found []) = Map.empty"
    using n by (auto simp: projects_of_def sample_found_def)
  then show ?thesis
    using conjunct2 [OF storage_refines_map [OF sample_remote_lawful, of "[]" sample_create sample_history]] r by auto
qed

text \<open>
  C11: A project that either storage has answered to a creation is, as long as nobody asks for its
  deletion, exactly what the server has: whatever other requests are served in between, a read of its
  name answers that same project or an error, and no second creation of the name, by either
  storage, is answered with success.
\<close>

theorem created_project_stays:
  assumes "lawful_server client found" and "serve_calls client (pre @ c # mid @ [d]) s = (as, s')"
    and "makes_project c" and "as ! length pre = Answered p" and "DeleteProject (om_Name (pr_ObjectMeta p)) \<notin> set mid"
  shows "(d \<noteq> DeleteProject (om_Name (pr_ObjectMeta p)) \<longrightarrow> projects_of (found s') (om_Name (pr_ObjectMeta p)) = Some p) \<and>
    (d = GetProject (om_Name (pr_ObjectMeta p)) \<longrightarrow> last as = Answered p \<or> (\<exists>err. last as = Refused err)) \<and>
    (makes_project d \<longrightarrow> (\<forall>q. last as = Answered q \<longrightarrow> om_Name (pr_ObjectMeta q) \<noteq> om_Name (pr_ObjectMeta p)))"
proof -
  let ?x = "om_Name (pr_ObjectMeta p)"
  have "project_steps (projects_of (found s)) (pre @ c # mid @ [d]) as (projects_of (found s'))"
    using serve_calls_steps [OF assms(1), of s "pre @ c # mid @ [d]"] assms(2) by simp
  then obtain P1 where P1: "project_steps P1 (c # mid @ [d]) (drop (length pre) as) (projects_of (found s'))"
    using project_steps_append by blast
  then obtain a as1 P2 where as1: "drop (length pre) as = a # as1" and c: "project_step P1 c a P2"
    and "project_steps P2 (mid @ [d]) as1 (projects_of (found s'))"
    by (auto elim: project_steps_ConsE)
  then obtain P3 where mid: "project_steps P2 mid (take (length mid) as1) P3"
    and d: "project_steps P3 [d] (drop (length mid) as1) (projects_of (found s'))"
    using project_steps_append by blast
  then obtain b where b: "drop (length mid) as1 = [b]" and step: "project_step P3 d b (projects_of (found s'))"
    by (auto elim!: project_steps_ConsE elim: project_steps.cases)
  have "a = Answered p"
    using assms(4) as1 by (metis hd_drop_conv_nth list.sel(1) drop_eq_Nil list.distinct(1) not_le)
  then have "P2 ?x = Some p" using c assms(3) project_step_made by blast
  then have P3: "P3 ?x = Some p" using project_steps_keep [OF mid] assms(5) by blast
  have "last as = last as1"
    using as1 b by (metis last_ConsR last_drop drop_eq_Nil list.distinct(1) not_le drop_Nil)
  then have "last as = b"
    using b by (metis last.simps last_drop drop_eq_Nil list.distinct(1) not_le)
  moreover have "d = GetProject ?x \<Longrightarrow> b = Answered p \<or> (\<exists>err. b = Refused err)"
    using step P3 project_step_read by blast
  moreover have "om_Name (pr_ObjectMeta q) \<noteq> ?x" if "makes_project d" "b = Answered q" for q
    using step P3 that project_step_taken [of P3 d q] by auto
  ultimately show ?thesis
    using project_step_keeps [OF step P3] by simp

qed

theorem created_project_stays_witness:
  "\<exists>n. last (fst (serve_calls sample_remote sample_history [])) = Answered (ConvertNamespace n) \<and>
     projects_of (sample_found (snd (serve_calls sample_remote sample_history []))) ''shop'' = Some (ConvertNamespace n)"
proof -
  obtain n err err' where r: "serve_calls sample_remote sample_history [] =
      ([Refused err, Answered (ConvertNamespace n), Refused err', Answered (ConvertNamespace n)], [n])" and n: "ns_Name n = ''shop''"
    using sample_history_runs by blast
  have h: "sample_history = [GetProject ''shop''] @ sample_create # [sample_create] @ [GetProject ''shop'']"
    by (simp add: sample_history_def)
  have m: "makes_project sample_create" "DeleteProject x \<notin> set [sample_create]" for x
    by (simp_all add: sample_create_def)
  show ?thesis
    using created_project_stays [OF sample_remote_lawful, of "[GetProject ''shop'']" sample_create "[sample_create]"
        "GetProject ''shop''" "[]", folded h, OF r m(1) _ m(2), of "ConvertNamespace n"] r n by auto
qed

end
