(* ===== verification/RequestRaces.thy ===== *)
theory RequestRaces
  imports ProjectHistory
begin

text \<open>
  Project requests served at the same time: \<^verbatim>\<open>Create\<close> of \<^verbatim>\<open>pkg/project/registry/projectrequest/storage.go\<close>
  call by call, each request in its own goroutine, interleaved in any way with the others and with other
  clients of the remote server.
\<close>

section \<open>One request, call by call\<close>

text \<open>Where a request is after its validation: before a call of the remote server, or done.\<close>

datatype request_pc =
    CheckName
  | MakeNamespace
  | BindAdmin namespace
  | BindProjectAdmin namespace
  | AwaitAccess namespace
  | Finished "go_error + project"

record request_thread =
  rt_request :: project_request
  rt_username :: string
  rt_pc :: request_pc

definition rt_name :: "request_thread \<Rightarrow> string" where
  "rt_name t = om_Name (prq_ObjectMeta (rt_request t))"

fun request_call :: "(nat \<Rightarrow> rat) \<Rightarrow> 's kube_client \<Rightarrow> project_request \<Rightarrow> string \<Rightarrow> request_pc \<Rightarrow> 's \<Rightarrow> request_pc \<times> 's" where
  "request_call rnd client request username CheckName s =
     (case nc_Get (kc_Namespaces client) (om_Name (prq_ObjectMeta request)) s of
        (Inr _, s) \<Rightarrow> (Finished (Inl (AlreadyExists (SchemeResource ''project'') (om_Name (prq_ObjectMeta request)))), s)
      | (Inl _, s) \<Rightarrow> (MakeNamespace, s))"
| "request_call rnd client request username MakeNamespace s =
     (case nc_Create (kc_Namespaces client) (requested_namespace request username) s of
        (Inl err, s) \<Rightarrow> (Finished (Inl (InternalError err)), s)
      | (Inr resultingNamespace, s) \<Rightarrow> (BindAdmin resultingNamespace, s))"
| "request_call rnd client request username (BindAdmin n) s =
     (case kc_CreateRoleBinding client (om_Name (prq_ObjectMeta request))
         (admin_binding (om_Name (prq_ObjectMeta request)) username ''admin'') s of
        (Some err, s) \<Rightarrow> (Finished (Inl (InternalError err)), s)
      | (None, s) \<Rightarrow> (BindProjectAdmin n, s))"
| "request_call rnd client request username (BindProjectAdmin n) s =
     (case kc_CreateRoleBinding client (om_Name (prq_ObjectMeta request))
         (admin_binding (om_Name (prq_ObjectMeta request)) username (GroupName @ '':admin'')) s of
        (Some err, s) \<Rightarrow> (Finished (Inl (InternalError err)), s)
      | (None, s) \<Rightarrow> (AwaitAccess n, s))"
| "request_call rnd client request username (AwaitAccess n) s =
     (let (_, s) = waitForAccess rnd client (om_Name (prq_ObjectMeta request)) username s
      in (Finished (Inr (ConvertNamespace n)), s))"
| "request_call rnd client request username (Finished r) s = (Finished r, s)"

fun request_calls :: "nat \<Rightarrow> (nat \<Rightarrow> rat) \<Rightarrow> 's kube_client \<Rightarrow> project_request \<Rightarrow> string \<Rightarrow> request_pc \<Rightarrow> 's \<Rightarrow> request_pc \<times> 's" where
  "request_calls 0 rnd client request username pc s = (pc, s)"
| "request_calls (Suc k) rnd client request username pc s =
     (case request_call rnd client request username pc s of
        (pc, s) \<Rightarrow> request_calls k rnd client request username pc s)"

lemma request_calls_finished [simp]:
  "request_calls k rnd client request username (Finished r) s = (Finished r, s)"
  by (induction k) simp_all

text \<open>A request that is not disturbed does what \<open>provision\<close> says.\<close>

lemma request_calls_provision:
  "request_calls 5 rnd client request username CheckName s =
     (case provision rnd client request username s of (r, s') \<Rightarrow> (Finished r, s'))"
  by (auto simp: provision_def Let_def numeral_eq_Suc split: prod.split sum.split option.split)

section \<open>All requests together\<close>

text \<open>
  The calls that change the remote server for a request, in the order they were made: the namespace a
  request made, and the bindings it asked for, with the request's number.
\<close>

datatype remote_write =
    MadeNamespace nat string
  | AskedBinding nat string role_binding

fun writes_of :: "nat \<Rightarrow> project_request \<Rightarrow> string \<Rightarrow> request_pc \<Rightarrow> request_pc \<Rightarrow> remote_write list" where
  "writes_of i request username MakeNamespace (BindAdmin n) = [MadeNamespace i (om_Name (prq_ObjectMeta request))]"
| "writes_of i request username (BindAdmin n) pc =
     [AskedBinding i (om_Name (prq_ObjectMeta request)) (admin_binding (om_Name (prq_ObjectMeta request)) username ''admin'')]"
| "writes_of i request username (BindProjectAdmin n) pc =
     [AskedBinding i (om_Name (prq_ObjectMeta request))
        (admin_binding (om_Name (prq_ObjectMeta request)) username (GroupName @ '':admin''))]"
| "writes_of i request username pc pc' = []"

record 's requests_state =
  rs_remote :: 's
  rs_threads :: "nat \<Rightarrow> request_thread"
  rs_writes :: "remote_write list"

text \<open>The state after a call of request \<open>i\<close> that leaves it at \<open>pc\<close> and the remote server at \<open>s\<close>.\<close>

definition after_call :: "nat \<Rightarrow> request_pc \<Rightarrow> 's \<Rightarrow> 's requests_state \<Rightarrow> 's requests_state" where
  "after_call i pc s rs =
     (let t = rs_threads rs i
      in rs\<lparr>rs_remote := s, rs_threads := (rs_threads rs)(i := t\<lparr>rt_pc := pc\<rparr>),
           rs_writes := rs_writes rs @ writes_of i (rt_request t) (rt_username t) (rt_pc t) pc\<rparr>)"

text \<open>
  The steps: one call of one request, whatever the other requests are doing, and a step \<open>other\<close> of
  anybody else on the remote server. The requests have passed their validation.
\<close>

definition admitted :: "project_request \<Rightarrow> bool" where
  "admitted r \<longleftrightarrow> (\<exists>env enabled ctx request. BeforeCreate env enabled request_accessor request_strategy ctx request = Inr r)"

inductive requests_reachable :: "'s kube_client \<Rightarrow> ('s \<Rightarrow> 's \<Rightarrow> bool) \<Rightarrow> 's requests_state \<Rightarrow> bool"
  for client :: "'s kube_client" and other :: "'s \<Rightarrow> 's \<Rightarrow> bool" where
  start: "(\<And>i. rt_pc (ts i) = CheckName \<and> admitted (rt_request (ts i))) \<Longrightarrow>
    requests_reachable client other \<lparr>rs_remote = s, rs_threads = ts, rs_writes = []\<rparr>"
| call: "requests_reachable client other rs \<Longrightarrow> t = rs_threads rs i \<Longrightarrow>
    request_call rnd client (rt_request t) (rt_username t) (rt_pc t) (rs_remote rs) = (pc, s) \<Longrightarrow>
    requests_reachable client other (after_call i pc s rs)"
| other: "requests_reachable client other rs \<Longrightarrow> other (rs_remote rs) s \<Longrightarrow>
    requests_reachable client other (rs\<lparr>rs_remote := s\<rparr>)"

section \<open>The remote server and the others\<close>

text \<open>
  The user a namespace names as its requester. The remote server stores the annotation it is given, and
  the others neither delete a namespace nor change that annotation of it.
\<close>

definition requester :: "namespace \<Rightarrow> string" where
  "requester n = gomap_index (om_Annotations (ns_ObjectMeta n)) ProjectRequester"

definition stores_requester :: "'s kube_client \<Rightarrow> bool" where
  "stores_requester client \<longleftrightarrow>
     (\<forall>n s m s'. nc_Create (kc_Namespaces client) n s = (Inr m, s') \<longrightarrow> requester m = requester n)"

definition still_requested :: "(string \<rightharpoonup> namespace) \<Rightarrow> (string \<rightharpoonup> namespace) \<Rightarrow> bool" where
  "still_requested m m' \<longleftrightarrow>
     (\<forall>name n. m name = Some n \<longrightarrow> (\<exists>n'. m' name = Some n' \<and> requester n' = requester n))"

definition others_keep :: "('s \<Rightarrow> string \<rightharpoonup> namespace) \<Rightarrow> ('s \<Rightarrow> 's \<Rightarrow> bool) \<Rightarrow> bool" where
  "others_keep found other \<longleftrightarrow> (\<forall>s s'. other s s' \<longrightarrow> still_requested (found s) (found s'))"

lemma requester_requested [simp]: "requester (requested_namespace r u) = u"
  by (simp add: requester_def requested_namespace_def gomap_index_def ProjectRequester_def ProjectDescription_def
      ProjectDisplayName_def)

lemma still_requested_refl [simp]: "still_requested m m"
  by (simp add: still_requested_def)

lemma creates_still_requested: "creates_namespace m name n m' \<Longrightarrow> still_requested m m'"
  by (auto simp: creates_namespace_def still_requested_def)

section \<open>What one call does\<close>

text \<open>The project a request that got past its creation is going to answer.\<close>

fun made_project :: "request_pc \<Rightarrow> project option" where
  "made_project (BindAdmin n) = Some (ConvertNamespace n)"
| "made_project (BindProjectAdmin n) = Some (ConvertNamespace n)"
| "made_project (AwaitAccess n) = Some (ConvertNamespace n)"
| "made_project (Finished (Inr p)) = Some p"
| "made_project pc = None"

lemma request_call_keeps:
  assumes law: "lawful_server client found" and "pc \<noteq> MakeNamespace"
    and "request_call rnd client r u pc s = (pc', s')"
  shows "found s' = found s" and "made_project pc' = Some p \<Longrightarrow> made_project pc = Some p"
    and "pc' \<in> {CheckName, MakeNamespace} \<Longrightarrow> pc = CheckName"
proof -
  note b = lawful_rest(1) [OF law, of "om_Name (prq_ObjectMeta r)"]
  note w = waitForAccess_keeps [OF law, of rnd "om_Name (prq_ObjectMeta r)" u s]
  show "found s' = found s"
    using assms lawful_get(1) [OF law, of "om_Name (prq_ObjectMeta r)" s]
      b [of "admin_binding (om_Name (prq_ObjectMeta r)) u ''admin''" s]
      b [of "admin_binding (om_Name (prq_ObjectMeta r)) u (GroupName @ '':admin'')" s] w
    by (cases pc) (auto split: prod.splits sum.splits option.splits)
  show "made_project pc' = Some p \<Longrightarrow> made_project pc = Some p"
    using assms(2,3) by (cases pc) (auto split: prod.splits sum.splits option.splits)
  show "pc' \<in> {CheckName, MakeNamespace} \<Longrightarrow> pc = CheckName"
    using assms(2,3) by (cases pc) (auto split: prod.splits sum.splits option.splits)
qed

lemma request_call_makes:
  assumes law: "lawful_server client found" and "stores_requester client" and "om_Name (prq_ObjectMeta r) \<noteq> ''''"
    and "request_call rnd client r u MakeNamespace s = (pc', s')"
  obtains (made) n where "pc' = BindAdmin n" "creates_namespace (found s) (om_Name (prq_ObjectMeta r)) n (found s')" "requester n = u"
    | (failed) err where "pc' = Finished (Inl err)" "still_requested (found s) (found s')"
proof -
  obtain x s1 where x: "nc_Create (kc_Namespaces client) (requested_namespace r u) s = (x, s1)" by fastforce
  show ?thesis
  proof (cases x)
    case (Inl err)
    with x assms(4) have "pc' = Finished (Inl (InternalError err))" "s' = s1" by simp_all
    moreover have "still_requested (found s) (found s1)"
      using lawful_create(2) [OF law, of "requested_namespace r u" s err s1] assms(3) x Inl creates_still_requested by auto
    ultimately show ?thesis using failed by blast
  next
    case (Inr n)
    with x assms(4) have "pc' = BindAdmin n" "s' = s1" by simp_all
    moreover have "creates_namespace (found s) (om_Name (prq_ObjectMeta r)) n (found s1)"
      using lawful_create(1) [OF law, of "requested_namespace r u" s n s1] assms(3) x Inr by simp
    moreover have "requester n = requester (requested_namespace r u)"
      using assms(2) x Inr unfolding stores_requester_def by blast
    ultimately show ?thesis using made by simp
  qed
qed

section \<open>The invariant\<close>

definition writes_ok :: "('s \<Rightarrow> string \<rightharpoonup> namespace) \<Rightarrow> 's requests_state \<Rightarrow> bool" where
  "writes_ok found rs \<longleftrightarrow>
     (\<forall>i. admitted (rt_request (rs_threads rs i))) \<and>
     (\<forall>i ns. MadeNamespace i ns \<in> set (rs_writes rs) \<longrightarrow> ns = rt_name (rs_threads rs i) \<and>
        rt_pc (rs_threads rs i) \<notin> {CheckName, MakeNamespace} \<and>
        (\<exists>n. found (rs_remote rs) ns = Some n \<and> requester n = rt_username (rs_threads rs i))) \<and>
     (\<forall>i p. made_project (rt_pc (rs_threads rs i)) = Some p \<longrightarrow>
        MadeNamespace i (rt_name (rs_threads rs i)) \<in> set (rs_writes rs) \<and> om_Name (pr_ObjectMeta p) = rt_name (rs_threads rs i)) \<and>
     (\<forall>i j ns. MadeNamespace i ns \<in> set (rs_writes rs) \<longrightarrow> MadeNamespace j ns \<in> set (rs_writes rs) \<longrightarrow> i = j) \<and>
     (\<forall>i ns b. AskedBinding i ns b \<in> set (rs_writes rs) \<longrightarrow> MadeNamespace i ns \<in> set (rs_writes rs) \<and>
        (\<exists>name. b = admin_binding ns (rt_username (rs_threads rs i)) name))"

lemma writes_okD:
  assumes "writes_ok found rs"
  shows "admitted (rt_request (rs_threads rs i))"
    and "MadeNamespace i ns \<in> set (rs_writes rs) \<Longrightarrow> ns = rt_name (rs_threads rs i) \<and>
      rt_pc (rs_threads rs i) \<notin> {CheckName, MakeNamespace} \<and>
      (\<exists>n. found (rs_remote rs) ns = Some n \<and> requester n = rt_username (rs_threads rs i))"
    and "made_project (rt_pc (rs_threads rs i)) = Some p \<Longrightarrow>
      MadeNamespace i (rt_name (rs_threads rs i)) \<in> set (rs_writes rs) \<and> om_Name (pr_ObjectMeta p) = rt_name (rs_threads rs i)"
    and "MadeNamespace i ns \<in> set (rs_writes rs) \<Longrightarrow> MadeNamespace j ns \<in> set (rs_writes rs) \<Longrightarrow> i = j"
    and "AskedBinding i ns b \<in> set (rs_writes rs) \<Longrightarrow> MadeNamespace i ns \<in> set (rs_writes rs) \<and>
      (\<exists>name. b = admin_binding ns (rt_username (rs_threads rs i)) name)"
  using assms unfolding writes_ok_def by blast+

lemma writes_ok_still:
  assumes "writes_ok found rs" and "still_requested (found (rs_remote rs)) (found s)"
  shows "writes_ok found (rs\<lparr>rs_remote := s\<rparr>)"
  using assms unfolding writes_ok_def still_requested_def by simp metis

lemma admitted_name: "admitted r \<Longrightarrow> om_Name (prq_ObjectMeta r) \<noteq> ''''"
  using request_name_nonempty unfolding admitted_def by blast

lemma writes_quiet:
  assumes "pc \<noteq> MakeNamespace" and "x \<in> set (writes_of i r u pc pc')"
  shows "\<exists>name p. x = AskedBinding i (om_Name (prq_ObjectMeta r)) (admin_binding (om_Name (prq_ObjectMeta r)) u name) \<and>
    made_project pc = Some p"
  using assms by (cases pc) auto

lemma writes_failed [simp]: "writes_of i r u MakeNamespace (Finished x) = []"
  by simp

lemma after_call_threads [simp]:
  "rt_name (rs_threads (after_call i pc s rs) j) = rt_name (rs_threads rs j)"
  "rt_username (rs_threads (after_call i pc s rs) j) = rt_username (rs_threads rs j)"
  "rt_request (rs_threads (after_call i pc s rs) j) = rt_request (rs_threads rs j)"
  "rt_pc (rs_threads (after_call i pc s rs) j) = (if j = i then pc else rt_pc (rs_threads rs j))"
  "rs_remote (after_call i pc s rs) = s"
  "rs_writes (after_call i pc s rs) = rs_writes rs @
     writes_of i (rt_request (rs_threads rs i)) (rt_username (rs_threads rs i)) (rt_pc (rs_threads rs i)) pc"
  by (simp_all add: after_call_def rt_name_def Let_def)

lemma writes_ok_made:
  assumes ok: "writes_ok found rs" and at: "rt_pc (rs_threads rs i) = MakeNamespace"
    and c: "creates_namespace (found (rs_remote rs)) (rt_name (rs_threads rs i)) n (found s)"
    and u: "requester n = rt_username (rs_threads rs i)"
  shows "writes_ok found (after_call i (BindAdmin n) s rs)" (is "writes_ok found ?rs'")
proof -
  let ?name = "rt_name (rs_threads rs i)"
  have w: "rs_writes ?rs' = rs_writes rs @ [MadeNamespace i ?name]"
    by (simp add: at rt_name_def)
  have f: "found s ?name = Some n" "ns_Name n = ?name" "found (rs_remote rs) ?name = None"
    using c by (auto simp: creates_namespace_def)
  have new: "MadeNamespace j ?name \<notin> set (rs_writes rs)" for j
    using writes_okD(2) [OF ok, of j ?name] f(3) by auto
  have new_i: "MadeNamespace i ns \<notin> set (rs_writes rs)" for ns
    using writes_okD(2) [OF ok, of i ns] at by auto
  have "ns = rt_name (rs_threads rs j) \<and> (if j = i then BindAdmin n else rt_pc (rs_threads rs j)) \<notin> {CheckName, MakeNamespace} \<and>
      (\<exists>n. found s ns = Some n \<and> requester n = rt_username (rs_threads rs j))"
    if "MadeNamespace j ns \<in> set (rs_writes ?rs')" for j ns
  proof (cases "MadeNamespace j ns \<in> set (rs_writes rs)")
    case True
    with writes_okD(2) [OF ok True] new_i creates_still_requested [OF c] show ?thesis
      unfolding still_requested_def by metis
  next
    case False
    with that have "j = i" "ns = ?name" unfolding w by auto
    with f(1) u show ?thesis by simp
  qed
  moreover have "MadeNamespace j (rt_name (rs_threads rs j)) \<in> set (rs_writes ?rs') \<and> om_Name (pr_ObjectMeta p) = rt_name (rs_threads rs j)"
    if "made_project (if j = i then BindAdmin n else rt_pc (rs_threads rs j)) = Some p" for j p
    using that writes_okD(3) [OF ok, of j p] f(2) unfolding w by (auto split: if_splits)
  moreover have "j = k" if "MadeNamespace j ns \<in> set (rs_writes ?rs')" "MadeNamespace k ns \<in> set (rs_writes ?rs')" for j k ns
    using that new writes_okD(4) [OF ok, of j ns k] unfolding w by auto
  moreover have "MadeNamespace j ns \<in> set (rs_writes ?rs') \<and> (\<exists>name. b = admin_binding ns (rt_username (rs_threads rs j)) name)"
    if "AskedBinding j ns b \<in> set (rs_writes ?rs')" for j ns b
    using that writes_okD(5) [OF ok, of j ns b] unfolding w by auto
  ultimately show ?thesis
    using writes_okD(1) [OF ok] unfolding writes_ok_def after_call_threads(1-5) by simp
qed

lemma writes_ok_quiet:
  assumes ok: "writes_ok found rs" and at: "rt_pc (rs_threads rs i) \<noteq> MakeNamespace" and s: "found s = found (rs_remote rs)"
    and p: "\<And>p. made_project pc = Some p \<Longrightarrow> made_project (rt_pc (rs_threads rs i)) = Some p"
    and pc: "pc \<in> {CheckName, MakeNamespace} \<Longrightarrow> rt_pc (rs_threads rs i) = CheckName"
  shows "writes_ok found (after_call i pc s rs)" (is "writes_ok found ?rs'")
proof -
  let ?t = "rs_threads rs i"
  have w: "\<exists>nm p. x = AskedBinding i (rt_name ?t) (admin_binding (rt_name ?t) (rt_username ?t) nm) \<and> made_project (rt_pc ?t) = Some p"
    if "x \<in> set (writes_of i (rt_request ?t) (rt_username ?t) (rt_pc ?t) pc)" for x
    using writes_quiet [OF at that] by (simp add: rt_name_def)
  have old: "MadeNamespace j ns \<in> set (rs_writes ?rs') \<longleftrightarrow> MadeNamespace j ns \<in> set (rs_writes rs)" for j ns
    using w by auto
  have "MadeNamespace j ns \<in> set (rs_writes rs) \<and> (\<exists>name. b = admin_binding ns (rt_username (rs_threads rs j)) name)"
    if "AskedBinding j ns b \<in> set (rs_writes ?rs')" for j ns b
  proof (cases "AskedBinding j ns b \<in> set (rs_writes rs)")
    case False
    with that have "AskedBinding j ns b \<in> set (writes_of i (rt_request ?t) (rt_username ?t) (rt_pc ?t) pc)" by simp
    with w writes_okD(3) [OF ok] show ?thesis by blast
  qed (use writes_okD(5) [OF ok] in blast)
  moreover have "(if j = i then pc else rt_pc (rs_threads rs j)) \<notin> {CheckName, MakeNamespace}"
    if "MadeNamespace j ns \<in> set (rs_writes rs)" for j ns
    using writes_okD(2) [OF ok that] pc by auto
  moreover have "MadeNamespace j (rt_name (rs_threads rs j)) \<in> set (rs_writes rs) \<and> om_Name (pr_ObjectMeta q) = rt_name (rs_threads rs j)"
    if "made_project (if j = i then pc else rt_pc (rs_threads rs j)) = Some q" for j q
    using that writes_okD(3) [OF ok, of j q] p [of q] by (auto split: if_splits)
  ultimately show ?thesis
    using writes_okD(1,2,4) [OF ok] s unfolding writes_ok_def old after_call_threads(1-5) by simp
qed

lemma writes_ok_call:
  assumes law: "lawful_server client found" and keeps: "stores_requester client"
    and ok: "writes_ok found rs" and t: "t = rs_threads rs i"
    and call: "request_call rnd client (rt_request t) (rt_username t) (rt_pc t) (rs_remote rs) = (pc, s)"
  shows "writes_ok found (after_call i pc s rs)"
proof (cases "rt_pc t = MakeNamespace")
  case True
  have name: "om_Name (prq_ObjectMeta (rt_request t)) \<noteq> ''''"
    using writes_okD(1) [OF ok] t admitted_name by auto
  from True call have "request_call rnd client (rt_request t) (rt_username t) MakeNamespace (rs_remote rs) = (pc, s)" by simp
  then consider
      (made) n where "pc = BindAdmin n" "creates_namespace (found (rs_remote rs)) (rt_name t) n (found s)" "requester n = rt_username t"
    | (failed) err where "pc = Finished (Inl err)" "still_requested (found (rs_remote rs)) (found s)"
    unfolding rt_name_def by (rule request_call_makes [OF law keeps name])
  then show ?thesis
  proof cases
    case made
    with True t show ?thesis using writes_ok_made [OF ok, of i n s] by simp
  next
    case failed
    with True t have "rs_writes (after_call i pc s rs) = rs_writes (rs\<lparr>rs_remote := s\<rparr>)" by simp
    with writes_ok_still [OF ok failed(2)] failed(1) show ?thesis
      unfolding writes_ok_def after_call_threads(1-5) by auto
  qed
next
  case False
  with request_call_keeps [OF law False call] t show ?thesis
    by (intro writes_ok_quiet [OF ok]) auto
qed

lemma requests_reachable_ok:
  assumes "lawful_server client found" and "stores_requester client" and "others_keep found other"
    and "requests_reachable client other rs"
  shows "writes_ok found rs"
  using assms(4)
proof induction
  case (start ts s)
  then show ?case by (simp add: writes_ok_def)
next
  case (call rs t i rnd pc s)
  from writes_ok_call [OF assms(1,2) call.IH call.hyps(2,3)] show ?case .
next
  case (other rs s)
  then show ?case using assms(3) by (intro writes_ok_still) (auto simp: others_keep_def)
qed

section \<open>Properties\<close>

text \<open>
  C6: However the calls of concurrent project requests are interleaved, with each other and with other
  clients that do not delete the namespaces: every role binding a request asks for in a namespace names
  the user who is recorded there as its requester, so nobody is made an administrator of a project that
  another one requested; a request that succeeds answers a project of its name, which the server has and
  which names its user; and of the requests for one name at most one succeeds.
\<close>

theorem concurrent_requests_safe:
  assumes "lawful_server client found" and "stores_requester client" and "others_keep found other"
    and "requests_reachable client other rs"
  shows "(\<forall>i ns b. AskedBinding i ns b \<in> set (rs_writes rs) \<longrightarrow>
      (\<exists>n name. found (rs_remote rs) ns = Some n \<and> b = admin_binding ns (requester n) name)) \<and>
    (\<forall>i p. rt_pc (rs_threads rs i) = Finished (Inr p) \<longrightarrow> om_Name (pr_ObjectMeta p) = rt_name (rs_threads rs i) \<and>
      (\<exists>n. found (rs_remote rs) (om_Name (pr_ObjectMeta p)) = Some n \<and> requester n = rt_username (rs_threads rs i))) \<and>
    (\<forall>i j p q. rt_pc (rs_threads rs i) = Finished (Inr p) \<longrightarrow> rt_pc (rs_threads rs j) = Finished (Inr q) \<longrightarrow> i \<noteq> j \<longrightarrow>
      om_Name (pr_ObjectMeta p) \<noteq> om_Name (pr_ObjectMeta q))"
proof -
  have ok: "writes_ok found rs" by (rule requests_reachable_ok [OF assms])
  have fin: "om_Name (pr_ObjectMeta p) = rt_name (rs_threads rs i) \<and>
      MadeNamespace i (rt_name (rs_threads rs i)) \<in> set (rs_writes rs)" if "rt_pc (rs_threads rs i) = Finished (Inr p)" for i p
    using writes_okD(3) [OF ok, of i p] that by simp
  have "\<exists>n name. found (rs_remote rs) ns = Some n \<and> b = admin_binding ns (requester n) name"
    if "AskedBinding i ns b \<in> set (rs_writes rs)" for i ns b
    using writes_okD(5) [OF ok that] writes_okD(2) [OF ok, of i ns] by metis
  moreover have "om_Name (pr_ObjectMeta p) = rt_name (rs_threads rs i) \<and>
      (\<exists>n. found (rs_remote rs) (om_Name (pr_ObjectMeta p)) = Some n \<and> requester n = rt_username (rs_threads rs i))"
    if "rt_pc (rs_threads rs i) = Finished (Inr p)" for i p
    using fin [OF that] writes_okD(2) [OF ok] by metis
  moreover have "om_Name (pr_ObjectMeta p) \<noteq> om_Name (pr_ObjectMeta q)"
    if "rt_pc (rs_threads rs i) = Finished (Inr p)" "rt_pc (rs_threads rs j) = Finished (Inr q)" "i \<noteq> j" for i j p q
    using fin [OF that(1)] fin [OF that(2)] writes_okD(4) [OF ok] that(3) by metis
  ultimately show ?thesis by blast
qed

text \<open>A schedule: whose call comes next, with a step of the others where there is none.\<close>

fun run_schedule :: "'s kube_client \<Rightarrow> ('s \<Rightarrow> 's) \<Rightarrow> nat option list \<Rightarrow> 's requests_state \<Rightarrow> 's requests_state" where
  "run_schedule client step [] rs = rs"
| "run_schedule client step (None # is) rs = run_schedule client step is (rs\<lparr>rs_remote := step (rs_remote rs)\<rparr>)"
| "run_schedule client step (Some i # is) rs =
     (let t = rs_threads rs i;
          (pc, s) = request_call (\<lambda>_. 0) client (rt_request t) (rt_username t) (rt_pc t) (rs_remote rs)
      in run_schedule client step is (after_call i pc s rs))"

lemma run_schedule_reachable:
  "requests_reachable client other rs \<Longrightarrow> (\<And>s. other s (step s)) \<Longrightarrow>
   requests_reachable client other (run_schedule client step is rs)"
proof (induction client step "is" rs rule: run_schedule.induct)
  case (3 client step i "is" rs)
  obtain pc s where c: "request_call (\<lambda>_. 0) client (rt_request (rs_threads rs i)) (rt_username (rs_threads rs i))
      (rt_pc (rs_threads rs i)) (rs_remote rs) = (pc, s)" by fastforce
  show ?case
    using 3(1) [OF refl c [symmetric] refl requests_reachable.call [OF 3(2) refl c] 3(3)] by (simp add: Let_def c)
qed (auto intro: requests_reachable.other)

definition sample_admitted :: project_request where
  "sample_admitted = sample_project_request\<lparr>prq_ObjectMeta :=
     FillObjectMetaSystemFields sample_env sample_context (prq_ObjectMeta sample_project_request)\<rparr>"

text \<open>Two users, the second one named here, ask for the same project at the same time.\<close>

definition sample_threads :: "namespace list requests_state" where
  "sample_threads = \<lparr>rs_remote = [],
     rs_threads = \<lambda>i. \<lparr>rt_request = sample_admitted, rt_username = (if i = 0 then ''ann'' else ''bob''), rt_pc = CheckName\<rparr>,
     rs_writes = []\<rparr>"

lemma sample_admitted_admitted: "admitted sample_admitted"
proof -
  have "BeforeCreate sample_env False request_accessor request_strategy sample_context sample_project_request = Inr sample_admitted"
    by code_simp
  then show ?thesis unfolding admitted_def by blast
qed

lemma sample_threads_reachable: "requests_reachable sample_remote other sample_threads"
  unfolding sample_threads_def by (rule requests_reachable.start) (simp add: sample_admitted_admitted)

lemma sample_remote_stores: "stores_requester sample_remote"
  by (simp add: stores_requester_def sample_remote_def requester_def split: option.split)

lemma sample_race:
  "let rs = run_schedule sample_remote (\<lambda>s. s) [Some 0, Some 1, Some 1, Some 0, Some 1, Some 1, Some 1] sample_threads in
   (case rt_pc (rs_threads rs 0) of Finished (Inl err) \<Rightarrow> True | _ \<Rightarrow> False) \<and>
   (case rt_pc (rs_threads rs 1) of Finished (Inr p) \<Rightarrow> om_Name (pr_ObjectMeta p) = ''shop'' | _ \<Rightarrow> False) \<and>
   AskedBinding 1 ''shop'' (admin_binding ''shop'' ''bob'' ''admin'') \<in> set (rs_writes rs)"
  by code_simp

theorem concurrent_requests_safe_witness:
  "\<exists>n rs. requests_reachable sample_remote (\<lambda>s s'. s' = s) rs \<and> sample_found (rs_remote rs) ''shop'' = Some n \<and>
     requester n = ''bob'' \<and> (\<exists>err. rt_pc (rs_threads rs 0) = Finished (Inl err))"
proof -
  let ?rs = "run_schedule sample_remote (\<lambda>s. s) [Some 0, Some 1, Some 1, Some 0, Some 1, Some 1, Some 1] sample_threads"
  have r: "requests_reachable sample_remote (\<lambda>s s'. s' = s) ?rs"
    by (rule run_schedule_reachable [OF sample_threads_reachable]) simp
  have k: "others_keep sample_found (\<lambda>s s'. s' = s)"
    by (simp add: others_keep_def)
  have "\<exists>err. rt_pc (rs_threads ?rs 0) = Finished (Inl err)"
    using sample_race by (auto simp: Let_def split: request_pc.splits sum.splits)
  moreover have "AskedBinding 1 ''shop'' (admin_binding ''shop'' ''bob'' ''admin'') \<in> set (rs_writes ?rs)"
    using sample_race by (simp only: Let_def)
  with concurrent_requests_safe [OF sample_remote_lawful sample_remote_stores k r] obtain n name where
    "sample_found (rs_remote ?rs) ''shop'' = Some n"
    "admin_binding ''shop'' ''bob'' ''admin'' = admin_binding ''shop'' (requester n) name" by blast
  moreover from this(2) have "requester n = ''bob''"
    by (simp add: admin_binding_def)
  ultimately show ?thesis using r by blast
qed

text \<open>
  That nobody deletes the namespace matters: the bindings name it and not its UID. When it is deleted and
  made again by another user's request between the calls of one, the first user is bound as an
  administrator of the second user's project.
\<close>

lemma recreated_project_misbound:
  "let rs = run_schedule sample_remote (\<lambda>s. []) [Some 0, Some 0, None, Some 1, Some 1, Some 0] sample_threads in
   AskedBinding 0 ''shop'' (admin_binding ''shop'' ''ann'' ''admin'') \<in> set (rs_writes rs) \<and>
   map_option requester (sample_found (rs_remote rs) ''shop'') = Some ''bob''"
  by code_simp

end
