(* ===== verification/Spec2Isabelle.thy ===== *)
theory Spec2Isabelle
  imports Startup DeepCopyV1 ConvertMemory Served WatchSafety RequestRaces
begin

text \<open>
  A verification of the OpenShift project server, \<^verbatim>\<open>openshift/kube-projects\<close>: an API server in front of a
  Kubernetes cluster that gives every user a list and a watch of the namespaces (``projects'') the user may
  get, and lets users request new ones.

  \<^bold>\<open>The program.\<close> The server keeps no objects of its own. Namespaces are stored by the remote API server;
  informers keep local copies of the namespaces and of the RBAC roles and bindings. Every second the
  authorization cache synchronizes: it asks the reviewer, for each namespace that may have changed, which
  users and groups may get it, keeps the answers in three stores, and notifies its watchers. A list request
  reads the stores and the namespace lister; a watch request makes a watcher from such a list, adds it to
  the cache, and a goroutine moves the watcher's events to the client. A project request creates a
  namespace and two role bindings and waits until the requester can use them.

  \<^bold>\<open>Theories and code.\<close> In the order of the imports:
  \<^item> \<open>Prelude\<close>: outcomes of Go code that may panic or block, the functions of \<^verbatim>\<open>strings\<close>, maps as association
    lists. \<open>ApiTypes\<close>: the API types (\<^verbatim>\<open>pkg/apis/project/types.go\<close>, \<^verbatim>\<open>register.go\<close> and the types of Kubernetes
    they are made of) and the errors.
  \<^item> \<open>RbacAllows\<close>, \<open>RuleResolver\<close>, \<open>SubjectLocator\<close>, \<open>RoleAdapter\<close>: \<^verbatim>\<open>pkg/apiserver/rbac/allows.go\<close>, \<^verbatim>\<open>rule.go\<close>,
    \<^verbatim>\<open>subject_locator.go\<close>, with \<^verbatim>\<open>pkg/project/auth/reviewer.go\<close>, and \<^verbatim>\<open>pkg/apiserver/roleadapter.go\<close> over the
    informers' indexes, wired as \<^verbatim>\<open>apiserver.go\<close> does it.
  \<^item> \<open>Stores\<close>: the string sets, the keyed stores and the namespace lister of the client library. \<open>Convert\<close>:
    \<^verbatim>\<open>pkg/project/util/util.go\<close> and \<^verbatim>\<open>pkg/apis/project/helpers.go\<close>.
  \<^item> \<open>Watcher\<close>: \<^verbatim>\<open>pkg/project/auth/watch.go\<close>. The channels are lists with a capacity (1000 events, one
    error); the goroutine is the step relation \<open>watch_step\<close> over its program points, interleaved with the
    notifications of the cache and with the client's stop.
  \<^item> \<open>SubjectStores\<close>, \<open>AuthCache\<close>: the records and the operations of \<^verbatim>\<open>pkg/project/auth/cache.go\<close>. The stores
    are a record beside the cache because the code works on new stores when it rebuilds everything; the
    version sets and the watchers are references, held by address, because the code shares them; the mutex
    is a flag, and taking it twice blocks. \<open>sync_view\<close> is what one synchronization reads of the informers.
  \<^item> \<open>CacheCorrect\<close>, \<open>CacheProps\<close>, \<open>CacheProgress\<close>: what a synchronization achieves, for any sequence of the
    cache's operations (\<open>cache_reachable\<close>); when it returns, and when it blocks for ever.
  \<^item> \<open>NameValidation\<close>, \<open>MetaValidation\<close>, \<open>Validation\<close>: \<^verbatim>\<open>pkg/apis/project/validation/validation.go\<close> and what it
    reaches of the library's validation.
  \<^item> \<open>Selectors\<close>, \<open>ProjectStorage\<close>: label and field selectors, and \<^verbatim>\<open>pkg/project/registry/project\<close>
    (\<^verbatim>\<open>storage.go\<close>, \<^verbatim>\<open>strategy.go\<close>). \<open>ProjectRequestStorage\<close>: \<^verbatim>\<open>pkg/project/registry/projectrequest\<close>. The remote
    API server is a record of operations on a state \<open>'s\<close>, given to the definitions as an argument.
  \<^item> \<open>WatchSync\<close>, \<open>Server\<close>, \<open>WatchSafety\<close>: the cache with all its watches; no code of their own.
  \<^item> \<open>ProjectHistory\<close>: the requests to both storages, one after another, over one remote server (\<open>lawful_server\<close>
    says what is relied on of it). \<open>RequestRaces\<close>: the project requests again, call by call, so that any
    number of them run at the same time; \<open>request_calls_provision\<close> shows that the calls of one are \<open>provision\<close>.
  \<^item> \<open>Startup\<close>: \<^verbatim>\<open>cmd/project-server/server.go\<close>, \<^verbatim>\<open>pkg/cmd/server/start.go\<close>, \<^verbatim>\<open>pkg/apiserver/apiserver.go\<close> and
    the loop \<^verbatim>\<open>Run\<close> of the cache.
  \<^item> \<open>GoMemory\<close>, \<open>MemTypes\<close>: memory as a list of cells, and the API objects as they lie in it, internal and
    versioned (\<^verbatim>\<open>pkg/apis/project/v1/types.go\<close>). \<open>DeepCopy\<close>, \<open>DeepCopyV1\<close>: both \<^verbatim>\<open>zz_generated.deepcopy.go\<close>, with
    the copies of the metadata. \<open>ConvertMemory\<close>: \<^verbatim>\<open>util.go\<close> on memory, with the maps and slices it shares.
  \<^item> \<open>Scheme\<close>, \<open>Install\<close>: the library's scheme, and \<^verbatim>\<open>register.go\<close>, \<^verbatim>\<open>v1/register.go\<close>, \<^verbatim>\<open>install/install.go\<close> with the
    registration manager, the group factory and the REST mapper they use: everything that runs before
    \<^verbatim>\<open>main\<close>. \<open>Served\<close>: the types the storages are served with.
  \<^item> This theory: the path from a project request to the requester's list.

  \<^bold>\<open>What the lemmas show.\<close>
  \<^item> Authorization: the subjects located for an action are those whose rules the resolver finds to allow it
    (\<open>AllowedSubjects_agrees\<close>), the resolver's rules are those of the bindings that apply (\<open>RulesFor_rules\<close>,
    \<open>RulesFor_isolated\<close>), so a list of projects is the set of namespaces the user may get
    (\<open>listing_is_authorization\<close>), which after a request holds the project it answered (\<open>requested_project_listed\<close>),

    and a watch is told nothing else (\<open>watch_told_only_authorized\<close>). Concurrent requests make nobody an
    administrator of another's project (\<open>concurrent_requests_safe\<close>), as long as nobody deletes the namespace
    between the calls of a request (\<open>recreated_project_misbound\<close>).
  \<^item> The cache: its stores are the inverse of its review records in every reachable state
    (\<open>cache_invariant\<close>), and a synchronization refines one step of a map from namespaces to subjects
    (\<open>synchronize_refines\<close>, \<open>synchronize_rebuilds\<close>). It returns when the watchers have room
    (\<open>synchronize_returns\<close>) and blocks for ever otherwise (\<open>notifyWatchers_blocks_iff\<close>).
  \<^item> Watching: delivery in order without loss (\<open>watch_delivery\<close>), the client's view is the watcher's
    (\<open>watch_client_view\<close>) and the listing's (\<open>watch_agrees_with_list\<close>), capacities, clean-up and the end of a
    stopped watch (\<open>watch_channels\<close>, \<open>watch_stops\<close>).
  \<^item> Storage: exact answers of list and watch requests, what writes can write, what a failed request
    leaves, what a history of requests comes to (\<open>storage_refines_map\<close>, \<open>created_project_stays\<close>), and the
    bound of the wait: the backoff takes its number of steps, six, as its measure, so it needs no fuel.
  \<^item> Memory: a deep copy equals the original and shares nothing with it (\<open>DeepCopyObject_correct\<close>,
    \<open>V1_DeepCopyObject_correct\<close>); the conversions on memory are those on values, as far as one sees, and share
    the maps (\<open>ConvertProject_mem_refines\<close>, \<open>ConvertNamespaceList_mem_correct\<close>).
  \<^item> Types: the initialization ends in a scheme whose two tables agree and that has every kind of the group
    in both versions (\<open>program_init_typed\<close>), and the installed resources find their types, names and scopes
    there (\<open>installed_resources_typed\<close>).
  \<^item> Where the code does less than it means to, a theorem says what it does: updates never succeed, a
    lister's error empties the cache, a deleted binding is not seen, a full watcher stops the cache, a
    watch can miss a change between its listing and its registration, an error of serving is dropped.

  \<^bold>\<open>Interfaces.\<close> The locales state what one part relies on of another: the keyed stores (interpreted on the
  client library's stores), the subject stores' contract, the sources of roles and bindings of the resolver,
  the lister the storage and the watchers list through (interpreted on the authorization cache), the decision
  to skip a synchronization (interpreted on both of the code), the cache as its watchers see it, and the
  contract of a deep copy,
 which is shown for composite values from that of
  their parts. They are interpreted on the model's definitions where those are given. The remote server has
  no code here: what is relied on of it is a predicate, and the properties that need it have it as a
  hypothesis.

  \<^bold>\<open>Not modelled.\<close> The flags, certificates and the generic API server are library calls, parameters of
  \<open>Startup\<close> where the program looks at their errors; the informers and the remote server are parameters too.
  The conversion between the internal and the versioned types is reflection of the scheme's converter, which
  \<open>Scheme\<close> leaves out with the codecs; \<open>program_init_typed\<close> shows that it pairs the right types by name. Outside
  \<open>ConvertMemory\<close> and the deep copies API objects are values: where the code shares a map and changes it, as
  \<^verbatim>\<open>ConvertProject\<close> does, those definitions return the changed object too, which is right as long as labels and
  annotations are not one map (\<open>ConvertProject_mem_refines\<close>). Memory has no pointers into the middle of an
  object or a slice; the code makes none that outlive a call. Selectors are modelled from their parsed form.
  Logging and metrics are left out. In \<open>Server\<close> the lister may change at any time and reviews may fail; what a
  watch and a list then agree on is \<open>watch_agrees_with_list\<close>, and \<open>watch_gap\<close> and \<open>dangling_reference_freezes\<close>
  show what they do not. In \<open>RequestRaces\<close> the wait for access is one step: it only asks.
\<close>

section \<open>From the request to the list\<close>

text \<open>
  How the remote server stores a role binding it is given: the group of the role reference is
  defaulted.
\<close>

definition stored_binding :: "role_binding \<Rightarrow> role_binding" where
  "stored_binding b =
     (if ref_APIGroup (rb_RoleRef b) = '''' then b\<lparr>rb_RoleRef := (rb_RoleRef b)\<lparr>ref_APIGroup := RbacGroupName\<rparr>\<rparr> else b)"

lemma admin_binding_grants:
  assumes "stored_binding (admin_binding ns (ui_Name u) name) \<in> set (ix_roleBindings ix)"
    and "GetClusterRole ix name = Inr crl" and "ns \<noteq> ''''" and "RulesAllow a (cr_Rules crl)"
  shows "RulesAllow a (fst (RulesFor (server_getters ix) u ns))"
proof -
  let ?b = "stored_binding (admin_binding ns (ui_Name u) name)"
  obtain rl where rl: "rl \<in> set (cr_Rules crl)" "RuleAllows a rl"
    using assms(4) by (auto simp: RulesAllow_iff)
  have "roleBindingLister (server_getters ix) ns = Inr (ListAllByNamespace rb_ObjectMeta (ix_roleBindings ix) ns)"
    by (simp add: server_getters_def ListRoleBindings_def)
  moreover have "?b \<in> set (ListAllByNamespace rb_ObjectMeta (ix_roleBindings ix) ns)"
    using assms(1,3) by (simp add: ListAllByNamespace_def stored_binding_def admin_binding_def)
  moreover have "\<exists>s \<in> set (rb_Subjects ?b). appliesToUser u s ns"
    by (simp add: stored_binding_def admin_binding_def appliesToUser_def)
  moreover have "GetRoleReferenceRules (server_getters ix) (rb_RoleRef ?b) ns = Inr (cr_Rules crl)"
    using assms(2) by (simp add: stored_binding_def admin_binding_def GetRoleReferenceRules_def Let_def
        RoleRefGroupKind_def RbacKind_def server_getters_def)
  ultimately have "rl \<in> set (fst (RulesFor (server_getters ix) u ns))"
    using assms(3) rl(1) unfolding RulesFor_mem_iff by blast
  with rl(2) show ?thesis
    by (auto simp: RulesAllow_iff)
qed

text \<open>The way from the binding to the list: once the informers show it, the next synchronization that
  reviews the namespace puts the project into its user's list.\<close>

lemma requester_sees_project:
  assumes "cache_reachable ac" and "\<not> skips v ac" and "synchronize v ac = Return ac'"
    and "v_namespaces v = Inr items" and "v_review v = server_reviewer ix"
    and "cluster_accounts_qualified (server_getters ix)" and "all_resolve (server_evaluator ix) (ns_Name n)"
    and "namespace_Get items (ns_Name n) = Inr n"
    and "pending (all_requests v) (base_stores v ac) (ns_Name n)"
    and "stored_binding (admin_binding (ns_Name n) (ui_Name u) ''admin'') \<in> set (ix_roleBindings ix)"
    and "GetClusterRole ix ''admin'' = Inr crl" and "RulesAllow (review_attributes (ns_Name n)) (cr_Rules crl)"
    and "ns_Name n \<noteq> ''''" and "om_Initializers (ns_ObjectMeta n) = None" and "ctx_User ctx = Some u"
  shows "\<exists>ps. projects_List (namespace_Get items) ac' ctx None = Return (Inr ps) \<and> ConvertNamespace n \<in> set ps"
proof -
  have inv: "index_inv (ac_stores ac')"
    using reachable_index_inv cache_reachable.sync [OF assms(1,3)] by blast
  obtain ns where l: "projects_List (namespace_Get items) ac' ctx None = Return (Inr (map ConvertNamespace ns))"
    "\<forall>n. n \<in> set ns \<longleftrightarrow> namespace_Get items (ns_Name n) = Inr n \<and> may_see (ac_stores ac') u (ns_Name n) \<and> selected None n"
    using cache_lister.list_request [of "(items, ac')" ctx u None] inv assms(15) by (auto simp: projects_List_def)
  have "may_see (ac_stores ac') u (ns_Name n)"
    using reviewed_may_see [OF assms(1-9)] admin_binding_grants [OF assms(10,11,13,12)] by blast
  moreover have "selected None n"
    using assms(14) by (simp add: selected_def ListOptionsToSelectors_def)
  ultimately show ?thesis
    using l assms(8) by auto
qed

lemma new_name_pending:
  assumes "v_namespaces v = Inr items" and "ns_Name n = ns" "n \<in> set items" and "access_of (ac_stores ac) ns = None"
  shows "pending (all_requests v) (base_stores v ac) ns"
proof -
  have "access_of (base_stores v ac) ns = None"
    using assms(4) by (simp add: base_stores_def)
  then have "lastKnown (reviewRecordStore (base_stores v ac)) ns = None"
    by (simp add: access_of_def split: option.splits)
  then show ?thesis
    using assms(1-3) by (auto simp: pending_def all_requests_def skipReview_def namespace_request_def
        intro!: bexI [of _ "namespace_request n"])
qed

text \<open>
  The bindings a server keeps: what a successful creation was given is kept, as it is stored, and no later
  call takes it away.
\<close>

definition keeps_bindings :: "'s kube_client \<Rightarrow> ('s \<Rightarrow> role_binding set) \<Rightarrow> bool" where
  "keeps_bindings client bound \<longleftrightarrow>
     (\<forall>ns b s. bound s \<subseteq> bound (snd (kc_CreateRoleBinding client ns b s)) \<and>
        (fst (kc_CreateRoleBinding client ns b s) = None \<longrightarrow> stored_binding b \<in> bound (snd (kc_CreateRoleBinding client ns b s)))) \<and>
     (\<forall>review s. bound (snd (kc_CreateAccessReview client review s)) = bound s)"

lemma keeps_bindings_created:
  assumes "keeps_bindings client bound" and "kc_CreateRoleBinding client ns b s = (r, s')"
  shows "bound s \<subseteq> bound s'" and "r = None \<Longrightarrow> stored_binding b \<in> bound s'"
proof -
  have "bound s \<subseteq> bound (snd (kc_CreateRoleBinding client ns b s)) \<and>
      (fst (kc_CreateRoleBinding client ns b s) = None \<longrightarrow> stored_binding b \<in> bound (snd (kc_CreateRoleBinding client ns b s)))"
    using assms(1) unfolding keeps_bindings_def by blast
  with assms(2) show "bound s \<subseteq> bound s'" "r = None \<Longrightarrow> stored_binding b \<in> bound s'" by simp_all
qed

lemma provision_binds:
  assumes "keeps_bindings client bound" and "provision rnd client r u s = (Inr p, s')"
  shows "stored_binding (admin_binding (om_Name (prq_ObjectMeta r)) u ''admin'') \<in> bound s'"
proof -
  let ?ns = "om_Name (prq_ObjectMeta r)"
  obtain s2 s3 s4 where 1: "kc_CreateRoleBinding client ?ns (admin_binding ?ns u ''admin'') s2 = (None, s3)"
    and 2: "kc_CreateRoleBinding client ?ns (admin_binding ?ns u (GroupName @ '':admin'')) s3 = (None, s4)"
    and s': "s' = snd (waitForAccess rnd client ?ns u s4)"
    using provision_success [OF assms(2)] by blast
  have "bound s' = bound s4"
    unfolding s' waitForAccess_def ExponentialBackoff_def
    by (rule backoff_keeps) (use assms(1) in \<open>simp add: keeps_bindings_def\<close>)
  with keeps_bindings_created [OF assms(1) 1] keeps_bindings_created [OF assms(1) 2] show ?thesis by blast
qed

text \<open>A request that succeeds leaves its project and its user's binding at the server.\<close>

lemma requests_Create_leaves:
  assumes law: "lawful_server client found" and "keeps_bindings client bound" and u: "ctx_User ctx = Some u"
    and r: "requests_Create env enabled rnd client ctx obj admit s = Return (Inr p, s')"
  obtains n where "p = ConvertNamespace n" "found s' (ns_Name n) = Some n" "ns_Name n \<noteq> ''''"
    "stored_binding (admin_binding (ns_Name n) (ui_Name u) ''admin'') \<in> bound s'"
proof -
  obtain request r where b: "BeforeCreate env enabled request_accessor request_strategy ctx request = Inr r"
    and p: "provision rnd client r (ui_Name u) s = (Inr p, s')"
    using assms(3,4) by (cases obj) (auto simp: requests_Create_def type_assertion_panic_def split: option.splits sum.splits)
  note name = request_name_nonempty [OF b]
  have "project_step (projects_of (found s)) (RequestProject env enabled rnd ctx obj admit) (Answered p) (projects_of (found s'))"
    using provision_step [OF law name _ p, of "RequestProject env enabled rnd ctx obj admit"] by simp
  then have "projects_of (found s') (om_Name (pr_ObjectMeta p)) = Some p"
    by (rule project_step_made) simp
  then obtain n where n: "found s' (om_Name (pr_ObjectMeta p)) = Some n" "p = ConvertNamespace n"
    by (auto simp: projects_of_def)
  moreover have "om_Name (pr_ObjectMeta p) = om_Name (prq_ObjectMeta r)"
    using provision_name [OF law name p] .
  ultimately show ?thesis
    using that [of n] name provision_binds [OF assms(2) p] by simp
qed


text \<open>A small remote server that keeps namespaces and bindings, and what informers show of it.\<close>

definition with_bindings :: "namespace list kube_client \<Rightarrow> (namespace list \<times> role_binding list) kube_client" where
  "with_bindings client =
     \<lparr>kc_Namespaces =
        \<lparr>nc_Get = (\<lambda>name s. case nc_Get (kc_Namespaces client) name (fst s) of (r, ns) \<Rightarrow> (r, (ns, snd s))),
         nc_Create = (\<lambda>n s. case nc_Create (kc_Namespaces client) n (fst s) of (r, ns) \<Rightarrow> (r, (ns, snd s))),
         nc_Update = (\<lambda>n s. case nc_Update (kc_Namespaces client) n (fst s) of (r, ns) \<Rightarrow> (r, (ns, snd s))),
         nc_Delete = (\<lambda>name s. case nc_Delete (kc_Namespaces client) name (fst s) of (r, ns) \<Rightarrow> (r, (ns, snd s)))\<rparr>,
      kc_CreateRoleBinding = (\<lambda>ns b s. (None, (fst s, stored_binding b # snd s))),
      kc_CreateAccessReview = (\<lambda>review s. (Inr (snd s \<noteq> []), s))\<rparr>"

lemma with_bindings_lawful:
  assumes "lawful_server client found"
  shows "lawful_server (with_bindings client) (found \<circ> fst)"
proof -
  note get = lawful_get [OF assms] and create = lawful_create [OF assms] and delete = lawful_delete [OF assms]
  show ?thesis
    unfolding lawful_server_def
  proof (intro conjI allI impI)
    fix name s n
    show "(found \<circ> fst) (snd (nc_Get (kc_Namespaces (with_bindings client)) name s)) = (found \<circ> fst) s"
      using get(1) by (auto simp: with_bindings_def split: prod.split)
    show "(found \<circ> fst) s name = Some n" if "fst (nc_Get (kc_Namespaces (with_bindings client)) name s) = Inr n"
      using that get(2) by (auto simp: with_bindings_def split: prod.splits)
    show "\<exists>x. (found \<circ> fst) (snd (nc_Delete (kc_Namespaces (with_bindings client)) name s)) = ((found \<circ> fst) s)(name := x) \<and>
        ((found \<circ> fst) s name = None \<longrightarrow> x = None)"
      using delete [of name "fst s"] by (auto simp: with_bindings_def split: prod.split)
  next
    fix n s m s'
    assume "ns_Name n \<noteq> ''''" "nc_Create (kc_Namespaces (with_bindings client)) n s = (Inr m, s')"
    with create(1) show "creates_namespace ((found \<circ> fst) s) (ns_Name n) m ((found \<circ> fst) s')"
      by (auto simp: with_bindings_def split: prod.splits)
  next
    fix n s e s'
    assume "ns_Name n \<noteq> ''''" "nc_Create (kc_Namespaces (with_bindings client)) n s = (Inl e, s')"
    with create(2) [of n "fst s" e "fst s'"]
    show "(found \<circ> fst) s' = (found \<circ> fst) s \<or> (\<exists>m. creates_namespace ((found \<circ> fst) s) (ns_Name n) m ((found \<circ> fst) s'))"
      by (auto simp: with_bindings_def split: prod.splits)
  qed (simp_all add: with_bindings_def)
qed


lemma with_bindings_keeps: "keeps_bindings (with_bindings client) (set \<circ> snd)"
  by (auto simp: keeps_bindings_def with_bindings_def)

definition requested_state :: "namespace list \<times> role_binding list" where
  "requested_state = (case requests_Create sample_env False (\<lambda>i. 0) (with_bindings sample_remote) sample_context
     (RequestObject sample_project_request) (\<lambda>_. None) ([], []) of Return (r, s) \<Rightarrow> s | _ \<Rightarrow> ([], []))"

definition requested_project :: project where
  "requested_project = ConvertNamespace (hd (fst requested_state))"

definition informed_cluster :: rbac_indexers where
  "informed_cluster = \<lparr>ix_roles = [], ix_roleBindings = snd requested_state,
     ix_clusterRoles = [\<lparr>cr_ObjectMeta = empty_meta\<lparr>om_Name := ''admin''\<rparr>, cr_Rules = [sample_rule]\<rparr>,
       \<lparr>cr_ObjectMeta = empty_meta\<lparr>om_Name := ''project.openshift.io:admin''\<rparr>, cr_Rules = []\<rparr>],
     ix_clusterRoleBindings = []\<rparr>"

definition informed_view :: sync_view where
  "informed_view = (sample_view ''9'' [])\<lparr>v_namespaces := Inr (fst requested_state), v_nsGet := namespace_Get (fst requested_state),
     v_review := server_reviewer informed_cluster\<rparr>"

lemma sample_requested:
  "requests_Create sample_env False (\<lambda>i. 0) (with_bindings sample_remote) sample_context
     (RequestObject sample_project_request) (\<lambda>_. None) ([], []) = Return (Inr requested_project, requested_state)"
  by code_simp



end
